(* ===== verification/Prelude.thy ===== *)
theory Prelude
  imports Main "HOL-Library.Char_ord" "HOL-Library.List_Lexorder" "HOL-Library.Option_ord"
begin

text \<open>
  Shared vocabulary of the development.

  \<^item> The types every component uses: instants and durations in nanoseconds, HTTP responses,
    the outcome of a Go call that may panic.
  \<^item> Signed 64-bit wrap-around, written out on \<open>int\<close>.
  \<^item> Generic lemmas on lists, sums and keyed rows; \<open>row_simps\<close> collects those on SQL updates.
  \<^item> The two locales for transition systems: \<open>invariant_of\<close>, an invariant of the reachable states,
    and \<open>refines\<close>, which extends it with an abstraction to a specification.
\<close>

named_theorems row_simps \<open>what the statements on rows do to keys, to sets of rows and to counts\<close>

section \<open>Instants, durations, machine integers\<close>

text \<open>Go's \<open>time.Time\<close> as nanoseconds since the Unix epoch; \<open>time.Duration\<close> as nanoseconds.\<close>

type_synonym time = int
type_synonym duration = int

definition nanosecond :: duration where "nanosecond = 1"
definition millisecond :: duration where "millisecond = 1000000"
definition second :: duration where "second = 1000000000"
definition hour :: duration where "hour = 3600 * second"

lemmas duration_defs = nanosecond_def millisecond_def second_def hour_def

text \<open>The two's complement reading of the low 64 bits: what an \<open>int64\<close> operation returns.\<close>

definition i64 :: "int \<Rightarrow> int" where
  "i64 x = (x + 2 ^ 63) mod 2 ^ 64 - 2 ^ 63"

definition in_i64 :: "int \<Rightarrow> bool" where
  "in_i64 x \<longleftrightarrow> - (2 ^ 63) \<le> x \<and> x < 2 ^ 63"

lemma i64_range: "in_i64 (i64 x)"
proof -
  have "0 \<le> (x + 2 ^ 63) mod (2 ^ 64 :: int)" and "(x + 2 ^ 63) mod (2 ^ 64 :: int) < 2 ^ 64"
    by simp_all
  then show ?thesis by (simp add: in_i64_def i64_def)
qed

lemma i64_id: "in_i64 x \<Longrightarrow> i64 x = x"
  by (simp add: in_i64_def i64_def)

text \<open>Go's integer division truncates towards zero.\<close>

definition quot :: "int \<Rightarrow> int \<Rightarrow> int" where
  "quot a b = sgn a * sgn b * (\<bar>a\<bar> div \<bar>b\<bar>)"

lemma quot_nonneg: "0 \<le> a \<Longrightarrow> 0 < b \<Longrightarrow> quot a b = a div b"
  by (auto simp: quot_def sgn_if zdiv_eq_0_iff)

text \<open>A \<open>TIMESTAMPTZ\<close> of Postgres holds microseconds.\<close>

definition timestamptz :: "time \<Rightarrow> time" where
  "timestamptz t = t - t mod 1000"

lemma timestamptz_le: "timestamptz t \<le> t"
  by (simp add: timestamptz_def)

lemma timestamptz_idem [simp]: "timestamptz (timestamptz t) = timestamptz t"
  by (simp add: timestamptz_def minus_mod_eq_mult_div)

text \<open>How Postgres reads a \<open>UUID\<close> literal: \<open>U s\<close> is the canonical text of \<open>s\<close>, or \<open>None\<close>
  for text that is no UUID. The order of UUIDs is the order of their canonical texts.\<close>

type_synonym uuid_in = "string \<Rightarrow> string option"

definition uuid_laws :: "uuid_in \<Rightarrow> bool" where
  "uuid_laws U \<longleftrightarrow> U '''' = None \<and> (\<forall>s c. U s = Some c \<longrightarrow> U c = Some c)"

section \<open>Calls that may panic, HTTP responses\<close>

datatype 'a go = Ret 'a | Panic

text \<open>
  A response as the handlers of this repository write it: a status, the headers set, and a
  body. \<open>'b\<close> is the type of the JSON payloads a service writes on success.
\<close>

datatype 'b body =
    NoBody
  | ErrorBody string
  | FieldErrorBody string string
  | TextBody string
  | JsonBody 'b

record 'b response =
  resp_status :: int
  resp_headers :: "(string \<times> string) list"
  resp_body :: "'b body"

definition json_content :: "string \<times> string" where
  "json_content = (''Content-Type'', ''application/json'')"

section \<open>Generic lemmas\<close>

lemma sum_caseE:
  assumes "(case x of Inl e \<Rightarrow> f e | Inr a \<Rightarrow> g a) = y"
  obtains e where "x = Inl e" "f e = y" | a where "x = Inr a" "g a = y"
  using assms by (cases x) auto

lemma distinct_map_filter_key: "distinct (map f xs) \<Longrightarrow> distinct (map f (filter P xs))"
  by (induction xs) auto

lemma distinct_map_unique:
  "distinct (map f xs) \<Longrightarrow> x \<in> set xs \<Longrightarrow> y \<in> set xs \<Longrightarrow> f x = f y \<Longrightarrow> x = y"
  by (induction xs) (auto simp: rev_image_eqI)

lemma find_SomeD: "find P xs = Some x \<Longrightarrow> x \<in> set xs \<and> P x"
  by (induction xs) (auto split: if_splits)

lemma find_None_iff_all: "find P xs = None \<longleftrightarrow> (\<forall>x \<in> set xs. \<not> P x)"
  by (induction xs) auto

lemma find_unique:
  "distinct (map f xs) \<Longrightarrow> x \<in> set xs \<Longrightarrow> find (\<lambda>y. f y = f x) xs = Some x"
  by (induction xs) (auto simp: rev_image_eqI)

text \<open>Updating the rows that satisfy a condition, as an SQL \<open>UPDATE\<close> does, and their number.\<close>

definition update_where :: "('a \<Rightarrow> bool) \<Rightarrow> ('a \<Rightarrow> 'a) \<Rightarrow> 'a list \<Rightarrow> 'a list" where
  "update_where P f xs = map (\<lambda>x. if P x then f x else x) xs"

definition rows_affected :: "('a \<Rightarrow> bool) \<Rightarrow> 'a list \<Rightarrow> nat" where
  "rows_affected P xs = length (filter P xs)"

lemma update_where_Nil [simp]: "update_where P f [] = []"
  by (simp add: update_where_def)

lemma update_where_Cons [simp]:
  "update_where P f (x # xs) = (if P x then f x else x) # update_where P f xs"
  by (simp add: update_where_def)

lemma update_where_append [simp]: "update_where P f (xs @ ys) = update_where P f xs @ update_where P f ys"
  by (simp add: update_where_def)

lemma length_update_where [simp]: "length (update_where P f xs) = length xs"
  by (simp add: update_where_def)

lemma map_key_update_where [row_simps]:
  "(\<And>x. k (f x) = k x) \<Longrightarrow> map k (update_where P f xs) = map k xs"
  by (simp add: update_where_def comp_def)

lemma set_update_where [row_simps]: "set (update_where P f xs) = (\<lambda>x. if P x then f x else x) ` set xs"
  by (simp add: update_where_def)

lemma update_where_id: "(\<forall>x \<in> set xs. \<not> P x) \<Longrightarrow> update_where P f xs = xs"
  by (induction xs) auto

lemma rows_affected_0 [row_simps]: "rows_affected P xs = 0 \<longleftrightarrow> (\<forall>x \<in> set xs. \<not> P x)"
  by (auto simp: rows_affected_def filter_empty_conv)

section \<open>Invariants of a transition system\<close>

text \<open>
  The reachable states of a system given by its initial states and its step relation.
  A component proves \<open>init\<close> and \<open>step\<close> for its invariant and interprets the locale.
\<close>

inductive reach :: "('s \<Rightarrow> bool) \<Rightarrow> ('s \<Rightarrow> 's \<Rightarrow> bool) \<Rightarrow> 's \<Rightarrow> bool"
  for start :: "'s \<Rightarrow> bool" and step :: "'s \<Rightarrow> 's \<Rightarrow> bool" where
  reach_start: "start s \<Longrightarrow> reach start step s"
| reach_step: "reach start step s \<Longrightarrow> step s t \<Longrightarrow> reach start step t"

lemma reach_rtranclp: "reach start step s \<Longrightarrow> step\<^sup>*\<^sup>* s t \<Longrightarrow> reach start step t"
  by (rotate_tac, induction rule: rtranclp_induct) (auto intro: reach_step)

locale invariant_of =
  fixes start :: "'s \<Rightarrow> bool" and step :: "'s \<Rightarrow> 's \<Rightarrow> bool" and inv :: "'s \<Rightarrow> bool"
  assumes inv_start: "start s \<Longrightarrow> inv s"
    and inv_step: "inv s \<Longrightarrow> step s t \<Longrightarrow> inv t"
begin

lemma inv_reach: "reach start step s \<Longrightarrow> inv s"
  by (induction rule: reach.induct) (blast intro: inv_start inv_step)+

lemma inv_steps: "step\<^sup>*\<^sup>* s t \<Longrightarrow> inv s \<Longrightarrow> inv t"
  by (induction rule: rtranclp_induct) (blast intro: inv_step)+

end

text \<open>A system refines a specification when an abstraction function turns each of its steps, from a
  state that satisfies the invariant, into steps of the specification.\<close>

locale refines = invariant_of start step inv
  for start :: "'s \<Rightarrow> bool" and step :: "'s \<Rightarrow> 's \<Rightarrow> bool" and inv :: "'s \<Rightarrow> bool" +
  fixes spec_start :: "'a \<Rightarrow> bool" and spec_step :: "'a \<Rightarrow> 'a \<Rightarrow> bool" and abs :: "'s \<Rightarrow> 'a"
  assumes abs_start: "start s \<Longrightarrow> spec_start (abs s)"
    and abs_step: "inv s \<Longrightarrow> step s t \<Longrightarrow> spec_step\<^sup>*\<^sup>* (abs s) (abs t)"
begin


lemma refinement: "reach start step s \<Longrightarrow> reach spec_start spec_step (abs s)"
proof (induction rule: reach.induct)
  case (reach_start s)
  then show ?case by (intro reach.reach_start abs_start)
next
  case (reach_step s t)
  from abs_step [OF inv_reach [OF reach_step(1)] reach_step(2)] reach_step(3) show ?case
    by (blast intro: reach_rtranclp)
qed

end

end
