(* ===== verification/CircuitBreaker.thy ===== *)
theory CircuitBreaker
  imports Prelude
begin

text \<open>
  The gateway's circuit breaker, \<open>gateway/circuitbreaker.go\<close>. \<open>Do\<close> holds the mutex in
  three places: on entry (\<open>cb_admit\<close>), when the request's context is already done
  (\<open>cb_cancel\<close>), and when the upstream call has returned (\<open>cb_failure\<close>,
  \<open>cb_success\<close>); each is one atomic operation here, with one reading of the clock. The
  notifications that the code sends to \<open>onStateChange\<close> are returned as a list.

  \<open>cb_Do\<close> is the whole method as one caller sees it; \<open>cb_step\<close> is the breaker shared by
  concurrent requests, where the atomic operations of different calls interleave. The upstream
  call may also panic (\<open>httputil.ReverseProxy\<close> panics with \<open>http.ErrAbortHandler\<close> when
  copying a response body fails): \<open>Do\<close> has no deferred unlock or reset, so the panic leaves
  the method at that point.
\<close>

section \<open>State\<close>

datatype State = StateClosed | StateOpen | StateHalfOpen

fun State_String :: "State \<Rightarrow> string" where
  "State_String StateClosed = ''CLOSED''"
| "State_String StateOpen = ''OPEN''"
| "State_String StateHalfOpen = ''HALF_OPEN''"

text \<open>The values of the \<open>iota\<close> constants.\<close>

fun state_code :: "State \<Rightarrow> int" where
  "state_code StateClosed = 0"
| "state_code StateOpen = 1"
| "state_code StateHalfOpen = 2"

type_synonym transition = "State \<times> State"

record CircuitBreaker =
  cb_state :: State
  failures :: int
  lastFailureTime :: time
  maxFailures :: int
  openTimeout :: duration
  failureWindow :: duration
  windowStart :: time
  onStateChange :: bool \<comment> \<open>a callback is attached\<close>
  halfOpenProbe :: bool

text \<open>Go's zero \<open>time.Time\<close>: 1 January of year 1.\<close>

definition zero_time :: time where
  "zero_time = - 62135596800 * second"

definition NewCircuitBreaker :: "time \<Rightarrow> int \<Rightarrow> duration \<Rightarrow> duration \<Rightarrow> CircuitBreaker" where
  "NewCircuitBreaker now maxF openT window =
     \<lparr>cb_state = StateClosed, failures = 0, lastFailureTime = zero_time, maxFailures = maxF,
      openTimeout = openT, failureWindow = window, windowStart = now, onStateChange = False,
      halfOpenProbe = False\<rparr>"

definition WithStateChange :: "CircuitBreaker \<Rightarrow> CircuitBreaker" where
  "WithStateChange cb = cb\<lparr>onStateChange := True\<rparr>"

definition notifyStateChange :: "CircuitBreaker \<Rightarrow> State \<Rightarrow> State \<Rightarrow> transition list" where
  "notifyStateChange cb from to = (if onStateChange cb then [(from, to)] else [])"

section \<open>The critical sections of \<open>Do\<close>\<close>

definition cb_admit :: "time \<Rightarrow> CircuitBreaker \<Rightarrow> bool \<times> CircuitBreaker \<times> transition list" where
  "cb_admit now cb =
     (case cb_state cb of
        StateOpen \<Rightarrow>
          if now - lastFailureTime cb \<le> openTimeout cb then (False, cb, [])
          else (True, cb\<lparr>cb_state := StateHalfOpen, halfOpenProbe := True\<rparr>,
                notifyStateChange cb StateOpen StateHalfOpen)
      | StateHalfOpen \<Rightarrow>
          if halfOpenProbe cb then (False, cb, [])
          else (True, cb\<lparr>halfOpenProbe := True\<rparr>, [])
      | StateClosed \<Rightarrow> (True, cb, []))"

definition cb_cancel :: "CircuitBreaker \<Rightarrow> CircuitBreaker" where
  "cb_cancel cb = (if cb_state cb = StateHalfOpen then cb\<lparr>halfOpenProbe := False\<rparr> else cb)"

definition cb_failure :: "time \<Rightarrow> CircuitBreaker \<Rightarrow> CircuitBreaker \<times> transition list" where
  "cb_failure now cb =
     (if cb_state cb = StateHalfOpen then
        (cb\<lparr>halfOpenProbe := False, cb_state := StateOpen, lastFailureTime := now\<rparr>,
         notifyStateChange cb StateHalfOpen StateOpen)
      else
        let cb = cb\<lparr>halfOpenProbe := False\<rparr>;
            cb = (if now - windowStart cb > failureWindow cb
                  then cb\<lparr>failures := 0, windowStart := now\<rparr> else cb);
            cb = cb\<lparr>failures := failures cb + 1, lastFailureTime := now\<rparr>
        in if failures cb \<ge> maxFailures cb \<and> cb_state cb \<noteq> StateOpen
           then (cb\<lparr>cb_state := StateOpen\<rparr>, notifyStateChange cb (cb_state cb) StateOpen)
           else (cb, []))"

definition cb_success :: "time \<Rightarrow> CircuitBreaker \<Rightarrow> CircuitBreaker \<times> transition list" where
  "cb_success now cb =
     (if cb_state cb = StateHalfOpen then
        (cb\<lparr>cb_state := StateClosed, halfOpenProbe := False, failures := 0, windowStart := now\<rparr>,
         notifyStateChange cb StateHalfOpen StateClosed)
      else (cb\<lparr>halfOpenProbe := False, failures := 0, windowStart := now\<rparr>, []))"

section \<open>\<open>Do\<close>\<close>

datatype 'e upcall = UpNil | UpErr 'e | UpPanic

datatype 'e do_result = DoNil | DoCircuitOpen | DoCtxErr | DoErr 'e | DoPanic

text \<open>
  One call: \<open>t0\<close> is the clock at entry, \<open>ctx_done\<close> whether the context is done at the
  \<open>select\<close>, \<open>t1\<close> the clock when the upstream call has returned. The upstream call works on
  a state \<open>'s\<close> of the caller's.
\<close>

definition cb_Do :: "time \<Rightarrow> bool \<Rightarrow> ('s \<Rightarrow> 'e upcall \<times> 's) \<Rightarrow> time \<Rightarrow> CircuitBreaker \<Rightarrow> 's
    \<Rightarrow> 'e do_result \<times> CircuitBreaker \<times> 's \<times> transition list" where
  "cb_Do t0 ctx_done upstream t1 cb s =
     (let (ok, cb, tr) = cb_admit t0 cb in
      if \<not> ok then (DoCircuitOpen, cb, s, tr)
      else if ctx_done then (DoCtxErr, cb_cancel cb, s, tr)
      else
        let (r, s) = upstream s in
        (case r of
           UpErr e \<Rightarrow> let (cb, tr') = cb_failure t1 cb in (DoErr e, cb, s, tr @ tr')
         | UpNil \<Rightarrow> let (cb, tr') = cb_success t1 cb in (DoNil, cb, s, tr @ tr')
         | UpPanic \<Rightarrow> (DoPanic, cb, s, tr)))"

text \<open>A sequence of calls, one after the other.\<close>

record 'e call =
  call_start :: time
  call_ctx_done :: bool
  call_upstream :: "'e upcall"
  call_end :: time

text \<open>The caller's state here counts how often the upstream was really called.\<close>

definition do_call :: "CircuitBreaker \<Rightarrow> 'e call \<Rightarrow> 'e do_result \<times> CircuitBreaker \<times> nat \<times> transition list" where
  "do_call cb c = cb_Do (call_start c) (call_ctx_done c) (\<lambda>n. (call_upstream c, Suc n)) (call_end c) cb 0"

fun cb_run :: "CircuitBreaker \<Rightarrow> 'e call list
    \<Rightarrow> 'e do_result list \<times> CircuitBreaker \<times> nat \<times> transition list" where
  "cb_run cb [] = ([], cb, 0, [])"
| "cb_run cb (c # cs) =
     (let (r, cb, n, tr) = do_call cb c;
          (rs, cb, m, tr') = cb_run cb cs
      in (r # rs, cb, n + m, tr @ tr'))"

section \<open>Basic facts\<close>

lemmas cb_defs = cb_admit_def cb_cancel_def cb_failure_def cb_success_def Let_def

text \<open>What no operation changes: the configuration.\<close>

definition same_config :: "CircuitBreaker \<Rightarrow> CircuitBreaker \<Rightarrow> bool" where
  "same_config a b \<longleftrightarrow> maxFailures a = maxFailures b \<and> openTimeout a = openTimeout b
     \<and> failureWindow a = failureWindow b \<and> onStateChange a = onStateChange b"

lemma same_config_ops:
  "same_config (fst (snd (cb_admit t cb))) cb" "same_config (cb_cancel cb) cb"
  "same_config (fst (cb_failure t cb)) cb" "same_config (fst (cb_success t cb)) cb"
  by (auto simp: same_config_def cb_defs split: State.splits)

lemma cb_admit_False:
  "fst (cb_admit t cb) \<longleftrightarrow> \<not> (cb_state cb = StateOpen \<and> t - lastFailureTime cb \<le> openTimeout cb
      \<or> cb_state cb = StateHalfOpen \<and> halfOpenProbe cb)"
  by (auto simp: cb_admit_def split: State.splits)

lemma cb_admit_reject_id: "\<not> fst (cb_admit t cb) \<Longrightarrow> cb_admit t cb = (False, cb, [])"
  by (auto simp: cb_admit_def split: State.splits if_splits)

text \<open>The invariant of the breaker at clock \<open>now\<close>.\<close>

definition cb_inv :: "time \<Rightarrow> CircuitBreaker \<Rightarrow> bool" where
  "cb_inv now cb \<longleftrightarrow>
     (halfOpenProbe cb \<longrightarrow> cb_state cb = StateHalfOpen) \<and>
     (cb_state cb = StateClosed \<longrightarrow> failures cb < maxFailures cb) \<and>
     0 \<le> failures cb \<and> 1 \<le> maxFailures cb \<and>
     lastFailureTime cb \<le> now \<and> windowStart cb \<le> now"

lemma cb_inv_mono: "cb_inv t cb \<Longrightarrow> t \<le> t' \<Longrightarrow> cb_inv t' cb"
  by (auto simp: cb_inv_def)

lemma cb_inv_new: "1 \<le> m \<Longrightarrow> zero_time \<le> now \<Longrightarrow> cb_inv now (NewCircuitBreaker now m o' w)"
  by (simp add: cb_inv_def NewCircuitBreaker_def)

lemma cb_inv_admit: "cb_inv now cb \<Longrightarrow> cb_inv now (fst (snd (cb_admit t cb)))"
  by (auto simp: cb_inv_def cb_admit_def split: State.splits)

lemma cb_inv_cancel: "cb_inv now cb \<Longrightarrow> cb_inv now (cb_cancel cb)"
  by (auto simp: cb_inv_def cb_cancel_def)

lemma cb_inv_failure: "cb_inv now cb \<Longrightarrow> cb_inv now (fst (cb_failure now cb))"
  by (cases "cb_state cb") (auto simp: cb_inv_def cb_failure_def Let_def)

lemma cb_inv_success: "cb_inv now cb \<Longrightarrow> cb_inv now (fst (cb_success now cb))"
  by (auto simp: cb_inv_def cb_success_def)

lemmas cb_inv_ops = cb_inv_admit cb_inv_cancel cb_inv_failure cb_inv_success


section \<open>The breaker under concurrent requests\<close>

text \<open>
  Each call is somewhere between its critical sections: admitted but not yet past the
  \<open>select\<close> on its context, or inside the upstream call. \<open>True\<close> marks a call that was
  admitted as a half-open probe. The parameters say which environment events may happen:
  panics of the upstream call, and contexts that are done at the \<open>select\<close>.
\<close>

datatype phase = Admitted bool | Calling bool

fun is_probe :: "phase \<Rightarrow> bool" where
  "is_probe (Admitted p) = p"
| "is_probe (Calling p) = p"

record cbsys =
  sys_cb :: CircuitBreaker
  sys_clock :: time
  sys_calls :: "nat \<rightharpoonup> phase"

inductive cb_step :: "bool \<Rightarrow> bool \<Rightarrow> cbsys \<Rightarrow> cbsys \<Rightarrow> bool" for pan can where
  step_tick: "sys_clock s \<le> t \<Longrightarrow> cb_step pan can s (s\<lparr>sys_clock := t\<rparr>)"
| step_admit: "sys_calls s i = None \<Longrightarrow> cb_admit (sys_clock s) (sys_cb s) = (True, cb, tr) \<Longrightarrow>
    cb_step pan can s (s\<lparr>sys_cb := cb,
      sys_calls := (sys_calls s)(i \<mapsto> Admitted (cb_state (sys_cb s) \<noteq> StateClosed))\<rparr>)"
| step_reject: "sys_calls s i = None \<Longrightarrow> cb_admit (sys_clock s) (sys_cb s) = (False, cb, tr) \<Longrightarrow>
    cb_step pan can s (s\<lparr>sys_cb := cb\<rparr>)"
| step_cancel: "can \<Longrightarrow> sys_calls s i = Some (Admitted p) \<Longrightarrow>
    cb_step pan can s (s\<lparr>sys_cb := cb_cancel (sys_cb s), sys_calls := (sys_calls s)(i := None)\<rparr>)"
| step_call: "sys_calls s i = Some (Admitted p) \<Longrightarrow>
    cb_step pan can s (s\<lparr>sys_calls := (sys_calls s)(i \<mapsto> Calling p)\<rparr>)"
| step_fail: "sys_calls s i = Some (Calling p) \<Longrightarrow>
    cb_step pan can s (s\<lparr>sys_cb := fst (cb_failure (sys_clock s) (sys_cb s)),
      sys_calls := (sys_calls s)(i := None)\<rparr>)"
| step_succeed: "sys_calls s i = Some (Calling p) \<Longrightarrow>
    cb_step pan can s (s\<lparr>sys_cb := fst (cb_success (sys_clock s) (sys_cb s)),
      sys_calls := (sys_calls s)(i := None)\<rparr>)"
| step_panic: "pan \<Longrightarrow> sys_calls s i = Some (Calling p) \<Longrightarrow>
    cb_step pan can s (s\<lparr>sys_calls := (sys_calls s)(i := None)\<rparr>)"

inductive_cases cb_stepE: "cb_step pan can s t"

text \<open>The same steps as an executable function of an event, to run concrete interleavings.\<close>

datatype event = Tick time | Enter nat | Cancel nat | CallUp nat | Fail nat | Succeed nat | PanicIn nat

fun allowed :: "bool \<Rightarrow> bool \<Rightarrow> event \<Rightarrow> bool" where
  "allowed pan can (Cancel i) = can"
| "allowed pan can (PanicIn i) = pan"
| "allowed pan can e = True"

fun cb_exec :: "cbsys \<Rightarrow> event \<Rightarrow> cbsys option" where
  "cb_exec s (Tick t) = (if sys_clock s \<le> t then Some (s\<lparr>sys_clock := t\<rparr>) else None)"
| "cb_exec s (Enter i) =
     (if sys_calls s i \<noteq> None then None
      else let (ok, cb, tr) = cb_admit (sys_clock s) (sys_cb s) in
        Some (if ok then s\<lparr>sys_cb := cb,
                sys_calls := (sys_calls s)(i \<mapsto> Admitted (cb_state (sys_cb s) \<noteq> StateClosed))\<rparr>
              else s\<lparr>sys_cb := cb\<rparr>))"
| "cb_exec s (Cancel i) =
     (case sys_calls s i of Some (Admitted p) \<Rightarrow>
        Some (s\<lparr>sys_cb := cb_cancel (sys_cb s), sys_calls := (sys_calls s)(i := None)\<rparr>) | _ \<Rightarrow> None)"
| "cb_exec s (CallUp i) =
     (case sys_calls s i of Some (Admitted p) \<Rightarrow>
        Some (s\<lparr>sys_calls := (sys_calls s)(i \<mapsto> Calling p)\<rparr>) | _ \<Rightarrow> None)"
| "cb_exec s (Fail i) =
     (case sys_calls s i of Some (Calling p) \<Rightarrow>
        Some (s\<lparr>sys_cb := fst (cb_failure (sys_clock s) (sys_cb s)),
          sys_calls := (sys_calls s)(i := None)\<rparr>) | _ \<Rightarrow> None)"
| "cb_exec s (Succeed i) =
     (case sys_calls s i of Some (Calling p) \<Rightarrow>
        Some (s\<lparr>sys_cb := fst (cb_success (sys_clock s) (sys_cb s)),
          sys_calls := (sys_calls s)(i := None)\<rparr>) | _ \<Rightarrow> None)"
| "cb_exec s (PanicIn i) =
     (case sys_calls s i of Some (Calling p) \<Rightarrow>
        Some (s\<lparr>sys_calls := (sys_calls s)(i := None)\<rparr>) | _ \<Rightarrow> None)"

lemma cb_exec_step: "cb_exec s e = Some t \<Longrightarrow> allowed pan can e \<Longrightarrow> cb_step pan can s t"
  by (cases e) (auto intro: cb_step.intros split: if_splits option.splits phase.splits prod.splits)

fun cb_execs :: "cbsys \<Rightarrow> event list \<Rightarrow> cbsys option" where
  "cb_execs s [] = Some s"
| "cb_execs s (e # es) = (case cb_exec s e of None \<Rightarrow> None | Some t \<Rightarrow> cb_execs t es)"

lemma cb_execs_reach:
  "cb_execs s es = Some t \<Longrightarrow> list_all (allowed pan can) es \<Longrightarrow> reach start (cb_step pan can) s
     \<Longrightarrow> reach start (cb_step pan can) t"
proof (induction es arbitrary: s)
  case (Cons e es)
  then obtain u where u: "cb_exec s e = Some u" "cb_execs u es = Some t" by (auto split: option.splits)
  moreover have "allowed pan can e" using Cons.prems(2) by simp
  ultimately have "cb_step pan can s u" by (blast intro: cb_exec_step)
  with Cons.prems(3) have "reach start (cb_step pan can) u" by (rule reach_step)
  with Cons.IH [OF u(2)] Cons.prems(2) show ?case by simp
qed simp

definition cb_start :: "cbsys \<Rightarrow> bool" where
  "cb_start s \<longleftrightarrow> (\<exists>now m o' w. 1 \<le> m \<and> zero_time \<le> now \<and>
     s = \<lparr>sys_cb = WithStateChange (NewCircuitBreaker now m o' w), sys_clock = now,
          sys_calls = Map.empty\<rparr>)"

lemma cb_start_inv: "cb_start s \<Longrightarrow> cb_inv (sys_clock s) (sys_cb s) \<and> cb_state (sys_cb s) = StateClosed
    \<and> sys_calls s = Map.empty"
  by (auto simp: cb_start_def cb_inv_def NewCircuitBreaker_def WithStateChange_def)

definition sys_inv :: "cbsys \<Rightarrow> bool" where
  "sys_inv s \<longleftrightarrow> cb_inv (sys_clock s) (sys_cb s)"

lemma cb_step_inv: "cb_step pan can s t \<Longrightarrow> sys_inv s \<Longrightarrow> sys_inv t"
proof (induction rule: cb_step.induct)
  case (step_admit s i cb tr)
  then show ?case using cb_inv_admit [of "sys_clock s" "sys_cb s" "sys_clock s"]
    by (simp add: sys_inv_def)
next
  case (step_reject s i cb tr)
  then show ?case using cb_inv_admit [of "sys_clock s" "sys_cb s" "sys_clock s"]
    by (simp add: sys_inv_def)
qed (auto simp: sys_inv_def cb_inv_ops intro: cb_inv_mono)

interpretation breaker: invariant_of cb_start "cb_step pan can" sys_inv
proof
  show "cb_start s \<Longrightarrow> sys_inv s" for s using cb_start_inv [of s] by (simp add: sys_inv_def)
qed (rule cb_step_inv)

text \<open>Without panics, a set probe flag belongs to a probe call that is still in flight.\<close>

definition has_probe :: "(nat \<rightharpoonup> phase) \<Rightarrow> bool" where
  "has_probe calls \<longleftrightarrow> (\<exists>i ph. calls i = Some ph \<and> is_probe ph)"

lemma has_probe_add: "calls i = None \<Longrightarrow> has_probe calls \<Longrightarrow> has_probe (calls(i \<mapsto> ph))"
  unfolding has_probe_def by (metis fun_upd_apply option.distinct(1))

lemma has_probe_new: "is_probe ph \<Longrightarrow> has_probe (calls(i \<mapsto> ph))"
  by (auto simp: has_probe_def intro: exI [of _ i])

lemma has_probe_call:
  "calls i = Some (Admitted p) \<Longrightarrow> has_probe calls \<Longrightarrow> has_probe (calls(i \<mapsto> Calling p))"
  unfolding has_probe_def by (metis fun_upd_apply is_probe.simps option.inject)

definition probe_inv :: "cbsys \<Rightarrow> bool" where
  "probe_inv s \<longleftrightarrow> sys_inv s \<and> (halfOpenProbe (sys_cb s) \<longrightarrow> has_probe (sys_calls s))"

lemma probe_flag_cleared:
  "sys_inv s \<Longrightarrow> \<not> halfOpenProbe (cb_cancel (sys_cb s))"
  "\<not> halfOpenProbe (fst (cb_failure t cb))" "\<not> halfOpenProbe (fst (cb_success t cb))"
  by (auto simp: sys_inv_def cb_inv_def cb_defs)

lemma admit_closed: "cb_state cb = StateClosed \<Longrightarrow> cb_admit t cb = (True, cb, [])"
  by (simp add: cb_admit_def)

lemma probe_inv_step: "cb_step False can s t \<Longrightarrow> probe_inv s \<Longrightarrow> probe_inv t"
proof -
  assume st: "cb_step False can s t" and inv: "probe_inv s"
  then have t: "sys_inv t" by (auto simp: probe_inv_def dest: cb_step_inv)
  from st inv have "halfOpenProbe (sys_cb t) \<longrightarrow> has_probe (sys_calls t)"
  proof (cases rule: cb_step.cases)
    case (step_admit i cb tr)
    show ?thesis
    proof (cases "cb_state (sys_cb s) = StateClosed")
      case True
      with step_admit have "cb = sys_cb s" by (simp add: admit_closed)
      with inv step_admit show ?thesis by (simp add: probe_inv_def has_probe_add)
    qed (use step_admit in \<open>simp add: has_probe_new\<close>)
  next
    case (step_reject i cb tr)
    then have "cb = sys_cb s" using cb_admit_reject_id [of "sys_clock s" "sys_cb s"] by simp
    with inv step_reject show ?thesis by (simp add: probe_inv_def)
  qed (auto simp: probe_inv_def probe_flag_cleared has_probe_call)
  with t show ?thesis by (simp add: probe_inv_def)
qed

lemma cb_start_probe_inv: "cb_start s \<Longrightarrow> probe_inv s"
  using cb_start_inv [of s] by (auto simp: probe_inv_def sys_inv_def cb_inv_def)

interpretation breaker_probe: invariant_of cb_start "cb_step False can" probe_inv
proof
  show "cb_start s \<Longrightarrow> probe_inv s" for s by (rule cb_start_probe_inv)
qed (rule probe_inv_step)

text \<open>Without contexts done at the \<open>select\<close>, the flag is exactly the half-open state.\<close>

definition exclusive_inv :: "cbsys \<Rightarrow> bool" where
  "exclusive_inv s \<longleftrightarrow> (cb_state (sys_cb s) = StateHalfOpen \<longleftrightarrow> halfOpenProbe (sys_cb s))"

lemma exclusive_ops:
  assumes "cb_state cb = StateHalfOpen \<longleftrightarrow> halfOpenProbe cb"
  shows "cb_state (fst (snd (cb_admit t cb))) = StateHalfOpen
      \<longleftrightarrow> halfOpenProbe (fst (snd (cb_admit t cb)))"
    and "cb_state (fst (cb_failure t cb)) = StateHalfOpen \<longleftrightarrow> halfOpenProbe (fst (cb_failure t cb))"
    and "cb_state (fst (cb_success t cb)) = StateHalfOpen \<longleftrightarrow> halfOpenProbe (fst (cb_success t cb))"
  using assms by (cases "cb_state cb"; auto simp: cb_defs)+

lemma exclusive_step: "cb_step pan False s t \<Longrightarrow> exclusive_inv s \<Longrightarrow> exclusive_inv t"
proof (induction rule: cb_step.induct)
  case (step_admit s i cb tr)
  then show ?case using exclusive_ops(1) [of "sys_cb s" "sys_clock s"]
    by (simp add: exclusive_inv_def)
next
  case (step_reject s i cb tr)
  then show ?case using exclusive_ops(1) [of "sys_cb s" "sys_clock s"]
    by (simp add: exclusive_inv_def)
qed (auto simp: exclusive_inv_def exclusive_ops)

interpretation breaker_exclusive: invariant_of cb_start "cb_step pan False" exclusive_inv
proof
  show "cb_start s \<Longrightarrow> exclusive_inv s" for s
    using cb_start_inv [of s] by (auto simp: exclusive_inv_def cb_inv_def)
qed (rule exclusive_step)


section \<open>Lemmas on single calls and runs\<close>

definition failing :: "'e call \<Rightarrow> bool" where
  "failing c \<longleftrightarrow> \<not> call_ctx_done c \<and> (\<exists>e. call_upstream c = UpErr e)"

lemma do_call_closed_failing:
  assumes "failing c" and "cb_state cb = StateClosed"
  shows "do_call cb c = (case call_upstream c of UpErr e \<Rightarrow>
     (DoErr e, fst (cb_failure (call_end c) cb), 1, snd (cb_failure (call_end c) cb)))"
  using assms by (auto simp: failing_def do_call_def cb_Do_def admit_closed split: prod.splits)

lemma do_call_reject:
  "\<not> fst (cb_admit (call_start c) cb) \<Longrightarrow> do_call cb c = (DoCircuitOpen, cb, 0, [])"
  using cb_admit_reject_id [of "call_start c" cb] by (simp add: do_call_def cb_Do_def)

lemma cb_run_reject:
  "\<forall>c \<in> set cs. \<not> fst (cb_admit (call_start c) cb) \<Longrightarrow>
     cb_run cb cs = (replicate (length cs) DoCircuitOpen, cb, 0, [])"
  by (induction cs) (auto simp: do_call_reject)

lemma failure_closed_in_window:
  assumes "cb_state cb = StateClosed" and "now - windowStart cb \<le> failureWindow cb"
  shows "cb_failure now cb =
    (let cb' = cb\<lparr>halfOpenProbe := False, failures := failures cb + 1, lastFailureTime := now\<rparr>
     in if failures cb + 1 \<ge> maxFailures cb
        then (cb'\<lparr>cb_state := StateOpen\<rparr>, notifyStateChange cb StateClosed StateOpen) else (cb', []))"
  using assms by (simp add: cb_failure_def Let_def notifyStateChange_def)

lemma trip_run:
  assumes "cb_state cb = StateClosed" and "failures cb = k"
    and "\<forall>c \<in> set cs. failing c \<and> call_end c - windowStart cb \<le> failureWindow cb"
    and "k < maxFailures cb" and "k + int (length cs) \<le> maxFailures cb"
  shows "case cb_run cb cs of (rs, cb', n, tr) \<Rightarrow>
      n = length cs \<and> failures cb' = k + int (length cs) \<and>
      (if k + int (length cs) = maxFailures cb
       then cb_state cb' = StateOpen \<and> tr = notifyStateChange cb StateClosed StateOpen
       else cb_state cb' = StateClosed \<and> tr = [])"
  using assms
proof (induction cs arbitrary: cb k)
  case (Cons c cs)
  then have f: "failing c" "call_end c - windowStart cb \<le> failureWindow cb" by auto
  then obtain e where e: "call_upstream c = UpErr e" by (auto simp: failing_def)
  note step = do_call_closed_failing [OF f(1) Cons.prems(1), unfolded e upcall.case]
    failure_closed_in_window [OF Cons.prems(1) f(2)]
  show ?case
  proof (cases "k + 1 = maxFailures cb")
    case True
    with Cons.prems have "cs = []" by (cases cs) auto
    with True Cons.prems step show ?thesis by (simp add: Let_def)
  next
    case False
    let ?cb = "cb\<lparr>halfOpenProbe := False, failures := failures cb + 1, lastFailureTime := call_end c\<rparr>"
    from False Cons.prems have d: "do_call cb c = (DoErr e, ?cb, 1, [])"
      using step by (simp add: Let_def)
    have "case cb_run ?cb cs of (rs, cb', n, tr) \<Rightarrow>
      n = length cs \<and> failures cb' = k + 1 + int (length cs) \<and>
      (if k + 1 + int (length cs) = maxFailures ?cb
       then cb_state cb' = StateOpen \<and> tr = notifyStateChange ?cb StateClosed StateOpen
       else cb_state cb' = StateClosed \<and> tr = [])"
      using False Cons.prems by (intro Cons.IH) auto
    with d show ?thesis
      by (auto simp: notifyStateChange_def algebra_simps split: prod.splits if_splits)
  qed
qed (simp)

text \<open>Failures further apart than the window: each one starts a new window.\<close>

fun spaced :: "time \<Rightarrow> duration \<Rightarrow> 'e call list \<Rightarrow> bool" where
  "spaced w fw [] = True"
| "spaced w fw (c # cs) = (call_end c - w > fw \<and> spaced (call_end c) fw cs)"

lemma spaced_run:
  assumes "cb_state cb = StateClosed" and "2 \<le> maxFailures cb"
    and "\<forall>c \<in> set cs. failing c" and "spaced (windowStart cb) (failureWindow cb) cs"
  shows "cb_state (fst (snd (cb_run cb cs))) = StateClosed \<and> fst (snd (snd (cb_run cb cs))) = length cs"
  using assms
proof (induction cs arbitrary: cb)
  case (Cons c cs)
  then have f: "failing c" "call_end c - windowStart cb > failureWindow cb" by auto
  then obtain e where e: "call_upstream c = UpErr e" by (auto simp: failing_def)
  let ?cb = "cb\<lparr>halfOpenProbe := False, failures := 1, windowStart := call_end c,
               lastFailureTime := call_end c\<rparr>"
  have d: "do_call cb c = (DoErr e, ?cb, 1, [])"
    using Cons.prems f e by (simp add: do_call_closed_failing cb_failure_def Let_def)
  have "cb_state (fst (snd (cb_run ?cb cs))) = StateClosed
      \<and> fst (snd (snd (cb_run ?cb cs))) = length cs"
    using Cons.prems by (intro Cons.IH) auto
  with d show ?case by (auto split: prod.splits)
qed simp

text \<open>A list of notifications that leads from one state to another, each one a change.\<close>

fun chain :: "State \<Rightarrow> transition list \<Rightarrow> State \<Rightarrow> bool" where
  "chain s [] t = (s = t)"
| "chain s ((a, b) # tr) t = (a = s \<and> a \<noteq> b \<and> chain b tr t)"

lemma chain_append: "chain s tr u \<Longrightarrow> chain u tr' t \<Longrightarrow> chain s (tr @ tr') t"
  by (induction s tr u rule: chain.induct) auto

lemma chain_ops:
  assumes "onStateChange cb"
  shows "chain (cb_state cb) (snd (snd (cb_admit t cb))) (cb_state (fst (snd (cb_admit t cb))))"
    and "chain (cb_state cb) (snd (cb_failure t cb)) (cb_state (fst (cb_failure t cb)))"
    and "chain (cb_state cb) (snd (cb_success t cb)) (cb_state (fst (cb_success t cb)))"
    and "cb_state (cb_cancel cb) = cb_state cb"
  using assms by (cases "cb_state cb"; auto simp: cb_defs notifyStateChange_def)+

lemma callback_ops:
  "onStateChange (fst (snd (cb_admit t cb))) = onStateChange cb"
  "onStateChange (fst (cb_failure t cb)) = onStateChange cb"
  "onStateChange (fst (cb_success t cb)) = onStateChange cb"
  "onStateChange (cb_cancel cb) = onStateChange cb"
  using same_config_ops by (auto simp: same_config_def)

lemma cb_Do_chain:
  assumes cb: "onStateChange cb" and d: "cb_Do t0 x up t1 cb s = (r, cb', s', tr)"
  shows "chain (cb_state cb) tr (cb_state cb') \<and> onStateChange cb'"
proof -
  obtain ok cb1 tr1 where a: "cb_admit t0 cb = (ok, cb1, tr1)" by (cases "cb_admit t0 cb")
  have c1: "chain (cb_state cb) tr1 (cb_state cb1)" and n1: "onStateChange cb1"
    using chain_ops(1) [OF cb, of t0] callback_ops(1) [of t0 cb] cb a by auto
  obtain fcb ftr where f: "cb_failure t1 cb1 = (fcb, ftr)" by (cases "cb_failure t1 cb1")
  obtain scb str where sc: "cb_success t1 cb1 = (scb, str)" by (cases "cb_success t1 cb1")
  have two: "chain (cb_state cb1) ftr (cb_state fcb)" "onStateChange fcb"
      "chain (cb_state cb1) str (cb_state scb)" "onStateChange scb"
    using chain_ops(2,3) [OF n1, of t1] callback_ops(2,3) [of t1 cb1] n1 f sc by auto
  from d a c1 n1 two f sc chain_ops(4) [OF n1] callback_ops(4) [of cb1] show ?thesis
    by (auto simp: cb_Do_def split: if_splits prod.splits upcall.splits intro: chain_append)
qed

lemma cb_run_chain:
  "onStateChange cb \<Longrightarrow> cb_run cb cs = (rs, cb', n, tr) \<Longrightarrow>
     chain (cb_state cb) tr (cb_state cb') \<and> onStateChange cb'"
proof (induction cs arbitrary: cb rs cb' n tr)
  case (Cons c cs)
  obtain r cb1 n1 tr1 where d: "do_call cb c = (r, cb1, n1, tr1)" by (cases "do_call cb c")
  obtain rs2 cb2 n2 tr2 where e: "cb_run cb1 cs = (rs2, cb2, n2, tr2)" by (cases "cb_run cb1 cs")
  from cb_Do_chain [OF Cons.prems(1) d [unfolded do_call_def]] Cons.IH [OF _ e] Cons.prems d e
  show ?case by (auto intro: chain_append)
qed simp

end
