(* ===== verification/BreakerProps.thy ===== *)
theory BreakerProps
  imports CircuitBreaker
begin

text \<open>
  What the circuit breaker guarantees: when it trips, what it rejects, how it recovers, what its
  callback sees, what holds under any interleaving of concurrent calls, and the two ways in
  which the half-open probe can go wrong (a panic of the upstream call, and a cancelled call
  that was admitted earlier).
\<close>

definition fail_call :: "time \<Rightarrow> string call" where
  "fail_call t = \<lparr>call_start = t, call_ctx_done = False, call_upstream = UpErr ''e'', call_end = t\<rparr>"

text \<open>C11: consecutive failures that end within the failure window trip the breaker exactly at
  \<open>maxFailures\<close>: one fewer leaves it closed with the failures counted, \<open>maxFailures\<close> of them
  open it, with the one notification CLOSED to OPEN. Every one of them reached the upstream.\<close>

theorem breaker_trips_at_threshold:
  assumes "cb_state cb = StateClosed" and "failures cb = 0"
    and "\<forall>c \<in> set cs. failing c \<and> call_end c - windowStart cb \<le> failureWindow cb"
    and "1 \<le> maxFailures cb" and "int (length cs) \<le> maxFailures cb"
  shows "case cb_run cb cs of (rs, cb', n, tr) \<Rightarrow>
      n = length cs \<and> failures cb' = int (length cs) \<and>
      (if int (length cs) = maxFailures cb
       then cb_state cb' = StateOpen \<and> tr = notifyStateChange cb StateClosed StateOpen
       else cb_state cb' = StateClosed \<and> tr = [])"
  using trip_run [of cb 0 cs] assms by auto

theorem breaker_trips_at_threshold_witness:
  "cb_state (fst (snd (cb_run (WithStateChange (NewCircuitBreaker 0 3 30 10)) (map fail_call [1, 2, 3]))))
     = StateOpen"
  using breaker_trips_at_threshold [of "WithStateChange (NewCircuitBreaker 0 3 30 10)"
      "map fail_call [1, 2, 3]"]
  by (auto simp: NewCircuitBreaker_def WithStateChange_def fail_call_def failing_def
      split: prod.splits)

text \<open>failures spaced further apart than the failure window never open a breaker whose
  threshold is at least two, however many there are: each one restarts the window.\<close>

theorem spaced_failures_never_trip:
  assumes "cb_state cb = StateClosed" and "2 \<le> maxFailures cb"
    and "\<forall>c \<in> set cs. failing c" and "spaced (windowStart cb) (failureWindow cb) cs"
  shows "cb_state (fst (snd (cb_run cb cs))) = StateClosed"
  using spaced_run [OF assms] by simp

theorem spaced_failures_never_trip_witness:
  "cb_state (fst (snd (cb_run (NewCircuitBreaker 0 2 30 10) (map fail_call [11, 22, 33])))) = StateClosed"
proof -
  have "cb_state (NewCircuitBreaker 0 2 30 10) = StateClosed" "2 \<le> maxFailures (NewCircuitBreaker 0 2 30 10)"
    "\<forall>c \<in> set (map fail_call [11, 22, 33]). failing c"
    "spaced (windowStart (NewCircuitBreaker 0 2 30 10)) (failureWindow (NewCircuitBreaker 0 2 30 10))
       (map fail_call [11, 22, 33])"
    by (auto simp: NewCircuitBreaker_def fail_call_def failing_def)
  then show ?thesis by (rule spaced_failures_never_trip)
qed

text \<open>an open breaker rejects every call that starts within the open timeout, without
  calling the upstream and without changing; the first call after the timeout is a probe, and its
  outcome decides: success closes the breaker with the failures forgotten, failure opens it
  again from the time of that failure, a context already done leaves it half-open with the probe
  slot free.\<close>

theorem open_rejects_then_probes:
  assumes "cb_state cb = StateOpen"
    and "\<forall>c \<in> set cs. call_start c \<le> lastFailureTime cb + openTimeout cb"
    and "lastFailureTime cb + openTimeout cb < call_start p"
  shows "cb_run cb cs = (replicate (length cs) DoCircuitOpen, cb, 0, []) \<and>
    (case do_call cb p of (r, cb', n, tr) \<Rightarrow>
       if call_ctx_done p then r = DoCtxErr \<and> n = 0 \<and> cb_state cb' = StateHalfOpen \<and> \<not> halfOpenProbe cb'
       else n = 1 \<and>
         (case call_upstream p of
            UpNil \<Rightarrow> r = DoNil \<and> cb_state cb' = StateClosed \<and> failures cb' = 0
                      \<and> windowStart cb' = call_end p \<and> \<not> halfOpenProbe cb'
          | UpErr e \<Rightarrow> r = DoErr e \<and> cb_state cb' = StateOpen \<and> lastFailureTime cb' = call_end p
                      \<and> \<not> halfOpenProbe cb'
          | UpPanic \<Rightarrow> r = DoPanic \<and> cb_state cb' = StateHalfOpen \<and> halfOpenProbe cb'))"
proof
  have "\<forall>c \<in> set cs. \<not> fst (cb_admit (call_start c) cb)"
    using assms by (auto simp: cb_admit_False)
  then show "cb_run cb cs = (replicate (length cs) DoCircuitOpen, cb, 0, [])"
    by (rule cb_run_reject)
qed (use assms in \<open>auto simp: do_call_def cb_Do_def cb_defs split: upcall.splits\<close>)

definition open_cb :: CircuitBreaker where
  "open_cb = (NewCircuitBreaker 0 1 30 10)\<lparr>cb_state := StateOpen, lastFailureTime := 5\<rparr>"

theorem open_rejects_then_probes_witness:
  "cb_run open_cb [fail_call 20, fail_call 35] = ([DoCircuitOpen, DoCircuitOpen], open_cb, 0, [])
   \<and> cb_state (fst (snd (do_call open_cb (fail_call 36)))) = StateOpen"
  using open_rejects_then_probes [of open_cb "[fail_call 20, fail_call 35]" "fail_call 36"]
  by (auto simp: open_cb_def NewCircuitBreaker_def fail_call_def split: prod.splits)

text \<open>C36: when the probe's upstream call panics, the breaker never admits another request: the
  panic leaves \<open>Do\<close> with the probe slot taken, the state stays HALF_OPEN, and every later call,
  at any time, is rejected without reaching the upstream.\<close>

theorem panicking_probe_wedges:
  assumes "cb_state cb = StateOpen" and "lastFailureTime cb + openTimeout cb < call_start p"
    and "\<not> call_ctx_done p" and "call_upstream p = UpPanic"
  shows "case do_call cb p of (r, cb', n, tr) \<Rightarrow>
     r = DoPanic \<and> cb_run cb' cs = (replicate (length cs) DoCircuitOpen, cb', 0, [])"
proof -
  obtain r cb' n tr where d: "do_call cb p = (r, cb', n, tr)" by (cases "do_call cb p")
  with assms have "r = DoPanic" "cb_state cb' = StateHalfOpen" "halfOpenProbe cb'"
    by (auto simp: do_call_def cb_Do_def cb_defs)
  then show ?thesis using d cb_run_reject [of cs cb'] by (simp add: cb_admit_False)
qed

theorem panicking_probe_wedges_witness:
  "fst (cb_run (fst (snd (do_call open_cb (fail_call 36\<lparr>call_upstream := UpPanic\<rparr>))))
     (map fail_call [100, 100000])) = [DoCircuitOpen, DoCircuitOpen]"
  using panicking_probe_wedges [of open_cb "fail_call 36\<lparr>call_upstream := UpPanic\<rparr>"
      "map fail_call [100, 100000]"]
  by (auto simp: open_cb_def NewCircuitBreaker_def fail_call_def split: prod.splits)

text \<open>the callback sees every state change of a sequence of calls and nothing else: the
  notifications form a chain of real changes from the state before to the state after.\<close>

theorem notifications_follow_state:
  assumes "onStateChange cb"
  shows "case cb_run cb cs of (rs, cb', n, tr) \<Rightarrow> chain (cb_state cb) tr (cb_state cb')"
  using cb_run_chain [OF assms, of cs] by (auto split: prod.splits)

theorem notifications_follow_state_witness:
  "chain StateClosed
     (snd (snd (snd (cb_run (WithStateChange (NewCircuitBreaker 0 1 30 10)) (map fail_call [1, 40])))))
     StateOpen"
proof -
  have cb: "onStateChange (WithStateChange (NewCircuitBreaker 0 1 30 10))"
    by (simp add: WithStateChange_def)
  have "cb_state (fst (snd (cb_run (WithStateChange (NewCircuitBreaker 0 1 30 10)) (map fail_call [1, 40]))))
      = StateOpen" by code_simp
  with notifications_follow_state [OF cb, of "map fail_call [1, 40]"] show ?thesis
    by (auto simp: WithStateChange_def NewCircuitBreaker_def split: prod.splits)
qed

text \<open>C16: under any interleaving of concurrent calls, with cancelled contexts and panics, a
  closed breaker has fewer failures than its threshold, the counter is never negative, the probe
  flag is set only in the half-open state, and its timestamps are never in the future.\<close>

theorem breaker_invariant:
  assumes "reach cb_start (cb_step pan can) s"
  shows "(cb_state (sys_cb s) = StateClosed \<longrightarrow> failures (sys_cb s) < maxFailures (sys_cb s))
     \<and> 0 \<le> failures (sys_cb s)
     \<and> (halfOpenProbe (sys_cb s) \<longrightarrow> cb_state (sys_cb s) = StateHalfOpen)
     \<and> lastFailureTime (sys_cb s) \<le> sys_clock s \<and> windowStart (sys_cb s) \<le> sys_clock s"
  using breaker.inv_reach [OF assms] by (auto simp: sys_inv_def cb_inv_def)

definition init_sys :: cbsys where
  "init_sys = \<lparr>sys_cb = WithStateChange (NewCircuitBreaker 0 1 10 100), sys_clock = 0,
     sys_calls = Map.empty\<rparr>"

lemma init_sys_start: "cb_start init_sys"
  unfolding cb_start_def init_sys_def
  by (rule exI [of _ 0], rule exI [of _ 1], rule exI [of _ 10], rule exI [of _ 100])
     (simp add: zero_time_def second_def)

theorem breaker_invariant_witness:
  "reach cb_start (cb_step True True) init_sys
     \<and> failures (sys_cb init_sys) < maxFailures (sys_cb init_sys)"
proof
  show r: "reach cb_start (cb_step True True) init_sys"
    using init_sys_start by (rule reach_start)
  show "failures (sys_cb init_sys) < maxFailures (sys_cb init_sys)"
    using breaker_invariant [OF r] by (simp add: init_sys_def WithStateChange_def NewCircuitBreaker_def)
qed

text \<open>as long as no upstream call panics, the breaker cannot get stuck half-open: whenever it
  is rejecting because the probe slot is taken, some admitted probe is still in flight.\<close>

theorem probe_slot_has_owner:
  assumes "reach cb_start (cb_step False can) s" and "halfOpenProbe (sys_cb s)"
  shows "\<exists>i ph. sys_calls s i = Some ph \<and> is_probe ph"
  using breaker_probe.inv_reach [OF assms(1)] assms(2) by (simp add: probe_inv_def has_probe_def)

section \<open>Concrete runs of the concurrent breaker\<close>

text \<open>
  Calls 1 and 2 are admitted while the breaker is closed; 2 fails and opens it (threshold one);
  after the open timeout, call 3 is admitted as the probe.
\<close>

definition probe_run :: "event list" where
  "probe_run = [Enter 1, Enter 2, CallUp 2, Fail 2, Tick 11, Enter 3]"

lemma probe_run_state:
  "\<exists>s. cb_execs init_sys probe_run = Some s \<and> halfOpenProbe (sys_cb s) \<and> cb_state (sys_cb s) = StateHalfOpen"
  by (simp add: probe_run_def init_sys_def WithStateChange_def NewCircuitBreaker_def cb_defs)

theorem probe_slot_has_owner_witness:
  "\<exists>s. cb_execs init_sys probe_run = Some s \<and> (\<exists>i ph. sys_calls s i = Some ph \<and> is_probe ph)"
proof -
  obtain s where s: "cb_execs init_sys probe_run = Some s" "halfOpenProbe (sys_cb s)"
    using probe_run_state by blast
  have "reach cb_start (cb_step False False) s"
    using s init_sys_start by (intro cb_execs_reach [OF s(1)] reach_start) (simp_all add: probe_run_def)
  from probe_slot_has_owner [OF this s(2)] s show ?thesis by blast
qed

text \<open>while contexts are not already done at the \<open>select\<close>, the half-open state admits one
  request at a time: the probe slot is taken exactly in that state, so every request that arrives
  then is rejected until the probe is over.\<close>

theorem half_open_is_exclusive:
  assumes "reach cb_start (cb_step pan False) s" and "cb_state (sys_cb s) = StateHalfOpen"
  shows "cb_admit now (sys_cb s) = (False, sys_cb s, [])"
  using breaker_exclusive.inv_reach [OF assms(1)] assms(2)
  by (simp add: exclusive_inv_def cb_admit_def)

theorem half_open_is_exclusive_witness:
  "\<exists>s. cb_execs init_sys probe_run = Some s \<and> cb_admit 12 (sys_cb s) = (False, sys_cb s, [])"
proof -
  obtain s where s: "cb_execs init_sys probe_run = Some s" "cb_state (sys_cb s) = StateHalfOpen"
    using probe_run_state by blast
  have "reach cb_start (cb_step True False) s"
    using s init_sys_start by (intro cb_execs_reach [OF s(1)] reach_start) (simp_all add: probe_run_def)
  from half_open_is_exclusive [OF this s(2)] s show ?thesis by blast
qed

text \<open>C37: with contexts that are done at the \<open>select\<close> the exclusion fails: a request admitted
  while the breaker was closed and cancelled while another one is probing frees the other's probe
  slot, and two probes of the same half-open period are inside the upstream call together.\<close>

theorem cancelled_call_frees_others_probe:
  "\<exists>s. reach cb_start (cb_step False True) s \<and> cb_state (sys_cb s) = StateHalfOpen
     \<and> sys_calls s 3 = Some (Calling True) \<and> sys_calls s 4 = Some (Calling True)"
proof -
  let ?es = "probe_run @ [CallUp 3, Cancel 1, Enter 4, CallUp 4]"
  obtain s where s: "cb_execs init_sys ?es = Some s" "cb_state (sys_cb s) = StateHalfOpen"
      "sys_calls s 3 = Some (Calling True)" "sys_calls s 4 = Some (Calling True)"
    by (simp add: probe_run_def init_sys_def WithStateChange_def NewCircuitBreaker_def cb_defs)
  have "reach cb_start (cb_step False True) s"
    using s init_sys_start by (intro cb_execs_reach [OF s(1)] reach_start) (simp_all add: probe_run_def)
  with s show ?thesis by blast
qed

end
