(* ===== verification/GoStd.thy ===== *)
theory GoStd
  imports Prelude "HOL-Library.Word"
begin

text \<open>
  What the repository uses of Go's standard library on strings: \<open>strings.HasPrefix\<close>,
  \<open>TrimPrefix\<close>, \<open>Split\<close>, \<open>TrimSpace\<close>, \<open>IndexByte\<close>, \<open>LastIndex\<close>,
  \<open>strconv.Atoi\<close>, \<open>strconv.Itoa\<close> and \<open>net.SplitHostPort\<close>. A Go string is its
  bytes, a \<open>char\<close> each. \<open>TrimSpace\<close> is the ASCII part of Go's (the header values it is
  applied to are ASCII).
\<close>

section \<open>Prefixes\<close>

definition HasPrefix :: "string \<Rightarrow> string \<Rightarrow> bool" where
  "HasPrefix s p \<longleftrightarrow> take (length p) s = p"

definition TrimPrefix :: "string \<Rightarrow> string \<Rightarrow> string" where
  "TrimPrefix s p = (if HasPrefix s p then drop (length p) s else s)"

lemma HasPrefix_append [simp]: "HasPrefix (p @ s) p"
  by (simp add: HasPrefix_def)

lemma HasPrefix_iff: "HasPrefix s p \<longleftrightarrow> (\<exists>t. s = p @ t)"
proof
  assume "HasPrefix s p"
  then have "s = p @ drop (length p) s"
    by (metis HasPrefix_def append_take_drop_id)
  then show "\<exists>t. s = p @ t" ..
qed auto

lemma TrimPrefix_append [simp]: "TrimPrefix (p @ s) p = s"
  by (simp add: TrimPrefix_def)

lemma HasPrefix_two:
  "HasPrefix s p \<Longrightarrow> HasPrefix s q \<Longrightarrow> HasPrefix p q \<or> HasPrefix q p"
  by (auto simp: HasPrefix_iff append_eq_append_conv2)

text \<open>\<open>strings.Contains\<close>.\<close>

fun Contains :: "string \<Rightarrow> string \<Rightarrow> bool" where
  "Contains [] p = (p = [])"
| "Contains (x # xs) p = (HasPrefix (x # xs) p \<or> Contains xs p)"

section \<open>Searching and splitting\<close>

fun IndexByte :: "string \<Rightarrow> char \<Rightarrow> int" where
  "IndexByte [] c = - 1"
| "IndexByte (x # xs) c =
     (if x = c then 0 else let i = IndexByte xs c in if i = - 1 then - 1 else i + 1)"

fun LastIndexByte :: "string \<Rightarrow> char \<Rightarrow> int" where
  "LastIndexByte [] c = - 1"
| "LastIndexByte (x # xs) c =
     (let i = LastIndexByte xs c in if i \<ge> 0 then i + 1 else if x = c then 0 else - 1)"

lemma IndexByte_ge: "- 1 \<le> IndexByte s c"
  by (induction s) (auto simp: Let_def)

lemma IndexByte_neg_iff: "IndexByte s c = - 1 \<longleftrightarrow> c \<notin> set s"
proof (induction s)
  case (Cons x xs)
  then show ?case using IndexByte_ge [of xs c] by (auto simp: Let_def)
qed simp

lemma IndexByte_nth: "c \<in> set s \<Longrightarrow> 0 \<le> IndexByte s c \<and> nat (IndexByte s c) < length s
    \<and> s ! nat (IndexByte s c) = c"
proof (induction s)
  case (Cons x xs)
  show ?case
  proof (cases "x = c")
    case False
    with Cons have ih: "0 \<le> IndexByte xs c \<and> nat (IndexByte xs c) < length xs
        \<and> xs ! nat (IndexByte xs c) = c" by simp
    then have "nat (IndexByte xs c + 1) = Suc (nat (IndexByte xs c))" by arith
    with ih False show ?thesis by (simp add: Let_def)
  qed simp
qed simp

lemma IndexByte_distinct:
  "distinct s \<Longrightarrow> i < length s \<Longrightarrow> IndexByte s (s ! i) = int i"
proof (induction s arbitrary: i)
  case (Cons x xs)
  show ?case
  proof (cases i)
    case (Suc j)
    with Cons.prems have j: "j < length xs" and "distinct xs" and "x \<noteq> xs ! j" by auto
    with Cons.IH [of j] Suc show ?thesis by (simp add: Let_def)
  qed simp
qed simp

lemma LastIndexByte_ge: "- 1 \<le> LastIndexByte s c"
  by (induction s) (auto simp: Let_def)

lemma LastIndexByte_neg_iff: "LastIndexByte s c = - 1 \<longleftrightarrow> c \<notin> set s"
proof (induction s)
  case (Cons x xs)
  then show ?case using LastIndexByte_ge [of xs c] by (auto simp: Let_def)
qed simp

lemma LastIndexByte_append: "c \<notin> set t \<Longrightarrow> LastIndexByte (s @ c # t) c = int (length s)"
proof (induction s)
  case Nil
  then show ?case using LastIndexByte_neg_iff [of t c] by (simp add: Let_def)
qed (simp add: Let_def)

text \<open>\<open>strings.Split(s, sep)\<close> for a separator of one byte; the result is never empty.\<close>

fun SplitByte :: "string \<Rightarrow> char \<Rightarrow> string list" where
  "SplitByte [] c = [[]]"
| "SplitByte (x # xs) c =
     (if x = c then [] # SplitByte xs c
      else (case SplitByte xs c of [] \<Rightarrow> [[x]] | y # ys \<Rightarrow> (x # y) # ys))"

lemma SplitByte_nonempty [simp]: "SplitByte s c \<noteq> []"
  by (induction s) (auto split: list.splits)

lemma hd_SplitByte: "hd (SplitByte s c) = takeWhile (\<lambda>x. x \<noteq> c) s"
proof (induction s)
  case (Cons x xs)
  then show ?case by (cases "SplitByte xs c") auto
qed simp

definition is_space :: "char \<Rightarrow> bool" where
  "is_space c \<longleftrightarrow> c \<in> {CHR 0x09, CHR 0x0A, CHR 0x0B, CHR 0x0C, CHR 0x0D, CHR '' ''}"

definition TrimSpace :: "string \<Rightarrow> string" where
  "TrimSpace s = rev (dropWhile is_space (rev (dropWhile is_space s)))"

lemma dropWhile_none: "(\<forall>x \<in> set s. \<not> P x) \<Longrightarrow> dropWhile P s = s"
  by (cases s) auto

lemma TrimSpace_id: "(\<forall>c \<in> set s. \<not> is_space c) \<Longrightarrow> TrimSpace s = s"
  by (simp add: TrimSpace_def dropWhile_none)

section \<open>Numbers\<close>

definition is_digit :: "char \<Rightarrow> bool" where
  "is_digit c \<longleftrightarrow> 48 \<le> (of_char c :: nat) \<and> (of_char c :: nat) \<le> 57"

definition digit_val :: "char \<Rightarrow> int" where
  "digit_val c = of_char c - 48"

definition digit_char :: "int \<Rightarrow> char" where
  "digit_char d = char_of (nat (d + 48))"

fun digits_val :: "int \<Rightarrow> string \<Rightarrow> int" where
  "digits_val acc [] = acc"
| "digits_val acc (c # cs) = digits_val (acc * 10 + digit_val c) cs"

text \<open>
  \<open>strconv.Atoi\<close>: an optional sign, at least one digit, nothing else, and a value that fits
  \<open>int\<close> (64 bits); every other input is an error.
\<close>

definition Atoi :: "string \<Rightarrow> int option" where
  "Atoi s =
     (let neg = (case s of [] \<Rightarrow> False | c # _ \<Rightarrow> c = CHR ''-'');
          ds = (case s of [] \<Rightarrow> [] | c # cs \<Rightarrow> if c = CHR ''-'' \<or> c = CHR ''+'' then cs else s);
          v = (if neg then - digits_val 0 ds else digits_val 0 ds)
      in if ds \<noteq> [] \<and> list_all is_digit ds \<and> in_i64 v then Some v else None)"

text \<open>Decimal rendering, as \<open>fmt.Sprintf\<close>'s \<open>%d\<close> and \<open>strconv.Itoa\<close> give it.\<close>

function dec_digits :: "int \<Rightarrow> string" where
  "dec_digits n = (if n < 10 then [digit_char n] else dec_digits (n div 10) @ [digit_char (n mod 10)])"
  by pat_completeness auto
termination
  by (relation "measure nat") auto

declare dec_digits.simps [simp del]

definition Itoa :: "int \<Rightarrow> string" where
  "Itoa n = (if n < 0 then CHR ''-'' # dec_digits (- n) else dec_digits n)"

lemma digit_char_props:
  assumes "0 \<le> d" and "d < 10"
  shows "is_digit (digit_char d)" and "digit_val (digit_char d) = d"
proof -
  have n: "of_char (digit_char d) = nat (d + 48)"
    using assms by (simp add: digit_char_def)
  moreover have "of_char (digit_char d) = d + 48"
    using assms n by (subst of_nat_of_char [symmetric]) simp
  ultimately show "is_digit (digit_char d)" and "digit_val (digit_char d) = d"
    using assms by (auto simp: is_digit_def digit_val_def)
qed

lemma digits_val_append: "digits_val acc (s @ t) = digits_val (digits_val acc s) t"
  by (induction s arbitrary: acc) auto

lemma dec_digits_props:
  "0 \<le> n \<Longrightarrow> dec_digits n \<noteq> [] \<and> list_all is_digit (dec_digits n) \<and> digits_val 0 (dec_digits n) = n"
proof (induction n rule: dec_digits.induct)
  case (1 n)
  show ?case
  proof (cases "n < 10")
    case True
    then show ?thesis using digit_char_props [of n] "1.prems"
      by (subst (1 2 3) dec_digits.simps) simp
  next
    case False
    with "1.IH" "1.prems" have ih: "dec_digits (n div 10) \<noteq> [] \<and> list_all is_digit (dec_digits (n div 10))
        \<and> digits_val 0 (dec_digits (n div 10)) = n div 10" by simp
    have "0 \<le> n mod 10" and "n mod 10 < 10" by simp_all
    note d = digit_char_props [OF this]
    show ?thesis using ih d False
      by (subst (1 2 3) dec_digits.simps) (simp add: digits_val_append)
  qed
qed

lemma not_digit_signs: "\<not> is_digit (CHR ''-'')" "\<not> is_digit (CHR ''+'')"
  by (simp_all add: is_digit_def)

theorem Atoi_dec_digits: "0 \<le> n \<Longrightarrow> in_i64 n \<Longrightarrow> Atoi (dec_digits n) = Some n"
proof -
  assume "0 \<le> n" and r: "in_i64 n"
  then have p: "dec_digits n \<noteq> []" "list_all is_digit (dec_digits n)" "digits_val 0 (dec_digits n) = n"
    using dec_digits_props by auto
  then obtain c cs where c: "dec_digits n = c # cs" and "is_digit c" by (cases "dec_digits n") auto
  then have "c \<noteq> CHR ''-''" and "c \<noteq> CHR ''+''" using not_digit_signs by auto
  with p c r show ?thesis by (simp add: Atoi_def Let_def)
qed

lemma Atoi_range: "Atoi s = Some n \<Longrightarrow> in_i64 n"
  by (auto simp: Atoi_def Let_def split: if_splits)

section \<open>Host and port\<close>

text \<open>\<open>net.SplitHostPort\<close>, reading only what the callers use: the host, or the error.\<close>

definition SplitHostPort :: "string \<Rightarrow> string option" where
  "SplitHostPort hp =
     (let i = LastIndexByte hp CHR '':'' in
      if i < 0 then None
      else if hd hp = CHR ''['' then
        (let e = IndexByte hp CHR '']'' in
         if e < 0 \<or> e + 1 \<noteq> i then None
         else if CHR ''['' \<in> set (drop 1 hp) \<or> CHR '']'' \<in> set (drop (nat (e + 1)) hp) then None
         else Some (take (nat (e - 1)) (drop 1 hp)))
      else
        (let h = take (nat i) hp in
         if CHR '':'' \<in> set h \<or> CHR ''['' \<in> set hp \<or> CHR '']'' \<in> set hp then None
         else Some h))"

lemma SplitHostPort_plain:
  assumes h: "CHR '':'' \<notin> set h" "CHR ''['' \<notin> set h" "CHR '']'' \<notin> set h" "h \<noteq> []"
    and p: "CHR '':'' \<notin> set p" "CHR ''['' \<notin> set p" "CHR '']'' \<notin> set p"
  shows "SplitHostPort (h @ CHR '':'' # p) = Some h"
proof -
  have i: "LastIndexByte (h @ CHR '':'' # p) CHR '':'' = int (length h)"
    using p by (simp add: LastIndexByte_append)
  have "hd (h @ CHR '':'' # p) \<noteq> CHR ''[''"
    using h by (cases h) auto
  with i h p show ?thesis by (simp add: SplitHostPort_def Let_def)
qed


lemma Atoi_Itoa: "in_i64 n \<Longrightarrow> Atoi (Itoa n) = Some n"
proof (cases "n < 0")
  case True
  assume "in_i64 n"
  moreover have "0 \<le> - n" using True by simp
  note dec_digits_props [OF this]
  ultimately show ?thesis using True by (simp add: Atoi_def Itoa_def Let_def)
next
  case False
  assume "in_i64 n"
  with False show ?thesis by (simp add: Itoa_def Atoi_dec_digits)
qed

text \<open>\<open>hex.EncodeToString\<close>.\<close>

definition hex_digit :: "int \<Rightarrow> char" where
  "hex_digit d = ''0123456789abcdef'' ! nat d"

definition hex_encode :: "8 word list \<Rightarrow> string" where
  "hex_encode bs = concat (map (\<lambda>b. [hex_digit (uint b div 16), hex_digit (uint b mod 16)]) bs)"

end
