(* ===== verification/Http.thy ===== *)
theory Http
  imports GoStd
begin

text \<open>
  Requests as the handlers read them, and the request context as the values that the code puts
  into it: the verified claims (\<open>shared/auth\<close>), the correlation id (\<open>shared/logger\<close>) and the
  rewritten upstream path (\<open>gateway/proxy.go\<close>). Header names are in canonical form, as
  \<open>net/http\<close> stores them; \<open>Get\<close> returns the first value, or the empty string.
\<close>

record Claims =
  Sub :: string
  Email :: string
  Iss :: string
  Iat :: int
  Exp :: int

record reqctx =
  ctx_claims :: "Claims option"
  ctx_correlationID :: "string option"
  ctx_upstreamPath :: "string option"

definition background :: reqctx where
  "background = \<lparr>ctx_claims = None, ctx_correlationID = None, ctx_upstreamPath = None\<rparr>"

record http_request =
  req_method :: string
  req_path :: string
  req_scheme :: string
  req_headers :: "(string \<times> string) list"
  req_remoteAddr :: string
  req_ctx :: reqctx

definition header_get :: "(string \<times> string) list \<Rightarrow> string \<Rightarrow> string" where
  "header_get hs k = (case map_of hs k of None \<Rightarrow> '''' | Some v \<Rightarrow> v)"

definition header_set :: "string \<Rightarrow> string \<Rightarrow> (string \<times> string) list \<Rightarrow> (string \<times> string) list" where
  "header_set k v hs = (k, v) # filter (\<lambda>(k', _). k' \<noteq> k) hs"

lemma header_get_set [simp]: "header_get (header_set k v hs) k = v"
  by (simp add: header_get_def header_set_def)

lemma map_of_filter_other: "k' \<noteq> k \<Longrightarrow> map_of (filter (\<lambda>(k'', _). k'' \<noteq> k) hs) k' = map_of hs k'"
  by (induction hs) auto

lemma header_get_set_other [simp]: "k' \<noteq> k \<Longrightarrow> header_get (header_set k v hs) k' = header_get hs k'"
  by (simp add: header_get_def header_set_def map_of_filter_other)

text \<open>The segments of a clean path, as the muxes match them.\<close>

definition path_segments :: "string \<Rightarrow> string list" where
  "path_segments path = SplitByte (TrimPrefix path ''/'') CHR ''/''"

text \<open>An error response in JSON, the shape every service writes.\<close>

definition error_response :: "int \<Rightarrow> string \<Rightarrow> 'b response" where
  "error_response st msg = \<lparr>resp_status = st, resp_headers = [json_content], resp_body = ErrorBody msg\<rparr>"

definition json_response :: "int \<Rightarrow> 'b \<Rightarrow> 'b response" where
  "json_response st v = \<lparr>resp_status = st, resp_headers = [json_content], resp_body = JsonBody v\<rparr>"

lemma response_fields [simp]:
  "resp_status (error_response st msg) = st" "resp_body (error_response st msg) = ErrorBody msg"
  "resp_status (json_response st v) = st" "resp_body (json_response st v) = JsonBody v"
  by (simp_all add: error_response_def json_response_def)

end
