(* ===== verification/RateLimit.thy ===== *)
theory RateLimit
  imports Http
begin

text \<open>
  The gateway's rate limiter, \<open>gateway/ratelimit.go\<close>: a fixed window per key, counted in
  Redis with \<open>INCR\<close>, \<open>EXPIRE\<close> on the first hit, and \<open>TTL\<close> for the Retry-After value; and
  the key the handler builds from the route and the client's address.

  Redis is not in the repository: its commands are a parameter, a record of functions on an
  abstract store \<open>'r\<close>. \<open>redis_counter_laws\<close> states what its documentation says of their
  successful replies, through a view of the store as keys with a value and an optional deadline.
\<close>

section \<open>The code\<close>

record RateLimitConfig =
  Limit :: int
  WindowSecs :: int

text \<open>Replies of the three commands; \<open>None\<close> and \<open>False\<close> are errors (timeout, connection).\<close>

record 'r counter_redis =
  r_incr :: "time \<Rightarrow> string \<Rightarrow> 'r \<Rightarrow> int option \<times> 'r"
  r_expire :: "time \<Rightarrow> string \<Rightarrow> duration \<Rightarrow> 'r \<Rightarrow> bool \<times> 'r"
  r_ttl :: "time \<Rightarrow> string \<Rightarrow> 'r \<Rightarrow> duration option"

record allow_result =
  allowed_ok :: bool
  retryAfter :: int
  limiterErr :: bool

definition Allow :: "'r counter_redis \<Rightarrow> time \<Rightarrow> string \<Rightarrow> int \<Rightarrow> int \<Rightarrow> 'r \<Rightarrow> allow_result \<times> 'r" where
  "Allow R now key limit windowSecs r =
     (let fullKey = ''rl:'' @ key;
          (count, r) = r_incr R now fullKey r
      in case count of
           None \<Rightarrow> (\<lparr>allowed_ok = True, retryAfter = 0, limiterErr = True\<rparr>, r)
         | Some count \<Rightarrow>
             let (ok, r) = (if count = 1 then r_expire R now fullKey (i64 (windowSecs * second)) r
                            else (True, r))
             in if \<not> ok then (\<lparr>allowed_ok = True, retryAfter = 0, limiterErr = True\<rparr>, r)
                else if count > limit then
                  (case r_ttl R now fullKey r of
                     None \<Rightarrow> (\<lparr>allowed_ok = False, retryAfter = 0, limiterErr = False\<rparr>, r)
                   | Some ttl \<Rightarrow> (\<lparr>allowed_ok = False, retryAfter = quot ttl second, limiterErr = False\<rparr>, r))
                else (\<lparr>allowed_ok = True, retryAfter = 0, limiterErr = False\<rparr>, r))"

definition rateLimitKey :: "string \<Rightarrow> string \<Rightarrow> string" where
  "rateLimitKey routeKey ip = routeKey @ '':'' @ ip"

definition clientIP :: "http_request \<Rightarrow> string" where
  "clientIP r =
     (let forwardedFor = header_get (req_headers r) ''X-Forwarded-For'';
          ip = TrimSpace (hd (SplitByte forwardedFor CHR '',''));
          realIP = TrimSpace (header_get (req_headers r) ''X-Real-IP'')
      in if forwardedFor \<noteq> '''' \<and> ip \<noteq> '''' then ip
         else if realIP \<noteq> '''' then realIP
         else (case SplitHostPort (req_remoteAddr r) of
                 Some host \<Rightarrow> if host \<noteq> '''' then host else req_remoteAddr r
               | None \<Rightarrow> req_remoteAddr r))"

definition parseInt :: "string \<Rightarrow> int \<Rightarrow> int" where
  "parseInt s def = (case Atoi s of Some n \<Rightarrow> n | None \<Rightarrow> def)"

section \<open>What Redis promises\<close>

type_synonym counter_view = "string \<Rightarrow> (int \<times> time option) option"

definition live_entry :: "counter_view \<Rightarrow> time \<Rightarrow> string \<Rightarrow> (int \<times> time option) option" where
  "live_entry v now k =
     (case v k of
        None \<Rightarrow> None
      | Some (n, None) \<Rightarrow> Some (n, None)
      | Some (n, Some d) \<Rightarrow> if now < d then Some (n, Some d) else None)"

definition redis_counter_laws :: "'r counter_redis \<Rightarrow> ('r \<Rightarrow> counter_view) \<Rightarrow> bool" where
  "redis_counter_laws R view \<longleftrightarrow>
     (\<forall>now k r n r'. r_incr R now k r = (Some n, r') \<longrightarrow>
        (case live_entry (view r) now k of
           None \<Rightarrow> n = 1 \<and> view r' = (view r)(k \<mapsto> (1, None))
         | Some (m, d) \<Rightarrow> n = m + 1 \<and> view r' = (view r)(k \<mapsto> (m + 1, d)))) \<and>
     (\<forall>now k w r r'. r_expire R now k w r = (True, r') \<longrightarrow>
        (case live_entry (view r) now k of
           None \<Rightarrow> view r' = view r
         | Some (m, d) \<Rightarrow> view r' = (view r)(k \<mapsto> (m, Some (now + w))))) \<and>
     (\<forall>now k r m t. view r k = Some (m, None) \<longrightarrow> r_ttl R now k r = Some t \<longrightarrow> t = - 1)"

lemma incr_law:
  assumes "redis_counter_laws R view" and "r_incr R now k r = (Some n, r')"
  shows "case live_entry (view r) now k of
           None \<Rightarrow> n = 1 \<and> view r' = (view r)(k \<mapsto> (1, None))
         | Some (m, d) \<Rightarrow> n = m + 1 \<and> view r' = (view r)(k \<mapsto> (m + 1, d))"
  using assms unfolding redis_counter_laws_def by blast

lemma expire_law:
  assumes "redis_counter_laws R view" and "r_expire R now k w r = (True, r')"
  shows "case live_entry (view r) now k of
           None \<Rightarrow> view r' = view r
         | Some (m, d) \<Rightarrow> view r' = (view r)(k \<mapsto> (m, Some (now + w)))"
  using assms unfolding redis_counter_laws_def by blast

lemma ttl_law:
  "redis_counter_laws R view \<Longrightarrow> view r k = Some (m, None) \<Longrightarrow> r_ttl R now k r = Some t \<Longrightarrow> t = - 1"
  unfolding redis_counter_laws_def by blast

section \<open>One call\<close>

definition full_key :: "string \<Rightarrow> string" where
  "full_key key = ''rl:'' @ key"

lemma full_key_inj [simp]: "full_key a = full_key b \<longleftrightarrow> a = b"
  by (simp add: full_key_def)

text \<open>The abstract effect of a call without an error on the view of the store.\<close>

lemma Allow_live:
  assumes laws: "redis_counter_laws R view"
    and live: "live_entry (view r) now (full_key key) = Some (m, d)" and m: "1 \<le> m"
    and A: "Allow R now key limit w r = (a, r')" and ok: "\<not> limiterErr a"
  shows "(allowed_ok a \<longleftrightarrow> m < limit) \<and> view r' = (view r)(full_key key \<mapsto> (m + 1, d))"
proof -
  obtain c r1 where i: "r_incr R now (full_key key) r = (c, r1)" by (cases "r_incr R now (full_key key) r")
  with A ok obtain n where n: "c = Some n" by (cases c) (auto simp: Allow_def full_key_def Let_def)
  from incr_law [OF laws i [unfolded n]] live
  have v: "n = m + 1" "view r1 = (view r)(full_key key \<mapsto> (m + 1, d))" by auto
  with A ok i n m show ?thesis
    by (auto simp: Allow_def full_key_def Let_def split: option.splits if_splits)
qed

lemma Allow_fresh:
  assumes laws: "redis_counter_laws R view"
    and none: "live_entry (view r) now (full_key key) = None"
    and A: "Allow R now key limit w r = (a, r')" and ok: "\<not> limiterErr a"
  shows "(allowed_ok a \<longleftrightarrow> 1 \<le> limit)
    \<and> view r' = (view r)(full_key key \<mapsto> (1, Some (now + i64 (w * second))))"
proof -
  obtain c r1 where i: "r_incr R now (full_key key) r = (c, r1)" by (cases "r_incr R now (full_key key) r")
  with A ok obtain n where n: "c = Some n" by (cases c) (auto simp: Allow_def full_key_def Let_def)
  from incr_law [OF laws i [unfolded n]] none
  have v: "n = 1" "view r1 = (view r)(full_key key \<mapsto> (1, None))" by auto
  obtain b r2 where e: "r_expire R now (full_key key) (i64 (w * second)) r1 = (b, r2)"
    by (cases "r_expire R now (full_key key) (i64 (w * second)) r1")
  with A ok i n v have b: "b" by (auto simp: Allow_def full_key_def Let_def split: if_splits)
  have "live_entry (view r1) now (full_key key) = Some (1, None)"
    by (simp add: live_entry_def v)
  with expire_law [OF laws] e b v
  have "view r2 = (view r)(full_key key \<mapsto> (1, Some (now + i64 (w * second))))" by fastforce
  with A ok i n v e b show ?thesis
    by (auto simp: Allow_def full_key_def Let_def split: option.splits if_splits)
qed

section \<open>A sequence of calls\<close>

text \<open>Calls at given times for given keys, in the order Redis executes them.\<close>

fun allow_run :: "'r counter_redis \<Rightarrow> int \<Rightarrow> int \<Rightarrow> (time \<times> string) list \<Rightarrow> 'r \<Rightarrow> allow_result list \<times> 'r" where
  "allow_run R limit w [] r = ([], r)"
| "allow_run R limit w ((now, key) # cs) r =
     (let (a, r) = Allow R now key limit w r; (as, r) = allow_run R limit w cs r in (a # as, r))"

lemma length_allow_run: "length (fst (allow_run R limit w cs r)) = length cs"
  by (induction R limit w cs r rule: allow_run.induct) (auto split: prod.splits)

definition results_for :: "string \<Rightarrow> (time \<times> string) list \<Rightarrow> allow_result list \<Rightarrow> bool list" where
  "results_for key cs as = map (\<lambda>(c, a). allowed_ok a) (filter (\<lambda>((t, k), a). k = key) (zip cs as))"

lemma results_for_simps [simp]:
  "results_for key [] [] = []"
  "results_for key ((t, k) # cs) (a # as) =
     (if k = key then allowed_ok a # results_for key cs as else results_for key cs as)"
  by (simp_all add: results_for_def)

text \<open>The live entries with a positive count that \<open>INCR\<close> leaves.\<close>

definition counts_positive :: "counter_view \<Rightarrow> bool" where
  "counts_positive v \<longleftrightarrow> (\<forall>k n d. v k = Some (n, d) \<longrightarrow> 1 \<le> n)"

lemma live_entry_view: "live_entry v now k = Some (n, d) \<Longrightarrow> v k = Some (n, d)"
  by (auto simp: live_entry_def split: option.splits prod.splits if_splits)

lemma Allow_other_key:
  assumes laws: "redis_counter_laws R view" and pos: "counts_positive (view r)"
    and A: "Allow R now key limit w r = (a, r')" and ok: "\<not> limiterErr a"
  shows "counts_positive (view r') \<and> (\<forall>k. k \<noteq> full_key key \<longrightarrow> view r' k = view r k)"
proof (cases "live_entry (view r) now (full_key key)")
  case None
  with Allow_fresh [OF laws None A ok] pos show ?thesis by (auto simp: counts_positive_def)
next
  case (Some p)
  obtain n d where p: "p = (n, d)" by (cases p)
  have "1 \<le> n" using live_entry_view [OF Some [unfolded p]] pos by (auto simp: counts_positive_def)
  with Allow_live [OF laws Some [unfolded p] _ A ok] pos show ?thesis
    by (auto simp: counts_positive_def)
qed

text \<open>Inside one window, from a counter at \<open>n\<close>.\<close>

lemma window_run:
  assumes laws: "redis_counter_laws R view" and pos: "counts_positive (view r)"
    and entry: "view r (full_key key) = Some (n, d)"
    and times: "\<forall>(t, k) \<in> set cs. k = key \<longrightarrow> (case d of None \<Rightarrow> True | Some dl \<Rightarrow> t < dl)"
    and run: "allow_run R limit w cs r = (as, r')" and ok: "\<forall>a \<in> set as. \<not> limiterErr a"
  shows "results_for key cs as = map (\<lambda>i. n + int i < limit) [0..<length (results_for key cs as)]"
  using pos entry times run ok
proof (induction cs arbitrary: r n as)
  case (Cons c cs)
  obtain t k where c: "c = (t, k)" by (cases c)
  obtain a r1 where A: "Allow R t k limit w r = (a, r1)" by (cases "Allow R t k limit w r")
  obtain as1 r2 where B: "allow_run R limit w cs r1 = (as1, r2)" by (cases "allow_run R limit w cs r1")
  from Cons.prems c A B have as: "as = a # as1" and r2: "r2 = r'" and na: "\<not> limiterErr a"
    and nas: "\<forall>a \<in> set as1. \<not> limiterErr a" by (auto split: prod.splits)
  have tm: "\<forall>(t, k) \<in> set cs. k = key \<longrightarrow> (case d of None \<Rightarrow> True | Some dl \<Rightarrow> t < dl)"
    using Cons.prems by auto
  from Allow_other_key [OF laws Cons.prems(1) A na] have pos1: "counts_positive (view r1)"
    and oth: "\<And>k'. k' \<noteq> full_key k \<Longrightarrow> view r1 k' = view r k'" by auto
  show ?case
  proof (cases "k = key")
    case False
    then have "view r1 (full_key key) = Some (n, d)" using oth Cons.prems by simp
    from Cons.IH [OF pos1 this tm B [unfolded r2] nas] show ?thesis using c as False by simp
  next
    case True
    have "live_entry (view r) t (full_key key) = Some (n, d)"
      using Cons.prems c True by (auto simp: live_entry_def split: option.splits)
    moreover have "1 \<le> n" using Cons.prems by (auto simp: counts_positive_def)
    ultimately have al: "allowed_ok a \<longleftrightarrow> n < limit" and "view r1 (full_key key) = Some (n + 1, d)"
      using Allow_live [OF laws _ _ A na] True by auto
    from Cons.IH [OF pos1 this(2) tm B [unfolded r2] nas]
    have "results_for key cs as1 = map (\<lambda>i. n + 1 + int i < limit) [0..<length (results_for key cs as1)]" .
    with al c as True show ?thesis
      by (simp add: upt_conv_Cons comp_def add.assoc del: upt_Suc flip: map_Suc_upt)
  qed
qed auto


section \<open>Redis instances for the witnesses\<close>

text \<open>
  Redis as its documentation describes these commands, with \<open>EXPIRE\<close> failing at the instants
  in \<open>bad\<close>.
\<close>

definition map_redis :: "(time \<Rightarrow> bool) \<Rightarrow> counter_view counter_redis" where
  "map_redis bad =
     \<lparr>r_incr = (\<lambda>now k v. case live_entry v now k of
          None \<Rightarrow> (Some 1, v(k \<mapsto> (1, None)))
        | Some (m, d) \<Rightarrow> (Some (m + 1), v(k \<mapsto> (m + 1, d)))),
      r_expire = (\<lambda>now k w v. if bad now then (False, v) else (True, case live_entry v now k of
          None \<Rightarrow> v
        | Some (m, d) \<Rightarrow> v(k \<mapsto> (m, Some (now + w))))),
      r_ttl = (\<lambda>now k v. case live_entry v now k of
          None \<Rightarrow> Some (- 2)
        | Some (m, None) \<Rightarrow> Some (- 1)
        | Some (m, Some d) \<Rightarrow> Some (d - now))\<rparr>"

lemma map_redis_laws: "redis_counter_laws (map_redis bad) (\<lambda>v. v)"
  unfolding redis_counter_laws_def map_redis_def
  by (auto simp: live_entry_def split: option.splits if_splits)

section \<open>Properties\<close>

text \<open>the limiter fails open: whenever it reports an error the request is allowed, and a
  request is refused only when Redis counted it beyond the limit.\<close>

theorem Allow_fails_open:
  "case Allow R now key limit w r of (a, r') \<Rightarrow>
     (limiterErr a \<longrightarrow> allowed_ok a \<and> retryAfter a = 0) \<and>
     (\<not> allowed_ok a \<longrightarrow> (\<exists>n. fst (r_incr R now (''rl:'' @ key) r) = Some n \<and> limit < n))"
  by (auto simp: Allow_def Let_def split: option.splits prod.splits)

theorem Allow_fails_open_witness:
  "limiterErr (fst (Allow (map_redis (\<lambda>t. True)) 0 ''k'' 0 60 Map.empty))
   \<and> allowed_ok (fst (Allow (map_redis (\<lambda>t. True)) 0 ''k'' 0 60 Map.empty))"
  using Allow_fails_open [where R = "map_redis (\<lambda>t. True)" and now = 0 and key = "''k''"
      and limit = 0 and w = 60 and r = Map.empty]
  by (simp add: Allow_def map_redis_def live_entry_def Let_def)

text \<open>in a window of \<open>WindowSecs\<close> seconds that starts with a key's first request, and
  whatever requests for other keys come in between, exactly the first \<open>Limit\<close> requests of the key
  are allowed and all later ones refused.\<close>

theorem window_admits_limit:
  assumes laws: "redis_counter_laws R view" and pos: "counts_positive (view r)"
    and none: "live_entry (view r) t0 (''rl:'' @ key) = None"
    and w: "0 < w" "in_i64 (w * second)"
    and times: "\<forall>(t, k) \<in> set cs. k = key \<longrightarrow> t < t0 + w * second"
    and run: "allow_run R limit w ((t0, key) # cs) r = (as, r')"
    and ok: "\<forall>a \<in> set as. \<not> limiterErr a"
  shows "results_for key ((t0, key) # cs) as
     = map (\<lambda>i. int i < limit) [0..<length (results_for key ((t0, key) # cs) as)]"
proof -
  obtain a r1 where A: "Allow R t0 key limit w r = (a, r1)" by (cases "Allow R t0 key limit w r")
  obtain as1 r2 where B: "allow_run R limit w cs r1 = (as1, r2)" by (cases "allow_run R limit w cs r1")
  from run A B have as: "as = a # as1" "r2 = r'" by auto
  with ok have na: "\<not> limiterErr a" and nas: "\<forall>a \<in> set as1. \<not> limiterErr a" by auto
  from Allow_fresh [OF laws none [folded full_key_def] A na]
  have al: "allowed_ok a \<longleftrightarrow> 1 \<le> limit"
    and v: "view r1 (full_key key) = Some (1, Some (t0 + w * second))"
    using i64_id [OF w(2)] by auto
  from Allow_other_key [OF laws pos A na] have "counts_positive (view r1)" by simp
  from window_run [OF laws this v _ B nas] times
  have "results_for key cs as1 = map (\<lambda>i. 1 + int i < limit) [0..<length (results_for key cs as1)]"
    by auto
  with al as show ?thesis
    by (simp add: upt_conv_Cons comp_def del: upt_Suc flip: map_Suc_upt) auto
qed

theorem window_admits_limit_witness:
  "results_for ''a'' [(0, ''a''), (1, ''b''), (2, ''a''), (3, ''a'')]
     (fst (allow_run (map_redis (\<lambda>t. False)) 2 60 [(0, ''a''), (1, ''b''), (2, ''a''), (3, ''a'')] Map.empty))
   = [True, True, False]"
proof -
  let ?cs = "[(1, ''b''), (2, ''a''), (3, ''a'')]"
  obtain as r' where run: "allow_run (map_redis (\<lambda>t. False)) 2 60 ((0, ''a'') # ?cs) Map.empty = (as, r')"
    by (cases "allow_run (map_redis (\<lambda>t. False)) 2 60 ((0, ''a'') # ?cs) Map.empty")
  then have ok: "\<forall>a \<in> set as. \<not> limiterErr a" and len: "length as = 4"
    by (auto simp: Allow_def map_redis_def live_entry_def Let_def i64_def second_def)
  then obtain a b c d where as: "as = [a, b, c, d]" by (auto simp: length_Suc_conv numeral_eq_Suc)
  have "results_for ''a'' ((0, ''a'') # ?cs) as
     = map (\<lambda>i. int i < 2) [0..<length (results_for ''a'' ((0, ''a'') # ?cs) as)]"
    by (rule window_admits_limit [OF map_redis_laws _ _ _ _ _ run ok])
       (auto simp: counts_positive_def live_entry_def in_i64_def second_def)
  with run as show ?thesis by (simp add: numeral_eq_Suc)
qed

text \<open>if \<open>INCR\<close> created the counter but \<open>EXPIRE\<close> failed, the request is let through and
  the key is left without a deadline: from then on, however far apart the requests are, only
  \<open>Limit\<close> requests in total are ever allowed for that client, and all others refused forever.\<close>

theorem lost_expire_locks_out:
  assumes laws: "redis_counter_laws R view" and pos: "counts_positive (view r)"
    and first: "Allow R t0 key limit w r = (a0, r0)" "limiterErr a0"
    and state: "view r0 = (view r)(''rl:'' @ key \<mapsto> (1, None))"
    and run: "allow_run R limit w cs r0 = (as, r')"
    and ok: "\<forall>a \<in> set as. \<not> limiterErr a"
  shows "allowed_ok a0 \<and> results_for key cs as
     = map (\<lambda>i. 1 + int i < limit) [0..<length (results_for key cs as)]"
proof -
  have "allowed_ok a0" using Allow_fails_open [where R = R and now = t0 and key = key and limit = limit and w = w and r = r] first
    by simp
  moreover have "counts_positive (view r0)" and "view r0 (full_key key) = Some (1, None)"
    using pos state by (auto simp: counts_positive_def full_key_def)
  from window_run [OF laws this _ run ok]
  have "results_for key cs as = map (\<lambda>i. 1 + int i < limit) [0..<length (results_for key cs as)]"
    by auto
  ultimately show ?thesis by simp
qed

theorem lost_expire_locks_out_witness:
  "results_for ''a'' [(10 ^ 12, ''a''), (10 ^ 15, ''a'')]
     (fst (allow_run (map_redis (\<lambda>t. t = 0)) 2 60 [(10 ^ 12, ''a''), (10 ^ 15, ''a'')]
        (snd (Allow (map_redis (\<lambda>t. t = 0)) 0 ''a'' 2 60 Map.empty)))) = [True, False]"
proof -
  let ?R = "map_redis (\<lambda>t. t = 0)" and ?cs = "[(10 ^ 12, ''a''), (10 ^ 15, ''a'')]"
  let ?r0 = "[''rl:'' @ ''a'' \<mapsto> (1, None)]"
  have first: "Allow ?R 0 ''a'' 2 60 Map.empty
      = (\<lparr>allowed_ok = True, retryAfter = 0, limiterErr = True\<rparr>, ?r0)"
    by (simp add: Allow_def map_redis_def live_entry_def Let_def)
  obtain as r' where run: "allow_run ?R 2 60 ?cs ?r0 = (as, r')" by (cases "allow_run ?R 2 60 ?cs ?r0")
  then have ok: "\<forall>a \<in> set as. \<not> limiterErr a" and len: "length as = 2"
    by (auto simp: Allow_def map_redis_def live_entry_def Let_def)
  then obtain b c where as: "as = [b, c]" by (auto simp: length_Suc_conv numeral_eq_Suc)
  have "results_for ''a'' ?cs as = map (\<lambda>i. 1 + int i < 2) [0..<length (results_for ''a'' ?cs as)]"
    using lost_expire_locks_out [OF map_redis_laws _ first _ _ run ok]
    by (auto simp: counts_positive_def)
  with run as first show ?thesis by (simp add: numeral_eq_Suc)
qed

text \<open>the client address is taken from the request's own \<open>X-Forwarded-For\<close> header, so a
  client that varies the header chooses its rate-limit key: any non-empty string without commas
  and blanks becomes the key, and different strings are different keys.\<close>

theorem forwarded_header_chooses_key:
  assumes "ip \<noteq> ''''" and "\<forall>c \<in> set ip. c \<noteq> CHR '','' \<and> \<not> is_space c"
  shows "rateLimitKey route (clientIP (r\<lparr>req_headers := header_set ''X-Forwarded-For'' ip (req_headers r)\<rparr>))
    = route @ '':'' @ ip"
proof -
  have "takeWhile (\<lambda>x. x \<noteq> CHR '','') ip = ip" using assms by simp
  then have "TrimSpace (takeWhile (\<lambda>x. x \<noteq> CHR '','') ip) = ip"
    using assms by (simp only: TrimSpace_id) (simp add: TrimSpace_id)
  with assms show ?thesis
    by (simp add: rateLimitKey_def clientIP_def hd_SplitByte Let_def)
qed

definition bare_request :: "string \<Rightarrow> string \<Rightarrow> http_request" where
  "bare_request m p = \<lparr>req_method = m, req_path = p, req_scheme = '''', req_headers = [],
     req_remoteAddr = ''192.0.2.10:1234'', req_ctx = background\<rparr>"

theorem forwarded_header_chooses_key_witness:
  "clientIP (bare_request ''GET'' ''/r/a'') = ''192.0.2.10''
   \<and> rateLimitKey ''redirect'' (clientIP ((bare_request ''GET'' ''/r/a'')\<lparr>req_headers :=
       header_set ''X-Forwarded-For'' ''10.0.0.1'' []\<rparr>)) = ''redirect:10.0.0.1''"
proof
  show "clientIP (bare_request ''GET'' ''/r/a'') = ''192.0.2.10''" by code_simp
  show "rateLimitKey ''redirect'' (clientIP ((bare_request ''GET'' ''/r/a'')\<lparr>req_headers :=
       header_set ''X-Forwarded-For'' ''10.0.0.1'' []\<rparr>)) = ''redirect:10.0.0.1''"
    using forwarded_header_chooses_key [of "''10.0.0.1''" "''redirect''" "bare_request ''GET'' ''/r/a''"]
    by (simp add: is_space_def bare_request_def)
qed

end
