(* ===== verification/Router.thy ===== *)
theory Router
  imports RateLimit
begin

text \<open>
  The gateway's routing table and path rewriting: \<open>gateway/router.go\<close> (\<open>Route\<close>,
  \<open>routingTable\<close>, \<open>matchRoute\<close>) and the prefix stripping at the head of
  \<open>Handler.ServeHTTP\<close> (\<open>gateway/handler.go\<close>).
\<close>

record Route =
  Method :: string
  PathPrefix :: string
  Upstream :: string
  StripPrefix :: string
  RequiresAuth :: bool
  RateLimitKey :: string

definition routingTable :: "Route list" where
  "routingTable =
    [\<lparr>Method = ''POST'', PathPrefix = ''/api/auth/register'', Upstream = ''user-service'',
       StripPrefix = ''/api/auth'', RequiresAuth = False, RateLimitKey = ''''\<rparr>,
     \<lparr>Method = ''POST'', PathPrefix = ''/api/auth/login'', Upstream = ''user-service'',
       StripPrefix = ''/api/auth'', RequiresAuth = False, RateLimitKey = ''''\<rparr>,
     \<lparr>Method = ''GET'', PathPrefix = ''/api/me'', Upstream = ''user-service'',
       StripPrefix = ''/api'', RequiresAuth = True, RateLimitKey = ''''\<rparr>,
     \<lparr>Method = ''POST'', PathPrefix = ''/api/shorten'', Upstream = ''url-service'',
       StripPrefix = ''/api'', RequiresAuth = True, RateLimitKey = ''shorten''\<rparr>,
     \<lparr>Method = ''GET'', PathPrefix = ''/api/urls'', Upstream = ''url-service'',
       StripPrefix = ''/api'', RequiresAuth = True, RateLimitKey = ''''\<rparr>,
     \<lparr>Method = ''DELETE'', PathPrefix = ''/api/urls/'', Upstream = ''url-service'',
       StripPrefix = ''/api'', RequiresAuth = True, RateLimitKey = ''''\<rparr>,
     \<lparr>Method = ''GET'', PathPrefix = ''/r/'', Upstream = ''url-service'',
       StripPrefix = ''/r'', RequiresAuth = False, RateLimitKey = ''redirect''\<rparr>,
     \<lparr>Method = ''GET'', PathPrefix = ''/api/stats/'', Upstream = ''analytics-service'',
       StripPrefix = ''/api'', RequiresAuth = False, RateLimitKey = ''''\<rparr>,
     \<lparr>Method = ''GET'', PathPrefix = ''/api/notifications'', Upstream = ''notification-service'',
       StripPrefix = ''/api'', RequiresAuth = True, RateLimitKey = ''''\<rparr>]"

definition route_matches :: "http_request \<Rightarrow> Route \<Rightarrow> bool" where
  "route_matches r rt \<longleftrightarrow>
     (Method rt = '''' \<or> Method rt = req_method r) \<and> HasPrefix (req_path r) (PathPrefix rt)"

text \<open>The loop over the table: the first route that is not skipped and whose prefix fits.\<close>

fun match_loop :: "http_request \<Rightarrow> Route list \<Rightarrow> Route option" where
  "match_loop r [] = None"
| "match_loop r (rt # rts) =
     (if Method rt \<noteq> '''' \<and> Method rt \<noteq> req_method r then match_loop r rts
      else if HasPrefix (req_path r) (PathPrefix rt) then Some rt
      else match_loop r rts)"

definition matchRoute :: "http_request \<Rightarrow> Route option" where
  "matchRoute r = match_loop r routingTable"

definition stripped_path :: "Route \<Rightarrow> string \<Rightarrow> string" where
  "stripped_path rt path =
     (if StripPrefix rt \<noteq> '''' \<and> HasPrefix path (StripPrefix rt)
      then drop (length (StripPrefix rt)) path else path)"

section \<open>Lemmas\<close>

lemma match_loop_find: "match_loop r rts = find (route_matches r) rts"
  by (induction rts) (auto simp: route_matches_def)

lemma matchRoute_Some: "matchRoute r = Some rt \<Longrightarrow> rt \<in> set routingTable \<and> route_matches r rt"
  using find_SomeD by (fastforce simp: matchRoute_def match_loop_find)

lemma matchRoute_None: "matchRoute r = None \<longleftrightarrow> (\<forall>rt \<in> set routingTable. \<not> route_matches r rt)"
  by (simp add: matchRoute_def match_loop_find find_None_iff_all)

text \<open>Two different routes of the table never match the same request.\<close>

definition clash :: "Route \<Rightarrow> Route \<Rightarrow> bool" where
  "clash a b \<longleftrightarrow> Method a = Method b \<and>
     (HasPrefix (PathPrefix a) (PathPrefix b) \<or> HasPrefix (PathPrefix b) (PathPrefix a))"

lemma table_no_clash:
  "list_all (\<lambda>i. list_all (\<lambda>j. i = j \<or> \<not> clash (routingTable ! i) (routingTable ! j)) [0..<9]) [0..<9]"
  by code_simp

lemma table_methods: "list_all (\<lambda>rt. Method rt \<noteq> '''') routingTable"
  by (simp add: routingTable_def)

lemma length_table [simp]: "length routingTable = 9"
  by (simp add: routingTable_def)

lemma both_match_clash: "route_matches r a \<Longrightarrow> route_matches r b \<Longrightarrow> Method a \<noteq> '''' \<Longrightarrow> Method b \<noteq> ''''
   \<Longrightarrow> clash a b"
  using HasPrefix_two by (auto simp: route_matches_def clash_def)

lemma match_unique:
  assumes "i < 9" "j < 9" "route_matches r (routingTable ! i)" "route_matches r (routingTable ! j)"
  shows "i = j"
proof (rule ccontr)
  assume "i \<noteq> j"
  have "i \<in> set [0..<9]" and "j \<in> set [0..<9]" using assms(1,2) by simp_all
  with table_no_clash \<open>i \<noteq> j\<close> have "\<not> clash (routingTable ! i) (routingTable ! j)"
    unfolding list_all_iff by blast
  moreover have "Method (routingTable ! i) \<noteq> ''''" "Method (routingTable ! j) \<noteq> ''''"
    using table_methods assms(1,2) by (simp_all add: list_all_length)
  ultimately show False using both_match_clash assms by blast
qed

text \<open>routing is unambiguous: at most one entry of the table matches a request, so
  \<open>matchRoute\<close> returns an entry exactly when that entry matches, and the order of the table (and
  the loop's first-match rule) does not matter.\<close>

theorem matchRoute_unambiguous:
  assumes "rt \<in> set routingTable"
  shows "matchRoute r = Some rt \<longleftrightarrow> route_matches r rt"
proof
  assume "route_matches r rt"
  obtain i where i: "i < 9" "routingTable ! i = rt" using assms by (metis in_set_conv_nth length_table)
  from \<open>route_matches r rt\<close> assms obtain rt' where m: "matchRoute r = Some rt'"
    using matchRoute_None by (cases "matchRoute r") auto
  then obtain j where j: "j < 9" "routingTable ! j = rt'" and mj: "route_matches r rt'"
    using matchRoute_Some by (metis in_set_conv_nth length_table)
  from match_unique [of i j r] i j mj \<open>route_matches r rt\<close> have "i = j" by simp
  with i j m show "matchRoute r = Some rt" by simp
qed (use matchRoute_Some in blast)

theorem matchRoute_unambiguous_witness:
  "matchRoute (bare_request ''GET'' ''/r/abc1234'') = Some (routingTable ! 6)"
proof -
  have "routingTable ! 6 \<in> set routingTable" by (simp add: routingTable_def)
  moreover have "route_matches (bare_request ''GET'' ''/r/abc1234'') (routingTable ! 6)" by code_simp
  ultimately show ?thesis using matchRoute_unambiguous by blast
qed

text \<open>a rewritten path is always absolute: for every request the table matches, what the
  gateway forwards is the request's path without the route's prefix, and still starts with a
  slash.\<close>

theorem stripped_path_absolute:
  assumes "matchRoute r = Some rt"
  shows "\<exists>rest. req_path r = StripPrefix rt @ CHR ''/'' # rest \<and> stripped_path rt (req_path r) = CHR ''/'' # rest"
proof -
  from matchRoute_Some [OF assms] obtain t where rt: "rt \<in> set routingTable"
    and p: "req_path r = PathPrefix rt @ t" by (auto simp: route_matches_def HasPrefix_iff)
  have "list_all (\<lambda>rt. HasPrefix (PathPrefix rt) (StripPrefix rt @ ''/'') \<and> StripPrefix rt \<noteq> '''') routingTable"
    by code_simp
  with rt obtain u where u: "PathPrefix rt = (StripPrefix rt @ ''/'') @ u" and ne: "StripPrefix rt \<noteq> ''''"
    by (fastforce simp: list_all_iff HasPrefix_iff)
  from p u have "req_path r = StripPrefix rt @ CHR ''/'' # u @ t" by simp
  with ne show ?thesis by (simp add: stripped_path_def)
qed

theorem stripped_path_absolute_witness:
  "stripped_path (routingTable ! 6) ''/r/metrics'' = ''/metrics''
   \<and> (\<exists>rest. stripped_path (routingTable ! 6) ''/r/metrics'' = CHR ''/'' # rest)"
proof -
  have m: "matchRoute (bare_request ''GET'' ''/r/metrics'') = Some (routingTable ! 6)" by code_simp
  have "stripped_path (routingTable ! 6) ''/r/metrics'' = ''/metrics''" by code_simp
  with stripped_path_absolute [OF m] show ?thesis by (auto simp: bare_request_def)
qed

end
