(* ===== verification/Auth.thy ===== *)
theory Auth
  imports Http
begin

text \<open>
  Tokens: \<open>shared/auth/auth.go\<close> (\<open>VerifyToken\<close>), \<open>shared/auth/middleware.go\<close>
  (\<open>JWTMiddleware\<close>, \<open>ClaimsFromContext\<close>) and the issuer of
  \<open>services/user-service/token.go\<close>.

  The library \<open>golang-jwt\<close> is not in the repository: its \<open>Parse\<close> and \<open>SignedString\<close> are
  parameters. \<open>Parse\<close> gets the key function and answers with a token or an error; a claim that
  is a JSON number is represented by its value cut to \<open>int64\<close>, the only reading the code takes.
  \<open>jwt_laws\<close> is what its documentation says: a parsed token was signed with a method for which
  the key function gave a key, and a token signed with HS256 under that key and not yet expired
  parses back to its claims. A middleware answers \<open>Inl\<close> with its own response or \<open>Inr\<close>
  with the request it passes to \<open>next\<close>.
\<close>

section \<open>The library's types\<close>

datatype signing_method = HMAC string | OtherMethod string

datatype claim_value = CString string | CNumber int | COther

type_synonym map_claims = "(string \<times> claim_value) list"

record jwt_token =
  tok_valid :: bool
  tok_method :: signing_method
  tok_claims :: "map_claims option"

type_synonym keyfunc = "signing_method \<Rightarrow> string option"
type_synonym jwt_parse = "time \<Rightarrow> string \<Rightarrow> keyfunc \<Rightarrow> jwt_token option"
type_synonym jwt_sign = "string \<Rightarrow> map_claims \<Rightarrow> string option"

section \<open>Verification\<close>

datatype auth_error = ErrTokenInvalid

definition hmac_keyfunc :: "string \<Rightarrow> keyfunc" where
  "hmac_keyfunc secret m = (case m of HMAC alg \<Rightarrow> Some secret | OtherMethod alg \<Rightarrow> None)"

definition extractString :: "map_claims \<Rightarrow> string \<Rightarrow> string option" where
  "extractString m key =
     (case map_of m key of
        None \<Rightarrow> None
      | Some v \<Rightarrow> (case v of CString s \<Rightarrow> Some s | _ \<Rightarrow> None))"

definition extractNumber :: "map_claims \<Rightarrow> string \<Rightarrow> int option" where
  "extractNumber m key = (case map_of m key of Some (CNumber n) \<Rightarrow> Some n | _ \<Rightarrow> None)"

definition VerifyToken :: "jwt_parse \<Rightarrow> time \<Rightarrow> string \<Rightarrow> string \<Rightarrow> auth_error + Claims" where
  "VerifyToken parse now tokenString secret =
     (case parse now tokenString (hmac_keyfunc secret) of
        None \<Rightarrow> Inl ErrTokenInvalid
      | Some token \<Rightarrow>
          if \<not> tok_valid token then Inl ErrTokenInvalid
          else (case tok_claims token of
             None \<Rightarrow> Inl ErrTokenInvalid
           | Some m \<Rightarrow>
          (case extractString m ''sub'' of None \<Rightarrow> Inl ErrTokenInvalid | Some sub \<Rightarrow>
          (case extractString m ''email'' of None \<Rightarrow> Inl ErrTokenInvalid | Some email \<Rightarrow>
          (case extractString m ''iss'' of None \<Rightarrow> Inl ErrTokenInvalid | Some iss \<Rightarrow>
          (case extractNumber m ''iat'' of None \<Rightarrow> Inl ErrTokenInvalid | Some iat \<Rightarrow>
          (case extractNumber m ''exp'' of None \<Rightarrow> Inl ErrTokenInvalid | Some exp \<Rightarrow>
             if iss \<noteq> ''url-shortener'' then Inl ErrTokenInvalid
             else Inr \<lparr>Sub = sub, Email = email, Iss = iss, Iat = iat, Exp = exp\<rparr>)))))))"

text \<open>\<open>Claims.IsExpired\<close>, \<open>Claims.ExpiresAt\<close>.\<close>

definition unix_secs :: "time \<Rightarrow> int" where
  "unix_secs t = t div second"

definition IsExpired :: "time \<Rightarrow> Claims \<Rightarrow> bool" where
  "IsExpired now c \<longleftrightarrow> unix_secs now > Exp c"

definition ExpiresAt :: "Claims \<Rightarrow> time" where
  "ExpiresAt c = Exp c * second"

section \<open>The middleware\<close>

definition JWTMiddleware :: "jwt_parse \<Rightarrow> time \<Rightarrow> string \<Rightarrow> http_request \<Rightarrow> 'b response + http_request" where
  "JWTMiddleware parse now secret r =
     (let authHeader = header_get (req_headers r) ''Authorization'' in
      if authHeader = '''' then Inl (error_response 401 ''authorization header required'')
      else if \<not> HasPrefix authHeader ''Bearer '' then
        Inl (error_response 401 ''invalid authorization header format'')
      else
        let tokenString = TrimPrefix authHeader ''Bearer '' in
        if tokenString = '''' then Inl (error_response 401 ''token is required'')
        else (case VerifyToken parse now tokenString secret of
                Inl e \<Rightarrow> Inl (error_response 401 ''unauthorized'')
              | Inr claims \<Rightarrow> Inr (r\<lparr>req_ctx := (req_ctx r)\<lparr>ctx_claims := Some claims\<rparr>\<rparr>)))"

definition ClaimsFromContext :: "reqctx \<Rightarrow> Claims option" where
  "ClaimsFromContext ctx = ctx_claims ctx"

section \<open>The issuer\<close>

record jwtTokenIssuer =
  issuer_secret :: string
  issuer_ttl :: duration

definition NewTokenIssuer :: "string \<Rightarrow> duration \<Rightarrow> jwtTokenIssuer" where
  "NewTokenIssuer secret ttl = \<lparr>issuer_secret = secret, issuer_ttl = ttl\<rparr>"

definition issued_claims :: "time \<Rightarrow> time \<Rightarrow> string \<Rightarrow> string \<Rightarrow> map_claims" where
  "issued_claims now expiresAt userID email =
     [(''sub'', CString userID), (''email'', CString email), (''iss'', CString ''url-shortener''),
      (''iat'', CNumber (unix_secs now)), (''exp'', CNumber (unix_secs expiresAt))]"

definition Issue :: "jwt_sign \<Rightarrow> time \<Rightarrow> jwtTokenIssuer \<Rightarrow> string \<Rightarrow> string \<Rightarrow> (string \<times> time) option" where
  "Issue sign now i userID email =
     (let expiresAt = now + issuer_ttl i in
      case sign (issuer_secret i) (issued_claims now expiresAt userID email) of
        None \<Rightarrow> None
      | Some signedTok \<Rightarrow> Some (signedTok, expiresAt))"

definition issuer_Verify :: "jwt_parse \<Rightarrow> time \<Rightarrow> jwtTokenIssuer \<Rightarrow> string \<Rightarrow> auth_error + Claims" where
  "issuer_Verify parse now i tokenString =
     (case VerifyToken parse now tokenString (issuer_secret i) of
        Inl e \<Rightarrow> Inl ErrTokenInvalid
      | Inr c \<Rightarrow> Inr c)"

section \<open>What the library promises\<close>

definition jwt_laws :: "jwt_parse \<Rightarrow> jwt_sign \<Rightarrow> bool" where
  "jwt_laws parse sign \<longleftrightarrow>
     (\<forall>now s kf t. parse now s kf = Some t \<longrightarrow> kf (tok_method t) \<noteq> None) \<and>
     (\<forall>now key c s kf e. sign key c = Some s \<longrightarrow> kf (HMAC ''HS256'') = Some key \<longrightarrow>
        map_of c ''exp'' = Some (CNumber e) \<longrightarrow> now < e * second \<longrightarrow>
        parse now s kf = Some \<lparr>tok_valid = True, tok_method = HMAC ''HS256'', tok_claims = Some c\<rparr>)"

lemma jwt_laws_sound: "jwt_laws parse sign \<Longrightarrow> parse now s kf = Some t \<Longrightarrow> kf (tok_method t) \<noteq> None"
  unfolding jwt_laws_def by blast

lemma jwt_laws_parse:
  "jwt_laws parse sign \<Longrightarrow> sign key c = Some s \<Longrightarrow> kf (HMAC ''HS256'') = Some key \<Longrightarrow>
     map_of c ''exp'' = Some (CNumber e) \<Longrightarrow> now < e * second \<Longrightarrow>
     parse now s kf = Some \<lparr>tok_valid = True, tok_method = HMAC ''HS256'', tok_claims = Some c\<rparr>"
  unfolding jwt_laws_def by blast

lemma VerifyToken_Inr:
  assumes "VerifyToken parse now s secret = Inr c"
  shows "\<exists>t m. parse now s (hmac_keyfunc secret) = Some t \<and> tok_valid t \<and> tok_claims t = Some m
    \<and> extractString m ''sub'' = Some (Sub c) \<and> extractString m ''email'' = Some (Email c)
    \<and> extractString m ''iss'' = Some ''url-shortener'' \<and> Iss c = ''url-shortener''
    \<and> extractNumber m ''iat'' = Some (Iat c) \<and> extractNumber m ''exp'' = Some (Exp c)"
  using assms by (auto simp: VerifyToken_def split: option.splits if_splits)

section \<open>Properties\<close>

text \<open>An instance of the library for the witnesses: the token text is the secret followed by the
  three string claims, and the parser knows one signed token.\<close>

definition demo_claims :: map_claims where
  "demo_claims = issued_claims (1000 * second) (87400 * second) ''user-1'' ''u@example.com''"

definition demo_sign :: jwt_sign where
  "demo_sign key c = (if key = ''k'' \<and> c = demo_claims then Some ''tok'' else None)"

definition demo_parse :: jwt_parse where
  "demo_parse now s kf =
     (if s = ''tok'' \<and> kf (HMAC ''HS256'') = Some ''k'' \<and> now < 87400 * second
      then Some \<lparr>tok_valid = True, tok_method = HMAC ''HS256'', tok_claims = Some demo_claims\<rparr>
      else None)"

lemma demo_laws: "jwt_laws demo_parse demo_sign"
  by (auto simp: jwt_laws_def demo_parse_def demo_sign_def demo_claims_def issued_claims_def
      unix_secs_def second_def split: if_splits)

text \<open>only tokens signed with an HMAC method get past \<open>VerifyToken\<close> (so neither \<open>none\<close>
  nor a public-key algorithm is accepted with the shared secret), and accepted claims name the
  issuer \<open>url-shortener\<close>.\<close>

theorem VerifyToken_only_hmac:
  assumes "jwt_laws parse sign" and "VerifyToken parse now s secret = Inr c"
  shows "Iss c = ''url-shortener'' \<and>
    (\<exists>t alg. parse now s (hmac_keyfunc secret) = Some t \<and> tok_valid t \<and> tok_method t = HMAC alg)"
proof -
  obtain t m where t: "parse now s (hmac_keyfunc secret) = Some t" "tok_valid t" "Iss c = ''url-shortener''"
    using VerifyToken_Inr [OF assms(2)] by blast
  with jwt_laws_sound [OF assms(1) t(1)] show ?thesis
    by (cases "tok_method t") (auto simp: hmac_keyfunc_def)
qed

theorem VerifyToken_only_hmac_witness:
  "Iss (projr (VerifyToken demo_parse (2000 * second) ''tok'' ''k'')) = ''url-shortener''"
proof -
  have "VerifyToken demo_parse (2000 * second) ''tok'' ''k''
      = Inr \<lparr>Sub = ''user-1'', Email = ''u@example.com'', Iss = ''url-shortener'', Iat = 1000, Exp = 87400\<rparr>"
    by (simp add: VerifyToken_def demo_parse_def hmac_keyfunc_def demo_claims_def issued_claims_def
        extractString_def extractNumber_def unix_secs_def second_def)
  with VerifyToken_only_hmac [OF demo_laws this] show ?thesis by simp
qed

text \<open>issue and verify round trip: a token issued by user-service verifies, until it expires,
  in every service that shares the secret, and gives back the user id, the email and the issue and
  expiry times in seconds.\<close>

theorem Issue_Verify:
  assumes "jwt_laws parse sign" and "Issue sign now i userID email = Some (tok, expiresAt)"
    and "later < unix_secs expiresAt * second"
  shows "VerifyToken parse later tok (issuer_secret i) =
    Inr \<lparr>Sub = userID, Email = email, Iss = ''url-shortener'', Iat = unix_secs now,
         Exp = unix_secs (now + issuer_ttl i)\<rparr>"
proof -
  let ?c = "issued_claims now (now + issuer_ttl i) userID email"
  from assms(2) have s: "sign (issuer_secret i) ?c = Some tok" and e: "expiresAt = now + issuer_ttl i"
    by (auto simp: Issue_def Let_def split: option.splits)
  have "parse later tok (hmac_keyfunc (issuer_secret i))
      = Some \<lparr>tok_valid = True, tok_method = HMAC ''HS256'', tok_claims = Some ?c\<rparr>"
    using assms(3) e
    by (intro jwt_laws_parse [OF assms(1) s, where e = "unix_secs expiresAt"])
       (auto simp: hmac_keyfunc_def issued_claims_def)
  then show ?thesis
    by (simp add: VerifyToken_def issued_claims_def extractString_def extractNumber_def)
qed

theorem Issue_Verify_witness:
  "Issue demo_sign (1000 * second) (NewTokenIssuer ''k'' (86400 * second)) ''user-1'' ''u@example.com''
     = Some (''tok'', 87400 * second)
   \<and> Sub (projr (VerifyToken demo_parse (2000 * second) ''tok'' ''k'')) = ''user-1''"
proof -
  have i: "Issue demo_sign (1000 * second) (NewTokenIssuer ''k'' (86400 * second)) ''user-1'' ''u@example.com''
     = Some (''tok'', 87400 * second)"
    by (simp add: Issue_def demo_sign_def demo_claims_def NewTokenIssuer_def Let_def second_def)
  with Issue_Verify [OF demo_laws i, of "2000 * second"] show ?thesis
    by (simp add: NewTokenIssuer_def unix_secs_def second_def)
qed

text \<open>the service-side middleware passes a request on exactly when its header is \<open>Bearer\<close>
  followed by a non-empty token that verifies, and the handler then sees the verified claims;
  every other request is answered 401.\<close>

theorem JWTMiddleware_gate:
  "case JWTMiddleware parse now secret r of
     Inr r' \<Rightarrow> (\<exists>tok c. header_get (req_headers r) ''Authorization'' = ''Bearer '' @ tok \<and> tok \<noteq> '''' \<and>
        VerifyToken parse now tok secret = Inr c \<and> ClaimsFromContext (req_ctx r') = Some c \<and>
        r' = r\<lparr>req_ctx := (req_ctx r)\<lparr>ctx_claims := Some c\<rparr>\<rparr>)
   | Inl resp \<Rightarrow> resp_status resp = 401 \<and>
       (\<forall>tok c. header_get (req_headers r) ''Authorization'' = ''Bearer '' @ tok \<longrightarrow> tok \<noteq> '''' \<longrightarrow>
          VerifyToken parse now tok secret \<noteq> Inr c)"
proof (cases "HasPrefix (header_get (req_headers r) ''Authorization'') ''Bearer ''")
  case True
  then obtain tok where "header_get (req_headers r) ''Authorization'' = ''Bearer '' @ tok"
    unfolding HasPrefix_iff by blast
  then show ?thesis using TrimPrefix_append [of "''Bearer ''" tok] HasPrefix_append [of "''Bearer ''" tok]
    by (auto simp: JWTMiddleware_def ClaimsFromContext_def Let_def split: sum.splits if_splits)
next
  case False
  then have "header_get (req_headers r) ''Authorization'' \<noteq> ''Bearer '' @ tok" for tok
    by (metis HasPrefix_append)
  with False show ?thesis by (auto simp: JWTMiddleware_def Let_def)
qed

theorem JWTMiddleware_gate_witness:
  "\<forall>r'. JWTMiddleware demo_parse (2000 * second) ''k'' \<lparr>req_method = ''GET'', req_path = ''/urls'',
      req_scheme = '''', req_headers = [(''Authorization'', ''Bearer tok'')], req_remoteAddr = ''a:1'',
      req_ctx = background\<rparr> \<noteq> (Inl r' :: unit response + http_request)"
proof
  fix r' :: "unit response"
  let ?r = "\<lparr>req_method = ''GET'', req_path = ''/urls'', req_scheme = '''',
      req_headers = [(''Authorization'', ''Bearer tok'')], req_remoteAddr = ''a:1'', req_ctx = background\<rparr>"
  have v: "VerifyToken demo_parse (2000 * second) ''tok'' ''k''
      = Inr \<lparr>Sub = ''user-1'', Email = ''u@example.com'', Iss = ''url-shortener'', Iat = 1000, Exp = 87400\<rparr>"
    by (simp add: VerifyToken_def demo_parse_def hmac_keyfunc_def demo_claims_def issued_claims_def
        extractString_def extractNumber_def unix_secs_def second_def)
  show "JWTMiddleware demo_parse (2000 * second) ''k'' ?r \<noteq> Inl r'"
  proof
    assume a: "JWTMiddleware demo_parse (2000 * second) ''k'' ?r = Inl r'"
    have h: "header_get (req_headers ?r) ''Authorization'' = ''Bearer '' @ ''tok''"
      by (simp add: header_get_def)
    from JWTMiddleware_gate [where parse = demo_parse and now = "2000 * second" and secret = "''k''"
        and r = ?r and ?'a = unit, unfolded a] h v
    show False by fastforce
  qed
qed

end
