(* ===== verification/Logger.thy ===== *)
theory Logger
  imports Http
begin

text \<open>
  \<open>shared/logger/logger.go\<close>: the loggers that the processes create, the correlation id in contexts and
  on lines, and the middleware that logs a line for each request, with the wrapper around the
  response writer that remembers the status. Printing is left out: a line is a value.
\<close>

section \<open>Lines\<close>

datatype log_level = LevelInfo | LevelWarn | LevelError

record log_line =
  log_level :: log_level
  log_correlation :: "string option"
  log_method :: string
  log_path :: string
  log_status :: int

text \<open>The correlation id in a context, and the attribute it adds to a line.\<close>

definition ContextWithCorrelationID :: "reqctx \<Rightarrow> string \<Rightarrow> reqctx" where
  [simp]: "ContextWithCorrelationID ctx correlationID = ctx\<lparr>ctx_correlationID := Some correlationID\<rparr>"

definition CorrelationIDFromContext :: "reqctx \<Rightarrow> string" where
  "CorrelationIDFromContext ctx = (case ctx_correlationID ctx of None \<Rightarrow> '''' | Some c \<Rightarrow> c)"

definition WithCorrelationID :: "string \<Rightarrow> string option" where
  "WithCorrelationID correlationID = (if correlationID = '''' then None else Some correlationID)"

definition RequestLogger :: "reqctx \<Rightarrow> http_request \<Rightarrow> int \<Rightarrow> log_line" where
  "RequestLogger outer_ctx r status =
     (let cid = CorrelationIDFromContext outer_ctx;
          cid = (if cid = '''' then header_get (req_headers r) ''X-Correlation-ID'' else cid)
      in \<lparr>log_level = (if status \<ge> 500 then LevelError else if status \<ge> 400 then LevelWarn else LevelInfo),
          log_correlation = WithCorrelationID cid,
          log_method = req_method r, log_path = req_path r, log_status = status\<rparr>)"

section \<open>Loggers\<close>

text \<open>A logger is the attributes it puts on every line; lines below \<open>Info\<close> are dropped, and the program writes none.\<close>

record logger =
  lg_attrs :: "(string \<times> string) list"

definition New :: "string \<Rightarrow> logger" where
  "New serviceName = \<lparr>lg_attrs = [(''service'', serviceName)]\<rparr>"

text \<open>The attributes of the line that \<open>RequestLogger\<close> writes with \<open>log\<close>.\<close>

definition line_attrs :: "logger \<Rightarrow> log_line \<Rightarrow> duration \<Rightarrow> (string \<times> string) list" where
  "line_attrs log l took =
     lg_attrs log
     @ (case log_correlation l of None \<Rightarrow> [] | Some cid \<Rightarrow> [(''correlation_id'', cid)])
     @ [(''method'', log_method l), (''path'', log_path l), (''status'', Itoa (log_status l)),
        (''duration_ms'', Itoa (quot took millisecond))]"

section \<open>The status of a response\<close>

text \<open>What a handler does with its writer.\<close>

datatype writing = WriteHeader int | WriteBody string

record responseRecorder =
  rec_status :: int
  rec_passed :: "writing list"

fun record_write :: "writing \<Rightarrow> responseRecorder \<Rightarrow> responseRecorder" where
  "record_write (WriteHeader status) w = w\<lparr>rec_status := status, rec_passed := rec_passed w @ [WriteHeader status]\<rparr>"
| "record_write (WriteBody s) w = w\<lparr>rec_passed := rec_passed w @ [WriteBody s]\<rparr>"

definition recorded :: "writing list \<Rightarrow> responseRecorder" where
  "recorded ws = fold record_write ws \<lparr>rec_status = 200, rec_passed = []\<rparr>"

text \<open>What \<open>net/http\<close> sends: informational headers come before the one that counts, later ones are
  ignored, and a body without a header is a 200.\<close>

definition informational :: "int \<Rightarrow> bool" where
  "informational status \<longleftrightarrow> 100 \<le> status \<and> status \<le> 199 \<and> status \<noteq> 101"

fun sent_status :: "writing list \<Rightarrow> int" where
  "sent_status [] = 200"
| "sent_status (WriteBody s # ws) = 200"
| "sent_status (WriteHeader status # ws) = (if informational status then sent_status ws else status)"

lemma fold_record_write:
  "fold record_write ws w = \<lparr>rec_status = fold (\<lambda>x s. case x of WriteHeader t \<Rightarrow> t | WriteBody _ \<Rightarrow> s) ws (rec_status w),
     rec_passed = rec_passed w @ ws\<rparr>"
proof (induction ws arbitrary: w)
  case (Cons x ws)
  then show ?case by (cases x) simp_all
qed simp

lemma recorded_passes: "rec_passed (recorded ws) = ws"
  by (simp add: recorded_def fold_record_write)

lemma recorded_bodies:
  "rec_status (recorded (ws @ map WriteBody bs)) = rec_status (recorded ws)"
proof -
  have "fold (\<lambda>x s. case x of WriteHeader t \<Rightarrow> t | WriteBody _ \<Rightarrow> s) (map WriteBody bs) s = s" for s :: int
    by (induction bs arbitrary: s) simp_all
  then show ?thesis by (simp add: recorded_def fold_record_write)
qed

text \<open>A handler that writes any informational headers, one header that counts and then a body, or a body
  only, is logged with the status that the client gets. A second header is logged but not sent.\<close>

lemma recorded_status_is_sent:
  assumes "\<forall>i \<in> set infos. informational i" and "\<not> informational status"
  shows "rec_status (recorded (map WriteHeader infos @ WriteHeader status # map WriteBody bs))
      = sent_status (map WriteHeader infos @ WriteHeader status # map WriteBody bs)"
    and "rec_status (recorded (map WriteBody bs)) = sent_status (map WriteBody bs)"
    and "rec_status (recorded [WriteHeader status, WriteHeader later]) = later"
    and "sent_status [WriteHeader status, WriteHeader later] = status"
proof -
  have s: "sent_status (map WriteHeader infos @ WriteHeader status # ws) = status" for ws
    using assms by (induction infos) simp_all
  have "rec_status (recorded ((map WriteHeader infos @ [WriteHeader status]) @ map WriteBody bs)) = status"
    unfolding recorded_bodies by (simp add: recorded_def fold_record_write)
  with s show "rec_status (recorded (map WriteHeader infos @ WriteHeader status # map WriteBody bs))
      = sent_status (map WriteHeader infos @ WriteHeader status # map WriteBody bs)" by simp
  show "rec_status (recorded (map WriteBody bs)) = sent_status (map WriteBody bs)"
    using recorded_bodies [of "[]" bs] by (cases bs) (simp_all add: recorded_def)
qed (use assms in \<open>simp_all add: recorded_def\<close>)

end
