(* ===== verification/Gateway.thy ===== *)
theory Gateway
  imports Router Auth CircuitBreaker Logger "HOL-Library.Word"
begin

text \<open>
  The gateway's request path: \<open>gateway/proxy.go\<close>, \<open>handler.go\<close>, \<open>jwtmiddleware.go\<close>,
  \<open>middleware.go\<close>, \<open>metrics.go\<close>, \<open>errors.go\<close> and the composition in \<open>main.go\<close>.

  The network behind \<open>httputil.ReverseProxy\<close> is a parameter: a function from the outgoing
  request to what the round trip gives (a response, an error handed to \<open>ErrorHandler\<close>, or a
  response whose body copy fails, on which the reverse proxy panics). The rate limiter is the Go
  interface \<open>rateLimiter\<close>, a function on its own state \<open>'r\<close>. \<open>url.Parse\<close> of a configured
  base URL is a parameter that gives scheme and host.
\<close>

section \<open>Metrics\<close>

record gw_metrics =
  cbState :: "string \<Rightarrow> int"
  cbTripsTotal :: "string \<Rightarrow> nat"
  cbRejectedTotal :: "string \<Rightarrow> nat"
  requestsTotal :: "string \<times> string \<Rightarrow> nat"
  requestDuration :: "string \<Rightarrow> duration list"

definition no_metrics :: gw_metrics where
  "no_metrics = \<lparr>cbState = (\<lambda>_. 0), cbTripsTotal = (\<lambda>_. 0), cbRejectedTotal = (\<lambda>_. 0),
     requestsTotal = (\<lambda>_. 0), requestDuration = (\<lambda>_. [])\<rparr>"

definition recordCBState :: "string \<Rightarrow> State \<Rightarrow> gw_metrics \<Rightarrow> gw_metrics" where
  "recordCBState service s m = m\<lparr>cbState := (cbState m)(service := state_code s)\<rparr>"

definition recordCBTrip :: "string \<Rightarrow> gw_metrics \<Rightarrow> gw_metrics" where
  "recordCBTrip service m = m\<lparr>cbTripsTotal := (cbTripsTotal m)(service := Suc (cbTripsTotal m service))\<rparr>"

definition recordCBRejected :: "string \<Rightarrow> gw_metrics \<Rightarrow> gw_metrics" where
  "recordCBRejected service m =
     m\<lparr>cbRejectedTotal := (cbRejectedTotal m)(service := Suc (cbRejectedTotal m service))\<rparr>"

definition incRequests :: "string \<Rightarrow> string \<Rightarrow> gw_metrics \<Rightarrow> gw_metrics" where
  "incRequests service cls m =
     m\<lparr>requestsTotal := (requestsTotal m)((service, cls) := Suc (requestsTotal m (service, cls)))\<rparr>"

definition recordUpstreamMetrics :: "string \<Rightarrow> int \<Rightarrow> duration \<Rightarrow> gw_metrics \<Rightarrow> gw_metrics" where
  "recordUpstreamMetrics upstream status elapsed m =
     (let status = (if status \<le> 0 then 502 else status);
          cls = Itoa (quot status 100) @ ''xx'';
          m = incRequests upstream cls m
      in m\<lparr>requestDuration := (requestDuration m)(upstream := requestDuration m upstream @ [elapsed])\<rparr>)"

text \<open>The callback that \<open>main\<close> attaches to the breaker.\<close>

fun on_transitions :: "transition list \<Rightarrow> gw_metrics \<Rightarrow> gw_metrics" where
  "on_transitions [] m = m"
| "on_transitions ((from, to) # tr) m =
     (let m = recordCBState ''url-service'' to m;
          m = (if to = StateOpen then recordCBTrip ''url-service'' m else m)
      in on_transitions tr m)"

section \<open>The proxy\<close>

record out_request =
  out_method :: string
  out_scheme :: string
  out_host :: string
  out_path :: string
  out_headers :: "(string \<times> string) list"

datatype 'b proxy_event =
    RoundTrip "'b response"
  | RoundTripError string
  | BodyCopyFailed "'b response"

type_synonym 'b transport = "out_request \<Rightarrow> 'b proxy_event"
type_synonym url_parser = "string \<Rightarrow> (string \<times> string) option"

definition SetUpstreamPath :: "reqctx \<Rightarrow> string \<Rightarrow> reqctx" where
  "SetUpstreamPath ctx path = ctx\<lparr>ctx_upstreamPath := Some path\<rparr>"

definition upstreamPath :: "http_request \<Rightarrow> string" where
  "upstreamPath r = (case ctx_upstreamPath (req_ctx r) of Some s \<Rightarrow> s | None \<Rightarrow> req_path r)"

text \<open>The \<open>Director\<close> of \<open>doProxy\<close>, on the copy of the request it is given.\<close>

definition director :: "url_parser \<Rightarrow> string \<Rightarrow> http_request \<Rightarrow> out_request" where
  "director parse baseURL r =
     (let (scheme, host) = (case parse baseURL of
            None \<Rightarrow> (''http'', baseURL)
          | Some (s, h) \<Rightarrow> if h = '''' then (''http'', baseURL) else (s, h));
          xff = header_get (req_headers r) ''X-Forwarded-For'';
          xff = (if xff \<noteq> '''' then xff @ '', '' else xff);
          client = (case SplitHostPort (req_remoteAddr r) of Some h \<Rightarrow> h | None \<Rightarrow> '''');
          client = (if client = '''' then req_remoteAddr r else client)
      in \<lparr>out_method = req_method r, out_scheme = scheme, out_host = host, out_path = upstreamPath r,
          out_headers =
            header_set ''X-Real-IP'' client
              (header_set ''X-Forwarded-Proto'' (req_scheme r)
                (header_set ''X-Forwarded-For'' (xff @ req_remoteAddr r) (req_headers r)))\<rparr>)"

text \<open>
  \<open>ReverseProxy\<close> with the director and the error handler of \<open>doProxy\<close>: the status the
  recorder saw, the error the handler kept, and what was written. \<open>ProxyPanicked\<close> is the panic
  with \<open>http.ErrAbortHandler\<close>.
\<close>

datatype 'b proxied = Proxied int "string option" "'b response" | ProxyPanicked "'b response"

definition text_response :: "int \<Rightarrow> string \<Rightarrow> 'b response" where
  "text_response st msg = \<lparr>resp_status = st,
     resp_headers = [(''Content-Type'', ''text/plain; charset=utf-8'')], resp_body = TextBody msg\<rparr>"

definition doProxy :: "'b transport \<Rightarrow> url_parser \<Rightarrow> http_request \<Rightarrow> string \<Rightarrow> 'b proxied" where
  "doProxy transport parse r baseURL =
     (case transport (director parse baseURL r) of
        RoundTrip resp \<Rightarrow> Proxied (resp_status resp) None resp
      | RoundTripError e \<Rightarrow> Proxied 502 (Some e) (text_response 502 ''bad gateway'')
      | BodyCopyFailed resp \<Rightarrow> ProxyPanicked resp)"

definition ServeHTTPStatus :: "'b transport \<Rightarrow> url_parser \<Rightarrow> (string \<times> string) list \<Rightarrow> http_request
    \<Rightarrow> string \<Rightarrow> 'b proxied" where
  "ServeHTTPStatus transport parse upstreams r upstreamName =
     (case map_of upstreams upstreamName of
        None \<Rightarrow> Proxied 502 (Some (''upstream '' @ [CHR 0x22] @ upstreamName @ [CHR 0x22] @ '' not found''))
                  (text_response 502 ''upstream not found'')
      | Some baseURL \<Rightarrow> doProxy transport parse r baseURL)"

section \<open>The handler\<close>

text \<open>\<open>formatInt\<close>, with its loop.\<close>

function format_loop :: "int \<Rightarrow> string \<Rightarrow> string" where
  "format_loop n s = (if n > 0 then format_loop (n div 10) (digit_char (n mod 10) # s) else s)"
  by pat_completeness auto
termination
  by (relation "measure (\<lambda>(n, s). nat n)") auto

declare format_loop.simps [simp del]

definition formatInt :: "int \<Rightarrow> string" where
  "formatInt n = (if n = 0 then ''0'' else format_loop n '''')"

text \<open>The configuration the handler reads.\<close>

record gw_config =
  ShortenRateLimit :: RateLimitConfig
  RedirectRateLimit :: RateLimitConfig

type_synonym 'r limiter = "string \<Rightarrow> int \<Rightarrow> int \<Rightarrow> 'r \<Rightarrow> allow_result \<times> 'r"

record ('r, 'b) gw_handler =
  h_transport :: "'b transport"
  h_url_parse :: url_parser
  h_upstreams :: "(string \<times> string) list"
  h_cfg :: gw_config
  h_rateLimiter :: "'r limiter option"

record 'r gw_state =
  gw_limiter :: 'r
  gw_breaker :: "CircuitBreaker option"
  gw_metrics :: gw_metrics

text \<open>The clock readings of one request and whether its context is done when \<open>Do\<close> looks.\<close>

record gw_env =
  env_start :: time
  env_end :: time
  env_ctx_done :: bool

definition checkRateLimit :: "('r, 'b) gw_handler \<Rightarrow> http_request \<Rightarrow> string \<Rightarrow> 'r \<Rightarrow> allow_result \<times> 'r" where
  "checkRateLimit h r key st =
     (case h_rateLimiter h of
        None \<Rightarrow> (\<lparr>allowed_ok = True, retryAfter = 0, limiterErr = False\<rparr>, st)
      | Some allow \<Rightarrow>
          let cfg = (if key = ''shorten'' then ShortenRateLimit (h_cfg h) else RedirectRateLimit (h_cfg h))
          in allow (rateLimitKey key (clientIP r)) (Limit cfg) (WindowSecs cfg) st)"

text \<open>What \<open>net/http\<close> sends when a handler returns without writing.\<close>

definition implicit_ok :: "'b response" where
  "implicit_ok = \<lparr>resp_status = 200, resp_headers = [], resp_body = NoBody\<rparr>"

definition too_many_requests :: "int \<Rightarrow> 'b response" where
  "too_many_requests n = (error_response 429 ''rate limit exceeded'')
     \<lparr>resp_headers := [(''Retry-After'', formatInt n), json_content]\<rparr>"

text \<open>The function that \<open>ServeHTTP\<close> hands to \<open>Do\<close>.\<close>

definition proxy_call :: "('r, 'b) gw_handler \<Rightarrow> gw_env \<Rightarrow> http_request \<Rightarrow> string
    \<Rightarrow> gw_metrics \<times> 'b response option \<Rightarrow> string upcall \<times> gw_metrics \<times> 'b response option" where
  "proxy_call h env r upstream s =
     (case ServeHTTPStatus (h_transport h) (h_url_parse h) (h_upstreams h) r upstream of
        ProxyPanicked resp \<Rightarrow> (UpPanic, fst s, Some resp)
      | Proxied status err resp \<Rightarrow>
          let m = recordUpstreamMetrics upstream status (env_end env - env_start env) (fst s) in
          (case err of
             Some e \<Rightarrow> (UpErr e, m, Some resp)
           | None \<Rightarrow> if status \<ge> 500 then (UpErr (''upstream returned '' @ Itoa status), m, Some resp)
                     else (UpNil, m, Some resp)))"

definition proxy_through_breaker :: "('r, 'b) gw_handler \<Rightarrow> gw_env \<Rightarrow> http_request \<Rightarrow> string
    \<Rightarrow> CircuitBreaker \<Rightarrow> 'r gw_state \<Rightarrow> 'b response go \<times> 'r gw_state" where
  "proxy_through_breaker h env r upstream cb st =
     (let (res, cb, (m, resp), tr) =
            cb_Do (env_start env) (env_ctx_done env) (proxy_call h env r upstream) (env_end env) cb
              (gw_metrics st, None);
          m = on_transitions tr m;
          st = st\<lparr>gw_breaker := Some cb\<rparr>;
          written = (case resp of None \<Rightarrow> implicit_ok | Some resp \<Rightarrow> resp)
      in case res of
           DoCircuitOpen \<Rightarrow>
             (Ret (error_response 503 ''url-service unavailable''),
              st\<lparr>gw_metrics := incRequests upstream ''circuit_open'' (recordCBRejected upstream m)\<rparr>)
         | DoPanic \<Rightarrow> (Panic, st\<lparr>gw_metrics := m\<rparr>)
         | _ \<Rightarrow> (Ret written, st\<lparr>gw_metrics := m\<rparr>))"

definition proxy_directly :: "('r, 'b) gw_handler \<Rightarrow> gw_env \<Rightarrow> http_request \<Rightarrow> string
    \<Rightarrow> 'r gw_state \<Rightarrow> 'b response go \<times> 'r gw_state" where
  "proxy_directly h env r upstream st =
     (case ServeHTTPStatus (h_transport h) (h_url_parse h) (h_upstreams h) r upstream of
        ProxyPanicked resp \<Rightarrow> (Panic, st)
      | Proxied status err resp \<Rightarrow>
          (Ret resp, st\<lparr>gw_metrics := recordUpstreamMetrics upstream status
                          (env_end env - env_start env) (gw_metrics st)\<rparr>))"

definition forward :: "('r, 'b) gw_handler \<Rightarrow> gw_env \<Rightarrow> http_request \<Rightarrow> Route \<Rightarrow> 'r gw_state
    \<Rightarrow> 'b response go \<times> 'r gw_state" where
  "forward h env r route st =
     (let newReq = r\<lparr>req_ctx := SetUpstreamPath (req_ctx r) (stripped_path route (req_path r))\<rparr> in
      case gw_breaker st of
        Some cb \<Rightarrow>
          if Upstream route = ''url-service'' then proxy_through_breaker h env newReq (Upstream route) cb st
          else proxy_directly h env newReq (Upstream route) st
      | None \<Rightarrow> proxy_directly h env newReq (Upstream route) st)"

definition gw_ServeHTTP :: "('r, 'b) gw_handler \<Rightarrow> gw_env \<Rightarrow> http_request \<Rightarrow> 'r gw_state
    \<Rightarrow> 'b response go \<times> 'r gw_state" where
  "gw_ServeHTTP h env r st =
     (case matchRoute r of
        None \<Rightarrow> (Ret (error_response 404 ''not found''), st)
      | Some route \<Rightarrow>
          if RateLimitKey route \<noteq> '''' then
            (let (a, l) = checkRateLimit h r (RateLimitKey route) (gw_limiter st);
                 st = st\<lparr>gw_limiter := l\<rparr>
             in if \<not> limiterErr a \<and> \<not> allowed_ok a
                then (Ret (too_many_requests (retryAfter a)), st)
                else forward h env r route st)
          else forward h env r route st)"

section \<open>The middlewares\<close>

definition gw_jwtMiddleware :: "jwt_parse \<Rightarrow> time \<Rightarrow> string \<Rightarrow> http_request \<Rightarrow> 'b response + http_request" where
  "gw_jwtMiddleware parse now secret r =
     (case matchRoute r of
        None \<Rightarrow> Inr r
      | Some route \<Rightarrow>
          if \<not> RequiresAuth route then Inr r
          else
            let authHeader = header_get (req_headers r) ''Authorization'' in
            if authHeader = '''' \<or> \<not> HasPrefix authHeader ''Bearer '' then
              Inl (error_response 401 ''unauthorized'')
            else (case VerifyToken parse now (TrimPrefix authHeader ''Bearer '') secret of
                    Inl e \<Rightarrow> Inl (error_response 401 ''unauthorized'')
                  | Inr claims \<Rightarrow> Inr (r\<lparr>req_ctx := (req_ctx r)\<lparr>ctx_claims := Some claims\<rparr>\<rparr>)))"

text \<open>The last handler of the mux: authentication, then the gateway's handler.\<close>

definition gw_protected :: "jwt_parse \<Rightarrow> string \<Rightarrow> ('r, 'b) gw_handler \<Rightarrow> gw_env \<Rightarrow> http_request
    \<Rightarrow> 'r gw_state \<Rightarrow> 'b response go \<times> 'r gw_state" where
  "gw_protected parse secret h env r st =
     (case gw_jwtMiddleware parse (env_start env) secret r of
        Inl resp \<Rightarrow> (Ret resp, st)
      | Inr r \<Rightarrow> gw_ServeHTTP h env r st)"

definition newCorrelationID :: "8 word list option \<Rightarrow> string" where
  "newCorrelationID r = (case r of None \<Rightarrow> ''unknown'' | Some b \<Rightarrow> hex_encode b)"

definition correlationIDHeader :: string where
  "correlationIDHeader = ''X-Correlation-ID''"

text \<open>
  The request that \<open>next\<close> gets (its header map is shared with the caller's request, which
  therefore sees the header too) and the response header that is set.
\<close>

definition correlationIDMiddleware :: "8 word list option \<Rightarrow> http_request \<Rightarrow> http_request \<times> (string \<times> string)" where
  "correlationIDMiddleware rnd r =
     (let cid = header_get (req_headers r) correlationIDHeader;
          (cid, r) = (if cid = '''' then
              let cid = newCorrelationID rnd
              in (cid, r\<lparr>req_headers := header_set correlationIDHeader cid (req_headers r)\<rparr>)
            else (cid, r))
      in (r\<lparr>req_ctx := ContextWithCorrelationID (req_ctx r) cid\<rparr>, (correlationIDHeader, cid)))"

definition cors_headers :: "(string \<times> string) list" where
  "cors_headers =
     [(''Access-Control-Allow-Origin'', ''*''),
      (''Access-Control-Allow-Methods'', ''GET, POST, PUT, DELETE, OPTIONS, PATCH, HEAD''),
      (''Access-Control-Allow-Headers'', ''Content-Type, Authorization, X-Correlation-ID''),
      (''Access-Control-Expose-Headers'', ''X-Correlation-ID, Retry-After'')]"

definition corsMiddleware :: "http_request \<Rightarrow> 'b response option" where
  "corsMiddleware r =
     (if req_method r = ''OPTIONS''
      then Some \<lparr>resp_status = 204, resp_headers = cors_headers, resp_body = NoBody\<rparr> else None)"

text \<open>
  The gateway as \<open>main\<close> composes it: CORS, request logging, correlation id, and the mux with
  the health and metrics endpoints and everything else behind authentication. The mux's redirect
  of unclean paths is left out; \<open>ops\<close> is the body of the two operational endpoints.
\<close>

definition gw_mux :: "jwt_parse \<Rightarrow> string \<Rightarrow> ('r, 'b) gw_handler \<Rightarrow> (string \<Rightarrow> 'b response) \<Rightarrow> gw_env
    \<Rightarrow> http_request \<Rightarrow> 'r gw_state \<Rightarrow> 'b response go \<times> 'r gw_state" where
  "gw_mux parse secret h ops env r st =
     (if req_method r \<in> {''GET'', ''HEAD''} \<and> req_path r \<in> {''/health'', ''/metrics''}
      then (Ret (ops (req_path r)), st)
      else gw_protected parse secret h env r st)"

definition gw_app :: "jwt_parse \<Rightarrow> string \<Rightarrow> ('r, 'b) gw_handler \<Rightarrow> (string \<Rightarrow> 'b response) \<Rightarrow> gw_env
    \<Rightarrow> 8 word list option \<Rightarrow> http_request \<Rightarrow> 'r gw_state
    \<Rightarrow> 'b response go \<times> log_line option \<times> 'r gw_state" where
  "gw_app parse secret h ops env rnd r st =
     (case corsMiddleware r of
        Some resp \<Rightarrow> (Ret resp, None, st)
      | None \<Rightarrow>
          let (r', hdr) = correlationIDMiddleware rnd r;
              (res, st) = gw_mux parse secret h ops env r' st
          in case res of
               Panic \<Rightarrow> (Panic, None, st)
             | Ret resp \<Rightarrow>
                 (Ret (resp\<lparr>resp_headers := cors_headers @ hdr # resp_headers resp\<rparr>),
                  Some (RequestLogger (req_ctx r) r' (resp_status resp)), st))"

end
