(* ===== verification/GatewayProps.thy ===== *)
theory GatewayProps
  imports Gateway
begin

text \<open>
  The gateway's guarantees on a whole request: what is needed to reach an upstream, what a
  refused request leaves unchanged, how the breaker and the limiter act on the response, and
  what the correlation id connects.
\<close>

section \<open>Lemmas\<close>

lemma format_loop_dec: "0 < n \<Longrightarrow> format_loop n s = dec_digits n @ s"
proof (induction n s rule: format_loop.induct)
  case (1 n s)
  show ?case
  proof (cases "n < 10")
    case True
    then have "n div 10 = 0" and "n mod 10 = n" using "1.prems" by auto
    then show ?thesis using "1.prems" True
      by (subst format_loop.simps, subst format_loop.simps) (simp add: dec_digits.simps [of n])
  next
    case False
    then have "0 < n div 10" by auto
    with "1.IH" [OF "1.prems" this] "1.prems" False show ?thesis
      by (subst format_loop.simps) (simp add: dec_digits.simps [of n])
  qed
qed

lemma digit_char_0: "digit_char 0 = CHR ''0''"
  by code_simp

lemma dec_digits_0: "dec_digits 0 = ''0''"
  by (simp add: dec_digits.simps [of 0] digit_char_0)

lemma forward_limiter: "gw_limiter (snd (forward h env r route st)) = gw_limiter st"
  by (auto simp: forward_def proxy_through_breaker_def proxy_directly_def Let_def
      split: option.splits proxied.splits do_result.splits prod.splits)

lemma jwt_gate_cases:
  assumes "matchRoute r = Some rt" and "RequiresAuth rt"
  shows "(\<exists>resp :: 'b response. gw_jwtMiddleware parse now secret r = Inl resp \<and> resp_status resp = 401) \<or>
    (\<exists>tok c. header_get (req_headers r) ''Authorization'' = ''Bearer '' @ tok \<and>
       VerifyToken parse now tok secret = Inr c \<and>
       (gw_jwtMiddleware parse now secret r :: 'b response + http_request)
         = Inr (r\<lparr>req_ctx := (req_ctx r)\<lparr>ctx_claims := Some c\<rparr>\<rparr>))"
proof (cases "HasPrefix (header_get (req_headers r) ''Authorization'') ''Bearer ''")
  case True
  then obtain tok where "header_get (req_headers r) ''Authorization'' = ''Bearer '' @ tok"
    unfolding HasPrefix_iff by blast
  then show ?thesis using assms TrimPrefix_append [of "''Bearer ''" tok] HasPrefix_append [of "''Bearer ''" tok]
    by (cases "VerifyToken parse now tok secret") (auto simp: gw_jwtMiddleware_def Let_def)
qed (use assms in \<open>auto simp: gw_jwtMiddleware_def Let_def\<close>)

section \<open>Properties\<close>

text \<open>C10: a route that requires authentication is closed without a valid token: unless the
  Authorization header is \<open>Bearer\<close> followed by a token that verifies, the answer is 401 and
  nothing else happened (no rate-limit count, no upstream call, no change of the breaker or of the
  metrics).\<close>

theorem protected_routes_need_token:
  fixes h :: "('r, 'b) gw_handler"
  assumes "matchRoute r = Some rt" and "RequiresAuth rt"
    and "\<forall>tok c. header_get (req_headers r) ''Authorization'' = ''Bearer '' @ tok \<longrightarrow>
           VerifyToken parse (env_start env) tok secret \<noteq> Inr c"
  shows "\<exists>resp. gw_protected parse secret h env r st = (Ret resp, st) \<and> resp_status resp = 401"
  using jwt_gate_cases [OF assms(1,2), where ?'b = 'b, of parse "env_start env" secret] assms(3)
  by (fastforce simp: gw_protected_def)

definition gw_demo_env :: gw_env where
  "gw_demo_env = \<lparr>env_start = 0, env_end = 5, env_ctx_done = False\<rparr>"

definition demo_handler :: "string proxy_event \<Rightarrow> (nat, string) gw_handler" where
  "demo_handler ev = \<lparr>h_transport = (\<lambda>_. ev), h_url_parse = (\<lambda>u. Some (''http'', ''up:8080'')),
     h_upstreams = [(''url-service'', ''http://up:8080''), (''user-service'', ''http://up:8080'')],
     h_cfg = \<lparr>ShortenRateLimit = \<lparr>Limit = 10, WindowSecs = 60\<rparr>,
              RedirectRateLimit = \<lparr>Limit = 300, WindowSecs = 60\<rparr>\<rparr>,
     h_rateLimiter = Some (\<lambda>key limit w n. (\<lparr>allowed_ok = int n < limit, retryAfter = 42, limiterErr = False\<rparr>, Suc n))\<rparr>"

definition demo_state :: "nat gw_state" where
  "demo_state = \<lparr>gw_limiter = 0,
     gw_breaker = Some (WithStateChange (NewCircuitBreaker 0 5 (30 * second) (10 * second))),
     gw_metrics = no_metrics\<rparr>"

definition ok_response :: "string response" where
  "ok_response = json_response 200 ''ok''"

theorem protected_routes_need_token_witness:
  "\<exists>resp. gw_protected demo_parse ''k'' (demo_handler (RoundTrip ok_response)) gw_demo_env
      (bare_request ''GET'' ''/api/me'') demo_state = (Ret resp, demo_state) \<and> resp_status resp = 401"
proof (rule protected_routes_need_token)
  show "matchRoute (bare_request ''GET'' ''/api/me'') = Some (routingTable ! 2)" by code_simp
  show "RequiresAuth (routingTable ! 2)" by code_simp
qed (simp add: bare_request_def header_get_def)

text \<open>a rate-limited request is stopped before the upstream: when the limiter refuses without
  an error, the answer is 429 with the Retry-After it gave, and neither breaker nor metrics change;
  when the limiter reports an error, the request is forwarded as if there were no limit.\<close>

theorem rate_limit_decides:
  assumes "matchRoute r = Some rt" and "RateLimitKey rt \<noteq> ''''"
    and "checkRateLimit h r (RateLimitKey rt) (gw_limiter st) = (a, l)"
  shows "gw_ServeHTTP h env r st =
    (if \<not> limiterErr a \<and> \<not> allowed_ok a
     then (Ret (too_many_requests (retryAfter a)), st\<lparr>gw_limiter := l\<rparr>)
     else forward h env r rt (st\<lparr>gw_limiter := l\<rparr>))"
  using assms by (simp add: gw_ServeHTTP_def)

theorem rate_limit_decides_witness:
  "fst (gw_ServeHTTP (demo_handler (RoundTrip ok_response)) gw_demo_env (bare_request ''POST'' ''/api/shorten'')
      (demo_state\<lparr>gw_limiter := 10\<rparr>)) = Ret (too_many_requests 42)"
proof -
  have m: "matchRoute (bare_request ''POST'' ''/api/shorten'') = Some (routingTable ! 3)"
    and k: "RateLimitKey (routingTable ! 3) \<noteq> ''''" by code_simp+
  have "checkRateLimit (demo_handler (RoundTrip ok_response)) (bare_request ''POST'' ''/api/shorten'')
      (RateLimitKey (routingTable ! 3)) (gw_limiter (demo_state\<lparr>gw_limiter := 10\<rparr>))
      = (\<lparr>allowed_ok = False, retryAfter = 42, limiterErr = False\<rparr>, 11)"
    by (simp add: checkRateLimit_def demo_handler_def routingTable_def)
  from rate_limit_decides [OF m k this, of gw_demo_env] show ?thesis by simp
qed

text \<open>\<open>formatInt\<close> is decimal rendering for every non-negative number, so that a Retry-After
  value the limiter gives reads back as the same number; for a negative number it is empty.\<close>

theorem formatInt_correct:
  "formatInt n = (if n < 0 then '''' else Itoa n) \<and>
   (0 \<le> n \<and> in_i64 n \<longrightarrow> Atoi (formatInt n) = Some n)"
proof -
  have "formatInt n = (if n < 0 then '''' else Itoa n)"
  proof (cases "n = 0")
    case False
    then show ?thesis using format_loop_dec [of n "''''"]
      by (auto simp: formatInt_def Itoa_def format_loop.simps [of n])
  qed (simp add: formatInt_def Itoa_def dec_digits_0)
  then show ?thesis using Atoi_dec_digits [of n] by (auto simp: Itoa_def)
qed

theorem formatInt_correct_witness: "formatInt 42 = ''42'' \<and> Atoi (formatInt 42) = Some 42"
proof
  show "formatInt 42 = ''42''" by code_simp
  show "Atoi (formatInt 42) = Some 42" using formatInt_correct [of 42] by (auto simp: in_i64_def)
qed

text \<open>the breaker protects the URL service only: a request whose route goes to another
  upstream gets the same response whatever the breaker's state, and leaves the breaker as it was.\<close>

theorem other_upstreams_ignore_breaker:
  assumes "matchRoute r = Some rt" and "Upstream rt \<noteq> ''url-service''"
  shows "fst (gw_ServeHTTP h env r (st\<lparr>gw_breaker := b\<rparr>)) = fst (gw_ServeHTTP h env r st)
    \<and> gw_breaker (snd (gw_ServeHTTP h env r st)) = gw_breaker st"
  using assms
  by (auto simp: gw_ServeHTTP_def forward_def proxy_directly_def Let_def
      split: option.splits proxied.splits prod.splits)

theorem other_upstreams_ignore_breaker_witness:
  "gw_breaker (snd (gw_ServeHTTP (demo_handler (RoundTripError ''refused'')) gw_demo_env
     (bare_request ''POST'' ''/api/auth/login'') demo_state)) = gw_breaker demo_state"
proof -
  have m: "matchRoute (bare_request ''POST'' ''/api/auth/login'') = Some (routingTable ! 1)"
    and u: "Upstream (routingTable ! 1) \<noteq> ''url-service''" by code_simp+
  from other_upstreams_ignore_breaker [OF m u] show ?thesis by blast
qed

lemma rejected_503:
  assumes "Upstream rt = ''url-service''" and "gw_breaker st = Some cb" and "\<not> fst (cb_admit (env_start env) cb)"
  shows "forward h env r rt st =
    (Ret (error_response 503 ''url-service unavailable''),
     st\<lparr>gw_metrics := incRequests ''url-service'' ''circuit_open''
          (recordCBRejected ''url-service'' (gw_metrics st))\<rparr>)"
  using assms cb_admit_reject_id [OF assms(3)]
  by (simp add: forward_def proxy_through_breaker_def cb_Do_def)

text \<open>with the breaker rejecting, a request for the URL service is answered 503 without an
  upstream call: the response and the state do not depend on the network at all, the breaker is
  unchanged, and the rejection is counted.\<close>

theorem rejected_without_upstream:
  assumes "Upstream rt = ''url-service''" and "gw_breaker st = Some cb"
    and "\<not> fst (cb_admit (env_start env) cb)"
  shows "forward h env r rt st =
    (Ret (error_response 503 ''url-service unavailable''),
     st\<lparr>gw_metrics := incRequests ''url-service'' ''circuit_open''
          (recordCBRejected ''url-service'' (gw_metrics st))\<rparr>)"
  by (rule rejected_503 [OF assms])

definition open_state :: "nat gw_state" where
  "open_state = demo_state\<lparr>gw_breaker := Some ((WithStateChange (NewCircuitBreaker 0 5 (30 * second)
     (10 * second)))\<lparr>cb_state := StateOpen, lastFailureTime := 0\<rparr>)\<rparr>"

theorem rejected_without_upstream_witness:
  "fst (forward (demo_handler (RoundTrip ok_response)) gw_demo_env (bare_request ''GET'' ''/r/x'')
     (routingTable ! 6) open_state) = Ret (error_response 503 ''url-service unavailable'')"
proof -
  have u: "Upstream (routingTable ! 6) = ''url-service''" by code_simp
  let ?cb = "(WithStateChange (NewCircuitBreaker 0 5 (30 * second) (10 * second)))
     \<lparr>cb_state := StateOpen, lastFailureTime := 0\<rparr>"
  have b: "gw_breaker open_state = Some ?cb" by (simp add: open_state_def)
  have a: "\<not> fst (cb_admit (env_start gw_demo_env) ?cb)"
    by (simp add: cb_admit_def WithStateChange_def NewCircuitBreaker_def gw_demo_env_def second_def)
  from rejected_without_upstream [OF u b a, where r = "bare_request ''GET'' ''/r/x''"
      and h = "demo_handler (RoundTrip ok_response)"] show ?thesis by simp
qed

text \<open>the redirect prefix reaches the URL service's operational endpoints: without any token,
  \<open>GET /r/metrics\<close> is forwarded to the URL service as \<open>GET /metrics\<close> (and is only rate-limited
  like a redirect).\<close>

theorem redirect_prefix_exposes_metrics:
  "gw_protected parse secret h env (bare_request ''GET'' ''/r/metrics'') st
     = gw_ServeHTTP h env (bare_request ''GET'' ''/r/metrics'') st
   \<and> matchRoute (bare_request ''GET'' ''/r/metrics'') = Some (routingTable ! 6)
   \<and> out_path (director p base ((bare_request ''GET'' ''/r/metrics'')\<lparr>req_ctx :=
        SetUpstreamPath background (stripped_path (routingTable ! 6) ''/r/metrics'')\<rparr>)) = ''/metrics''"
proof -
  have m: "matchRoute (bare_request ''GET'' ''/r/metrics'') = Some (routingTable ! 6)" by code_simp
  have a: "\<not> RequiresAuth (routingTable ! 6)" by code_simp
  have s: "stripped_path (routingTable ! 6) ''/r/metrics'' = ''/metrics''" by code_simp
  show ?thesis using m a s
    by (simp add: gw_protected_def gw_jwtMiddleware_def director_def upstreamPath_def SetUpstreamPath_def
        Let_def split: option.splits prod.splits)
qed

text \<open>every answered request (other than a CORS preflight) carries one correlation id: the
  response header, the id the handlers see in the context, the header forwarded upstream and the
  log line are all the client's id, or the fresh one when the client sent none.\<close>

theorem correlation_id_is_one:
  assumes "req_method r \<noteq> ''OPTIONS''" and "ctx_correlationID (req_ctx r) = None"
    and "newCorrelationID rnd \<noteq> ''''"
    and "gw_app parse secret h ops env rnd r st = (Ret resp, log, st')"
  shows "let cid = (if header_get (req_headers r) ''X-Correlation-ID'' = '''' then newCorrelationID rnd
                    else header_get (req_headers r) ''X-Correlation-ID'');
             r' = fst (correlationIDMiddleware rnd r)
    in header_get (resp_headers resp) ''X-Correlation-ID'' = cid
       \<and> header_get (out_headers (director p base r')) ''X-Correlation-ID'' = cid
       \<and> ctx_correlationID (req_ctx r') = Some cid
       \<and> (\<exists>l. log = Some l \<and> log_correlation l = Some cid)"
  using assms
  by (auto simp: gw_app_def corsMiddleware_def correlationIDMiddleware_def correlationIDHeader_def
      RequestLogger_def CorrelationIDFromContext_def WithCorrelationID_def director_def cors_headers_def Let_def header_get_def [of "_ # _"]
      split: go.splits prod.splits if_splits)

theorem correlation_id_is_one_witness:
  "\<exists>resp log st'. gw_app demo_parse ''k'' (demo_handler (RoundTrip ok_response)) (\<lambda>_. ok_response)
       gw_demo_env (Some [1, 255]) (bare_request ''GET'' ''/health'') demo_state = (Ret resp, log, st')
     \<and> header_get (resp_headers resp) ''X-Correlation-ID'' = ''01ff''"
proof -
  have n: "newCorrelationID (Some [1, 255]) = ''01ff''"
    by (simp add: newCorrelationID_def hex_encode_def hex_digit_def)
  obtain resp log st' where g: "gw_app demo_parse ''k'' (demo_handler (RoundTrip ok_response)) (\<lambda>_. ok_response)
       gw_demo_env (Some [1, 255]) (bare_request ''GET'' ''/health'') demo_state = (Ret resp, log, st')"
    by (simp add: gw_app_def corsMiddleware_def bare_request_def correlationIDMiddleware_def gw_mux_def Let_def
        header_get_def [of "[]"])
  have "header_get (resp_headers resp) ''X-Correlation-ID'' = ''01ff''"
    using correlation_id_is_one [OF _ _ _ g] n
    by (auto simp: bare_request_def background_def Let_def header_get_def)
  with g show ?thesis by blast
qed

end
