(* ===== verification/GatewayLimit.thy ===== *)
theory GatewayLimit
  imports GatewayProps
begin

text \<open>
  The limiter inside the gateway: the last handler of the mux (\<open>jwtMiddleware\<close>, then
  \<open>Handler.ServeHTTP\<close>) run on a sequence of requests of any clients, with the Redis limiter of
  \<open>ratelimit.go\<close> behind its interface.
\<close>

section \<open>Runs\<close>

text \<open>The handler at the instant of a request: the Redis client reads its store then.\<close>

definition gw_at :: "'r counter_redis \<Rightarrow> ('r, 'b) gw_handler \<Rightarrow> gw_env \<Rightarrow> ('r, 'b) gw_handler" where
  "gw_at R h env = h\<lparr>h_rateLimiter := Some (Allow R (env_start env))\<rparr>"

record ('r, 'b) gw_obs =
  obs_env :: gw_env
  obs_req :: http_request
  obs_before :: "'r gw_state"
  obs_reply :: "'b response go"
  obs_after :: "'r gw_state"

fun gw_run :: "jwt_parse \<Rightarrow> string \<Rightarrow> 'r counter_redis \<Rightarrow> ('r, 'b) gw_handler
    \<Rightarrow> (gw_env \<times> http_request) list \<Rightarrow> 'r gw_state \<Rightarrow> ('r, 'b) gw_obs list" where
  "gw_run parse secret R h [] st = []"
| "gw_run parse secret R h ((env, r) # rs) st =
     (let (x, st') = gw_protected parse secret (gw_at R h env) env r st
      in \<lparr>obs_env = env, obs_req = r, obs_before = st, obs_reply = x, obs_after = st'\<rparr>
           # gw_run parse secret R h rs st')"

text \<open>
  The counter that a request is counted on, route key and client address: none for a route without
  a limit, for an unknown path, and for a request that the authentication stops.
\<close>

definition limited_key :: "jwt_parse \<Rightarrow> string \<Rightarrow> gw_env \<Rightarrow> http_request \<Rightarrow> (string \<times> string) option" where
  "limited_key parse secret env r =
     (case matchRoute r of
        None \<Rightarrow> None
      | Some rt \<Rightarrow>
          if RateLimitKey rt = '''' then None
          else case gw_jwtMiddleware parse (env_start env) secret r :: unit response + http_request of
                 Inl _ \<Rightarrow> None
               | Inr _ \<Rightarrow> Some (RateLimitKey rt, clientIP r))"

abbreviation obs_key :: "jwt_parse \<Rightarrow> string \<Rightarrow> ('r, 'b) gw_obs \<Rightarrow> (string \<times> string) option" where
  "obs_key parse secret ob \<equiv> limited_key parse secret (obs_env ob) (obs_req ob)"

definition limit_of :: "('r, 'b) gw_handler \<Rightarrow> string \<Rightarrow> RateLimitConfig" where
  "limit_of h rk = (if rk = ''shorten'' then ShortenRateLimit (h_cfg h) else RedirectRateLimit (h_cfg h))"

text \<open>What becomes of a request: it is handed on as if there were no limiter, or answered 429.\<close>

definition handed_on :: "jwt_parse \<Rightarrow> string \<Rightarrow> ('r, 'b) gw_handler \<Rightarrow> ('r, 'b) gw_obs \<Rightarrow> bool" where
  "handed_on parse secret h ob \<longleftrightarrow>
     (obs_reply ob, obs_after ob)
       = gw_protected parse secret (h\<lparr>h_rateLimiter := None\<rparr>) (obs_env ob) (obs_req ob)
           ((obs_before ob)\<lparr>gw_limiter := gw_limiter (obs_after ob)\<rparr>)"

definition turned_away :: "('r, 'b) gw_obs \<Rightarrow> bool" where
  "turned_away ob \<longleftrightarrow> (\<exists>n. obs_reply ob = Ret (too_many_requests n))
     \<and> gw_breaker (obs_after ob) = gw_breaker (obs_before ob)
     \<and> gw_metrics (obs_after ob) = gw_metrics (obs_before ob)"

text \<open>Redis answers every command.\<close>

definition redis_up :: "'r counter_redis \<Rightarrow> bool" where
  "redis_up R \<longleftrightarrow> (\<forall>now k r. fst (r_incr R now k r) \<noteq> None) \<and> (\<forall>now k w r. fst (r_expire R now k w r))"

section \<open>One request\<close>

lemma Allow_no_error:
  assumes "redis_up R" and "Allow R now key limit w r = (a, r')"
  shows "\<not> limiterErr a"
proof -
  from assms(1) obtain n r1 where i: "r_incr R now (''rl:'' @ key) r = (Some n, r1)"
    unfolding redis_up_def by (metis not_None_eq prod.collapse)
  from assms(1) obtain r2 where "r_expire R now (''rl:'' @ key) (i64 (w * second)) r1 = (True, r2)"
    unfolding redis_up_def by (metis prod.collapse)
  with i assms(2) show ?thesis
    by (auto simp: Allow_def Let_def split: option.splits if_splits)
qed

lemma route_keys:
  assumes "matchRoute r = Some rt" and "RateLimitKey rt \<noteq> ''''"
  shows "RateLimitKey rt \<in> {''shorten'', ''redirect''}"
proof -
  have "rt \<in> set routingTable"
    using matchRoute_Some [OF assms(1)] by simp
  with assms(2) show ?thesis by (auto simp: routingTable_def)
qed

lemma limited_keys: "limited_key parse secret env r = Some (rk, ip) \<Longrightarrow> rk \<in> {''shorten'', ''redirect''}"
  using route_keys [of r] by (auto simp: limited_key_def split: option.splits if_splits sum.splits)

lemma rate_keys_differ:
  assumes "rk \<in> {''shorten'', ''redirect''}" and "rk' \<in> {''shorten'', ''redirect''}"
  shows "rateLimitKey rk ip = rateLimitKey rk' ip' \<longleftrightarrow> (rk, ip) = (rk', ip')"
  using assms by (auto simp: rateLimitKey_def)

text \<open>The body type of the 401 answer does not matter.\<close>

lemma jwt_any_body:
  "(\<exists>resp :: 'b response. gw_jwtMiddleware parse now secret r = Inl resp)
     \<longleftrightarrow> (\<exists>resp :: unit response. gw_jwtMiddleware parse now secret r = Inl resp)"
  by (auto simp: gw_jwtMiddleware_def Let_def split: option.splits sum.splits)

lemma jwt_Inr:
  assumes "(gw_jwtMiddleware parse now secret r :: 'b response + http_request) = Inr r'"
  shows "\<exists>c. r' = r\<lparr>req_ctx := c\<rparr>"
proof -
  have "\<exists>c. r = r\<lparr>req_ctx := c\<rparr>" by (rule exI [of _ "req_ctx r"]) simp
  with assms show ?thesis
    unfolding gw_jwtMiddleware_def Let_def by (auto split: option.splits sum.splits if_splits)
qed

lemma match_loop_ctx: "match_loop (r\<lparr>req_ctx := c\<rparr>) rts = match_loop r rts"
  by (induction rts) auto

lemma jwt_passes:
  assumes "(gw_jwtMiddleware parse now secret r :: 'b response + http_request) = Inr r'"
  shows "matchRoute r' = matchRoute r" and "clientIP r' = clientIP r"
  using jwt_Inr [OF assms] by (auto simp: matchRoute_def match_loop_ctx clientIP_def Let_def split: option.split)

lemma limited_keyE:
  assumes "limited_key parse secret env r = Some (rk, ip)"
  obtains rt r' where "(gw_jwtMiddleware parse (env_start env) secret r :: 'b response + http_request) = Inr r'"
    and "matchRoute r' = Some rt" and "RateLimitKey rt = rk" and "rk \<noteq> ''''" and "clientIP r' = ip"
proof -
  obtain rt where m: "matchRoute r = Some rt" "RateLimitKey rt = rk" "rk \<noteq> ''''" "clientIP r = ip"
    and no: "\<nexists>e :: unit response. gw_jwtMiddleware parse (env_start env) secret r = Inl e"
    using assms by (auto simp: limited_key_def split: option.splits if_splits sum.splits)
  then obtain r' where "(gw_jwtMiddleware parse (env_start env) secret r :: 'b response + http_request) = Inr r'"
    using jwt_any_body [where ?'b = 'b, of parse "env_start env" secret r]
    by (cases "gw_jwtMiddleware parse (env_start env) secret r :: 'b response + http_request") auto
  from that [OF this] jwt_passes [OF this] m show thesis by simp
qed

text \<open>A request without a counter does not touch the store; one with a counter makes one call.\<close>

lemma step_without_counter:
  assumes "limited_key parse secret env r = None"
  shows "gw_limiter (snd (gw_protected parse secret h env r st)) = gw_limiter st"
proof (cases "gw_jwtMiddleware parse (env_start env) secret r :: 'b response + http_request")
  case (Inr r')
  then have "\<nexists>e :: unit response. gw_jwtMiddleware parse (env_start env) secret r = Inl e"
    using jwt_any_body [where ?'b = 'b, of parse "env_start env" secret r] by simp
  then obtain q where "(gw_jwtMiddleware parse (env_start env) secret r :: unit response + http_request) = Inr q"
    by (cases "gw_jwtMiddleware parse (env_start env) secret r :: unit response + http_request") auto
  with assms have "\<forall>rt. matchRoute r = Some rt \<longrightarrow> RateLimitKey rt = ''''"
    by (auto simp: limited_key_def split: if_splits)
  with Inr jwt_passes [OF Inr] show ?thesis
    by (auto simp: gw_protected_def gw_ServeHTTP_def forward_limiter split: option.split)
qed (simp add: gw_protected_def)

lemma proxy_no_limiter:
  "proxy_call (h\<lparr>h_rateLimiter := l\<rparr>) = proxy_call h"
  "proxy_directly (h\<lparr>h_rateLimiter := l\<rparr>) = proxy_directly h"
  by (simp_all add: fun_eq_iff proxy_directly_def proxy_call_def)

lemma forward_no_limiter: "forward (h\<lparr>h_rateLimiter := l\<rparr>) env r rt st = forward h env r rt st"
proof -
  have "proxy_through_breaker (h\<lparr>h_rateLimiter := l\<rparr>) = proxy_through_breaker h"
    by (simp add: fun_eq_iff proxy_through_breaker_def proxy_no_limiter)
  then show ?thesis by (simp only: forward_def proxy_no_limiter)
qed

lemma step_with_counter:
  fixes h :: "('r, 'b) gw_handler"
  assumes up: "redis_up R" and key: "limited_key parse secret env r = Some (rk, ip)"
    and A: "Allow R (env_start env) (rateLimitKey rk ip) (Limit (limit_of h rk))
              (WindowSecs (limit_of h rk)) (gw_limiter st) = (a, l)"
    and step: "gw_protected parse secret (gw_at R h env) env r st = (x, st')"
  shows "gw_limiter st' = l \<and>
    (if allowed_ok a
     then handed_on parse secret h \<lparr>obs_env = env, obs_req = r, obs_before = st, obs_reply = x, obs_after = st'\<rparr>
     else turned_away \<lparr>obs_env = env, obs_req = r, obs_before = st, obs_reply = x, obs_after = st'\<rparr>)"
proof -
  obtain rt r' where j: "(gw_jwtMiddleware parse (env_start env) secret r :: 'b response + http_request) = Inr r'"
    and m: "matchRoute r' = Some rt" "RateLimitKey rt = rk" "rk \<noteq> ''''" and c: "clientIP r' = ip"
    using key by (rule limited_keyE [where ?'b = 'b])
  have "checkRateLimit (gw_at R h env) r' rk (gw_limiter st) = (a, l)"
    using A c by (cases "rk = ''shorten''") (simp_all add: checkRateLimit_def gw_at_def limit_of_def)
  with j m Allow_no_error [OF up A] step
  have s: "(x, st') = (if allowed_ok a then forward h env r' rt (st\<lparr>gw_limiter := l\<rparr>)
                       else (Ret (too_many_requests (retryAfter a)), st\<lparr>gw_limiter := l\<rparr>))"
    by (auto simp: gw_protected_def gw_ServeHTTP_def gw_at_def forward_no_limiter Let_def split: if_splits)
  have l: "gw_limiter st' = l"
    using forward_limiter [of h env r' rt "st\<lparr>gw_limiter := l\<rparr>"]
      arg_cong [OF s, of snd] by (cases "allowed_ok a") simp_all
  show ?thesis
  proof (cases "allowed_ok a")
    case True
    with s l j m show ?thesis
      by (simp add: handed_on_def gw_protected_def gw_ServeHTTP_def checkRateLimit_def forward_no_limiter)
  next
    case False
    with s show ?thesis by (auto simp: turned_away_def)
  qed
qed

section \<open>Inside a window\<close>

text \<open>The fate of every request counted on \<open>K\<close>, the counter being at \<open>n\<close>.\<close>

definition fate :: "jwt_parse \<Rightarrow> string \<Rightarrow> ('r, 'b) gw_handler \<Rightarrow> int \<Rightarrow> ('r, 'b) gw_obs \<Rightarrow> bool" where
  "fate parse secret h n ob =
     (case obs_key parse secret ob of
        None \<Rightarrow> True
      | Some K \<Rightarrow> if n < Limit (limit_of h (fst K)) then handed_on parse secret h ob else turned_away ob)"

abbreviation "counted parse secret K obs \<equiv> filter (\<lambda>ob. obs_key parse secret ob = Some K) obs"

lemma gw_window_run:
  fixes h :: "('r, 'b) gw_handler"
  assumes laws: "redis_counter_laws R view" and up: "redis_up R"
    and K: "K = (rk, ip)" "rk \<in> {''shorten'', ''redirect''}"
    and pos: "counts_positive (view (gw_limiter st))"
    and entry: "view (gw_limiter st) (full_key (rateLimitKey rk ip)) = Some (n, Some d)"
    and times: "\<forall>(env, r) \<in> set rs. limited_key parse secret env r = Some K \<longrightarrow> env_start env < d"
  shows "\<forall>i < length (counted parse secret K (gw_run parse secret R h rs st)).
    fate parse secret h (n + int i) (counted parse secret K (gw_run parse secret R h rs st) ! i)"
  using pos entry times
proof (induction rs arbitrary: st n)
  case (Cons q rs)
  obtain env r where q: "q = (env, r)" by (cases q)
  obtain x st' where step: "gw_protected parse secret (gw_at R h env) env r st = (x, st')"
    by (cases "gw_protected parse secret (gw_at R h env) env r st")
  let ?ob = "\<lparr>obs_env = env, obs_req = r, obs_before = st, obs_reply = x, obs_after = st'\<rparr>"
  have run: "gw_run parse secret R h (q # rs) st = ?ob # gw_run parse secret R h rs st'"
    using q step by simp
  have tm: "\<forall>(env, r) \<in> set rs. limited_key parse secret env r = Some K \<longrightarrow> env_start env < d"
    using Cons.prems by auto
  show ?case
  proof (cases "limited_key parse secret env r")
    case None
    with step_without_counter [OF None, where h = "gw_at R h env" and st = st] step Cons.IH [OF _ _ tm, of st'] Cons.prems
    show ?thesis unfolding run by simp
  next
    case (Some K')
    obtain rk' ip' where K': "K' = (rk', ip')" by (cases K')
    obtain a l where A: "Allow R (env_start env) (rateLimitKey rk' ip') (Limit (limit_of h rk'))
        (WindowSecs (limit_of h rk')) (gw_limiter st) = (a, l)" by (metis surj_pair)
    note na = Allow_no_error [OF up A]
    from step_with_counter [OF up Some [unfolded K'] A step]
    have l: "gw_limiter st' = l" and f: "if allowed_ok a then handed_on parse secret h ?ob else turned_away ?ob"
      by blast+
    from Allow_other_key [OF laws Cons.prems(1) A na]
    have pos': "counts_positive (view l)"
      and oth: "\<And>k. k \<noteq> full_key (rateLimitKey rk' ip') \<Longrightarrow> view l k = view (gw_limiter st) k" by blast+
    show ?thesis
    proof (cases "K' = K")
      case False
      then have "rateLimitKey rk ip \<noteq> rateLimitKey rk' ip'"
        using rate_keys_differ [OF K(2) limited_keys [OF Some [unfolded K']]] K K' by auto
      then have "view l (full_key (rateLimitKey rk ip)) = Some (n, Some d)"
        using oth Cons.prems(2) by simp
      with Cons.IH [OF _ _ tm, of st'] pos' l False Some show ?thesis unfolding run by simp
    next
      case True
      then have kk: "rk' = rk" "ip' = ip" using K K' by auto
      have "env_start env < d" using Cons.prems(3) q Some True by auto
      then have lv: "live_entry (view (gw_limiter st)) (env_start env) (full_key (rateLimitKey rk' ip')) = Some (n, Some d)"
        using Cons.prems(2) kk by (simp add: live_entry_def)
      have "1 \<le> n" using Cons.prems(1,2) by (auto simp: counts_positive_def)
      from Allow_live [OF laws lv this A na]
      have al: "allowed_ok a \<longleftrightarrow> n < Limit (limit_of h rk)"
        and "view l (full_key (rateLimitKey rk ip)) = Some (n + 1, Some d)" using kk by auto
      with Cons.IH [OF _ _ tm, of st' "n + 1"] pos' l
      have rest: "\<forall>i < length (counted parse secret K (gw_run parse secret R h rs st')).
        fate parse secret h (n + 1 + int i) (counted parse secret K (gw_run parse secret R h rs st') ! i)" by simp
      have "fate parse secret h n ?ob" using f al Some K' kk by (simp add: fate_def)
      then show ?thesis
        unfolding run using rest Some True
        by (auto simp: less_Suc_eq_0_disj add.assoc)
    qed
  qed
qed simp

section \<open>The property\<close>

text \<open>C28: the limit of a client at the gateway's door. Among any requests of any clients, take
  those that are counted for one route key and one client address within \<open>WindowSecs\<close> seconds of the
  first one. Exactly the first \<open>Limit\<close> of them are handed on, with the same answer and the same change of
  breaker and metrics as without a limiter; every later one is answered 429 and reaches neither the
  breaker nor an upstream. Requests for other routes, of other clients, or without a valid token on
  an authenticated route, do not use up the limit.\<close>

theorem gateway_admits_limit:
  fixes h :: "('r, 'b) gw_handler"
  assumes laws: "redis_counter_laws R view" and up: "redis_up R"
    and pos: "counts_positive (view (gw_limiter st))"
    and first: "limited_key parse secret env0 r0 = Some (rk, ip)"
    and none: "live_entry (view (gw_limiter st)) (env_start env0) (''rl:'' @ rateLimitKey rk ip) = None"
    and w: "0 < WindowSecs (limit_of h rk)" "in_i64 (WindowSecs (limit_of h rk) * second)"
    and times: "\<forall>(env, r) \<in> set rs. limited_key parse secret env r = Some (rk, ip)
      \<longrightarrow> env_start env < env_start env0 + WindowSecs (limit_of h rk) * second"
    and obs: "obs = filter (\<lambda>ob. obs_key parse secret ob = Some (rk, ip))
      (gw_run parse secret R h ((env0, r0) # rs) st)"
  shows "\<forall>i < length obs. if int i < Limit (limit_of h rk) then handed_on parse secret h (obs ! i)
    else turned_away (obs ! i)"
proof -
  obtain x st' where step: "gw_protected parse secret (gw_at R h env0) env0 r0 st = (x, st')"
    by (cases "gw_protected parse secret (gw_at R h env0) env0 r0 st")
  let ?ob = "\<lparr>obs_env = env0, obs_req = r0, obs_before = st, obs_reply = x, obs_after = st'\<rparr>"
  define rest where "rest = counted parse secret (rk, ip) (gw_run parse secret R h rs st')"
  obtain a l where A: "Allow R (env_start env0) (rateLimitKey rk ip) (Limit (limit_of h rk))
      (WindowSecs (limit_of h rk)) (gw_limiter st) = (a, l)" by (metis surj_pair)
  note na = Allow_no_error [OF up A]
  from step_with_counter [OF up first A step]
  have l: "gw_limiter st' = l" and f: "if allowed_ok a then handed_on parse secret h ?ob else turned_away ?ob"
    by blast+
  from Allow_fresh [OF laws none [folded full_key_def] A na] i64_id [OF w(2)]
  have al: "allowed_ok a \<longleftrightarrow> 1 \<le> Limit (limit_of h rk)"
    and v: "view l (full_key (rateLimitKey rk ip))
      = Some (1, Some (env_start env0 + WindowSecs (limit_of h rk) * second))" by auto
  from Allow_other_key [OF laws pos A na] have pos': "counts_positive (view l)" by blast
  have fates: "fate parse secret h (1 + int i) (rest ! i)" if "i < length rest" for i
    using gw_window_run [OF laws up refl limited_keys [OF first] _ _ times, of st' 1 h] pos' v l that
    unfolding rest_def by simp
  have keys: "\<forall>ob \<in> set rest. obs_key parse secret ob = Some (rk, ip)" by (simp add: rest_def)
  have later: "if 1 + int i < Limit (limit_of h rk) then handed_on parse secret h (rest ! i)
      else turned_away (rest ! i)" if "i < length rest" for i
    using fates [OF that] keys nth_mem [OF that] by (simp add: fate_def)
  have "obs = ?ob # rest" unfolding obs rest_def using step first by simp
  moreover have "if int i < Limit (limit_of h rk) then handed_on parse secret h ((?ob # rest) ! i)
      else turned_away ((?ob # rest) ! i)" if "i < Suc (length rest)" for i
  proof (cases i)
    case 0
    with f al show ?thesis by simp
  next
    case (Suc j)
    with later [of j] that show ?thesis by simp
  qed
  ultimately show ?thesis by simp
qed

lemma counted_length:
  "length (counted parse secret K (gw_run parse secret R h rs st))
     = length (filter (\<lambda>(env, r). limited_key parse secret env r = Some K) rs)"
  by (induction rs arbitrary: st) (auto simp: Let_def split: prod.split)

definition limit_demo_handler :: "(counter_view, string) gw_handler" where
  "limit_demo_handler = \<lparr>h_transport = (\<lambda>_. RoundTrip ok_response),
     h_url_parse = (\<lambda>u. Some (''http'', ''up:8080'')), h_upstreams = [(''url-service'', ''http://up:8080'')],
     h_cfg = \<lparr>ShortenRateLimit = \<lparr>Limit = 1, WindowSecs = 60\<rparr>,
              RedirectRateLimit = \<lparr>Limit = 2, WindowSecs = 60\<rparr>\<rparr>, h_rateLimiter = None\<rparr>"

definition limit_demo_state :: "counter_view gw_state" where
  "limit_demo_state = \<lparr>gw_limiter = Map.empty, gw_breaker = None, gw_metrics = no_metrics\<rparr>"

definition limit_demo_rest :: "(gw_env \<times> http_request) list" where
  "limit_demo_rest =
     [(gw_demo_env\<lparr>env_start := 1\<rparr>, (bare_request ''GET'' ''/r/a'')\<lparr>req_remoteAddr := ''192.0.2.11:1''\<rparr>),
      (gw_demo_env\<lparr>env_start := 2\<rparr>, bare_request ''GET'' ''/r/b''),
      (gw_demo_env\<lparr>env_start := 3\<rparr>, bare_request ''POST'' ''/api/shorten''),
      (gw_demo_env\<lparr>env_start := 4\<rparr>, bare_request ''GET'' ''/r/a'')]"

theorem gateway_admits_limit_witness:
  "\<exists>x y z. filter (\<lambda>ob. obs_key demo_parse ''k'' ob = Some (''redirect'', ''192.0.2.10''))
       (gw_run demo_parse ''k'' (map_redis (\<lambda>t. False)) limit_demo_handler
          ((gw_demo_env, bare_request ''GET'' ''/r/a'') # limit_demo_rest) limit_demo_state) = [x, y, z]
     \<and> handed_on demo_parse ''k'' limit_demo_handler x \<and> handed_on demo_parse ''k'' limit_demo_handler y
     \<and> turned_away z"
proof -
  let ?K = "(''redirect'', ''192.0.2.10'')"
  define obs where "obs = filter (\<lambda>ob. obs_key demo_parse ''k'' ob = Some ?K)
       (gw_run demo_parse ''k'' (map_redis (\<lambda>t. False)) limit_demo_handler
          ((gw_demo_env, bare_request ''GET'' ''/r/a'') # limit_demo_rest) limit_demo_state)"
  have keys: "map (\<lambda>(env, r). limited_key demo_parse ''k'' env r)
      ((gw_demo_env, bare_request ''GET'' ''/r/a'') # limit_demo_rest)
      = [Some ?K, Some (''redirect'', ''192.0.2.11''), Some ?K, None, Some ?K]"
    by code_simp
  then have first: "limited_key demo_parse ''k'' gw_demo_env (bare_request ''GET'' ''/r/a'') = Some ?K" by simp
  have "length (filter (\<lambda>(env, r). limited_key demo_parse ''k'' env r = Some ?K)
      ((gw_demo_env, bare_request ''GET'' ''/r/a'') # limit_demo_rest)) = 3"
    using keys by (simp add: limit_demo_rest_def)
  then have "length obs = 3" unfolding obs_def counted_length .
  then obtain x y z where o: "obs = [x, y, z]" by (auto simp: length_Suc_conv numeral_eq_Suc)
  have "\<forall>i < length obs. if int i < Limit (limit_of limit_demo_handler ''redirect'')
      then handed_on demo_parse ''k'' limit_demo_handler (obs ! i) else turned_away (obs ! i)"
    by (rule gateway_admits_limit [OF map_redis_laws _ _ first _ _ _ _ obs_def])
       (auto simp: redis_up_def map_redis_def counts_positive_def live_entry_def limit_demo_state_def
          limit_demo_handler_def limit_of_def in_i64_def second_def limit_demo_rest_def gw_demo_env_def
          split: option.splits)
  then have "handed_on demo_parse ''k'' limit_demo_handler x \<and> handed_on demo_parse ''k'' limit_demo_handler y
     \<and> turned_away z"
    by (simp add: o limit_of_def limit_demo_handler_def All_less_Suc numeral_eq_Suc)
  with o show ?thesis unfolding obs_def by blast
qed

end
