(* ===== verification/Keyset.thy ===== *)
theory Keyset
  imports Prelude
begin

text \<open>
  Keyset pagination, the contract shared by url-service's URL list and notification-service's
  notification list: rows are listed in strictly descending order of a key, a page is the first
  \<open>limit\<close> rows below the cursor's key, fetched with one extra row to see whether there is more,
  and the cursor of the next page is the id of the last row of this one. The client that follows
  the cursors is \<open>walk\<close>.
\<close>

fun walk :: "('c option \<Rightarrow> 'a list \<times> 'c option) \<Rightarrow> nat \<Rightarrow> 'c option \<Rightarrow> 'a list list" where
  "walk next 0 c = []"
| "walk next (Suc f) c =
     (case next c of (p, None) \<Rightarrow> [p] | (p, Some c') \<Rightarrow> p # walk next f (Some c'))"

lemma filter_below_descending:
  assumes "sorted_wrt (\<lambda>x y. key y < key x) (xs @ z # ys)"
  shows "filter (\<lambda>r. key r < (key z :: 'k :: linorder)) (xs @ z # ys) = ys"
proof -
  have "filter (\<lambda>r. key r < key z) xs = []"
    using assms by (auto simp: sorted_wrt_append filter_empty_conv not_less intro: less_imp_le)
  moreover have "filter (\<lambda>r. key r < key z) ys = ys"
    using assms by (auto simp: sorted_wrt_append intro: filter_True)
  ultimately show ?thesis by simp
qed

text \<open>A query \<open>s\<close> stands for the request's fixed part and the tables; the laws hold for the
  valid ones, and the page law for the cursors that earlier pages gave.\<close>

locale keyset_listing =
  fixes valid :: "'s \<Rightarrow> bool"
    and key :: "'a \<Rightarrow> 'k :: linorder"
    and all_rows :: "'s \<Rightarrow> 'a list"
    and cursor :: "'a \<Rightarrow> 'c"
    and limit :: "'s \<Rightarrow> nat"
    and page :: "'s \<Rightarrow> 'c option \<Rightarrow> 'a list \<times> 'c option"
    and below :: "'s \<Rightarrow> 'c \<Rightarrow> 'a list"
  assumes descending: "valid s \<Longrightarrow> sorted_wrt (\<lambda>x y. key y < key x) (all_rows s)"
    and below_cursor: "valid s \<Longrightarrow> z \<in> set (all_rows s) \<Longrightarrow>
      below s (cursor z) = filter (\<lambda>r. key r < key z) (all_rows s)"
    and limit_pos: "valid s \<Longrightarrow> 1 \<le> limit s"
    and next_page: "valid s \<Longrightarrow> (\<And>x. c = Some x \<Longrightarrow> x \<in> cursor ` set (all_rows s)) \<Longrightarrow>
      page s c = (let rest = (case c of None \<Rightarrow> all_rows s | Some c \<Rightarrow> below s c) in
        if length rest > limit s
        then (take (limit s) rest, Some (cursor (last (take (limit s) rest))))
        else (rest, None))"
begin

lemma walk_from:
  assumes v: "valid s" and "all_rows s = xs @ ys"
    and "ys = (case c of None \<Rightarrow> all_rows s | Some c \<Rightarrow> below s c)"
    and "\<And>x. c = Some x \<Longrightarrow> x \<in> cursor ` set (all_rows s)"
    and "length ys \<le> f" and "1 \<le> f"
  shows "concat (walk (page s) f c) = ys \<and> (\<forall>p \<in> set (walk (page s) f c). length p \<le> limit s)"
  using assms(2-)
proof (induction f arbitrary: xs ys c)
  case (Suc f)
  have pg: "page s c = (if length ys > limit s
      then (take (limit s) ys, Some (cursor (last (take (limit s) ys)))) else (ys, None))"
    using next_page [OF v Suc.prems(3)] by (simp add: Let_def flip: Suc.prems(2))
  show ?case
  proof (cases "length ys > limit s")
    case False
    with pg show ?thesis by simp
  next
    case True
    let ?p = "take (limit s) ys" and ?ys = "drop (limit s) ys"
    have ne: "?p \<noteq> []" using True limit_pos [OF v] by auto
    then have split: "all_rows s = (xs @ butlast ?p) @ last ?p # ?ys"
      using Suc.prems(1) append_butlast_last_id [OF ne] append_take_drop_id [of "limit s" ys]
      by (metis append.assoc append_Cons append_Nil)
    then have mem: "last ?p \<in> set (all_rows s)" by (metis in_set_conv_decomp)
    from below_cursor [OF v mem]
    have "below s (cursor (last ?p)) = filter (\<lambda>r. key r < key (last ?p)) (all_rows s)" .
    also have "\<dots> = ?ys"
      using filter_below_descending [of key "xs @ butlast ?p" "last ?p" ?ys] descending [OF v] split
      by (metis)
    finally have b: "?ys = below s (cursor (last ?p))" by simp
    have len: "length ?ys \<le> f" "1 \<le> f" using Suc.prems(4) True limit_pos [OF v] by auto
    have "concat (walk (page s) f (Some (cursor (last ?p)))) = ?ys
      \<and> (\<forall>p \<in> set (walk (page s) f (Some (cursor (last ?p)))). length p \<le> limit s)"
    proof (rule Suc.IH)
      show "all_rows s = (xs @ ?p) @ ?ys" using Suc.prems(1) by simp
    qed (use b len mem in auto)
    moreover have "page s c = (?p, Some (cursor (last ?p)))" using True pg by simp
    ultimately show ?thesis by (auto simp: min_def)
  qed
qed simp

text \<open>Following the cursors lists every row once, in order, in pages of at most \<open>limit\<close>.\<close>

lemma walk_all:
  assumes "valid s" and "length (all_rows s) \<le> f" and "1 \<le> f"
  shows "concat (walk (page s) f None) = all_rows s \<and> (\<forall>p \<in> set (walk (page s) f None). length p \<le> limit s)"
  using walk_from [of s "[]" "all_rows s" None f] assms by simp

end

text \<open>Sorting by a key without repetitions gives the strictly descending list.\<close>

definition sort_desc :: "('a \<Rightarrow> 'k :: linorder) \<Rightarrow> 'a list \<Rightarrow> 'a list" where
  "sort_desc key xs = rev (sort_key key xs)"

lemma set_sort_desc [simp]: "set (sort_desc key xs) = set xs"
  by (simp add: sort_desc_def)

lemma length_sort_desc [simp]: "length (sort_desc key xs) = length xs"
  by (simp add: sort_desc_def)

lemma distinct_sort_desc [simp]: "distinct (sort_desc key xs) = distinct xs"
  by (simp add: sort_desc_def)

lemma sorted_wrt_less_map:
  "sorted (map f xs) \<Longrightarrow> distinct (map f xs) \<Longrightarrow> sorted_wrt (\<lambda>x y. f x < f y) xs"
proof (induction xs)
  case (Cons x xs)
  have "f x < f y" if "y \<in> set xs" for y
  proof -
    have "f x \<le> f y" using Cons.prems(1) that by simp
    moreover have "f x \<noteq> f y" using Cons.prems(2) that by auto
    ultimately show ?thesis by simp
  qed
  with Cons show ?case by simp
qed simp

lemma sort_desc_descending:
  assumes "distinct xs" and "inj_on key (set xs)"
  shows "sorted_wrt (\<lambda>x y. key y < key x) (sort_desc key xs)"
proof -
  have "distinct (map key (sort_key key xs))"
    using assms by (simp add: distinct_map)
  then have "sorted_wrt (\<lambda>x y. key x < key y) (sort_key key xs)"
    by (intro sorted_wrt_less_map) simp_all
  then show ?thesis by (simp add: sort_desc_def sorted_wrt_rev)
qed

lemma filter_sort_desc: "filter P (sort_desc key xs) = sort_desc key (filter P xs)"
  by (simp add: sort_desc_def filter_sort flip: rev_filter)

end
