(* ===== verification/TimeText.thy ===== *)
theory TimeText
  imports GoStd
begin

text \<open>
  Instants as text. \<open>time.Time\<close> marshals to RFC 3339 in UTC, with the fraction of a second cut after
  its last non-zero digit, and is read back by the strict parser of the package; the events, the
  timeline and the token reply of this program carry their instants in this form. The calendar is
  the proleptic Gregorian one; days are counted from 1970-01-01.
\<close>

section \<open>The calendar\<close>

text \<open>Years run from March, in eras of 400 years.\<close>

definition year_start :: "int \<Rightarrow> int" where
  "year_start y = 365 * y + y div 4 - y div 100"

definition year_of_era :: "int \<Rightarrow> int" where
  "year_of_era doe = (doe - doe div 1460 + doe div 36524 - doe div 146096) div 365"

definition civil_of_days :: "int \<Rightarrow> int \<times> int \<times> int" where
  "civil_of_days z =
     (let z = z + 719468;
          era = z div 146097;
          doe = z - era * 146097;
          yoe = year_of_era doe;
          doy = doe - year_start yoe;
          mp = (5 * doy + 2) div 153;
          d = doy - (153 * mp + 2) div 5 + 1;
          m = (if mp < 10 then mp + 3 else mp - 9)
      in (yoe + era * 400 + (if m \<le> 2 then 1 else 0), m, d))"

definition days_of_civil :: "int \<Rightarrow> int \<Rightarrow> int \<Rightarrow> int" where
  "days_of_civil y m d =
     (let y = (if m \<le> 2 then y - 1 else y);
          era = y div 400;
          yoe = y - era * 400;
          mp = (if m \<le> 2 then m + 9 else m - 3);
          doy = (153 * mp + 2) div 5 + d - 1
      in era * 146097 + year_start yoe + doy - 719468)"

definition leap_year :: "int \<Rightarrow> bool" where
  "leap_year y \<longleftrightarrow> y mod 4 = 0 \<and> (y mod 100 \<noteq> 0 \<or> y mod 400 = 0)"

definition days_in :: "int \<Rightarrow> int \<Rightarrow> int" where
  "days_in y m = (if m = 2 then if leap_year y then 29 else 28
                  else if m \<in> {4, 6, 9, 11} then 30 else 31)"

text \<open>A day of an era splits into centuries, periods of four years, years and days.\<close>

lemma era_day_split:
  assumes "0 \<le> doe" and "doe < 146097"
  obtains c q k j :: int where "doe = 36524 * c + 1461 * q + 365 * k + j"
    and "0 \<le> c" "c \<le> 3" "0 \<le> q" "q \<le> 24" "0 \<le> k" "k \<le> 3" "0 \<le> j" "j \<le> 365"
    and "k < 3 \<longrightarrow> j < 365" and "c < 3 \<and> q = 24 \<and> k = 3 \<longrightarrow> j < 365"
proof -
  define c where "c = min 3 (doe div 36524)"
  define r where "r = doe - 36524 * c"
  have c: "0 \<le> c" "c \<le> 3" and r: "0 \<le> r" "r \<le> 36524" "c < 3 \<longrightarrow> r < 36524"
    using assms by (auto simp: c_def r_def min_def)
  define q where "q = r div 1461"
  define p where "p = r mod 1461"
  have q: "0 \<le> q" "q \<le> 24" and p: "0 \<le> p" "p \<le> 1460" and rq: "r = 1461 * q + p"
    using r by (auto simp: q_def p_def)
  define k where "k = min 3 (p div 365)"
  define j where "j = p - 365 * k"
  have k: "0 \<le> k" "k \<le> 3" and j: "0 \<le> j" "j \<le> 365" "k < 3 \<longrightarrow> j < 365"
    using p by (auto simp: k_def j_def min_def)
  have pk: "p = 365 * k + j" by (simp add: j_def)
  have "c < 3 \<and> q = 24 \<and> k = 3 \<longrightarrow> j < 365" using r rq pk by auto
  with that [of c q k j] c q k j rq pk show thesis by (simp add: r_def)
qed

lemma year_of_era_split:
  fixes c q k j :: int
  assumes "0 \<le> c" "c \<le> 3" "0 \<le> q" "q \<le> 24" "0 \<le> k" "k \<le> 3" "0 \<le> j" "j \<le> 365"
    and "k < 3 \<longrightarrow> j < 365" and "c < 3 \<and> q = 24 \<and> k = 3 \<longrightarrow> j < 365"
  shows "year_of_era (36524 * c + 1461 * q + 365 * k + j) = 100 * c + 4 * q + k"
    and "year_start (100 * c + 4 * q + k) = 36524 * c + 1461 * q + 365 * k"
proof -
  let ?d = "36524 * c + 1461 * q + 365 * k + j"
  define e :: int where "e = (if 1460 \<le> 24 * c + q + 365 * k + j then 1 else 0)"
  have "?d = 1460 * (25 * c + q) + (24 * c + q + 365 * k + j)" by simp
  moreover have "0 \<le> 24 * c + q + 365 * k + j" "24 * c + q + 365 * k + j < 2 * 1460" using assms by simp_all
  ultimately have a: "?d div 1460 = 25 * c + q + e" unfolding e_def by auto
  have b: "?d div 36524 - ?d div 146096 = c"
  proof (cases "?d = 146096")
    case True
    moreover from True have "c = 3" using assms by auto
    ultimately show ?thesis by (simp only:)
  next
    case False
    have "?d \<le> 146096" using assms by auto
    with False have "?d < 146096" by simp
    moreover have "0 \<le> ?d" using assms by simp
    ultimately have "?d div 146096 = 0" by simp
    moreover have "?d = 36524 * c + (1461 * q + 365 * k + j)" by simp
    moreover have "0 \<le> 1461 * q + 365 * k + j" "1461 * q + 365 * k + j < 36524"
      using assms \<open>?d < 146096\<close> by auto
    ultimately show ?thesis by auto
  qed
  have num: "?d - ?d div 1460 + ?d div 36524 - ?d div 146096
      = 365 * (100 * c + 4 * q + k) + (j - e)" using a b by simp
  have "0 \<le> j - e \<and> j - e < 365"
    using assms unfolding e_def by auto
  then have "(365 * n + (j - e)) div 365 = n" for n by simp
  then show "year_of_era ?d = 100 * c + 4 * q + k"
    unfolding year_of_era_def num .
  show "year_start (100 * c + 4 * q + k) = 36524 * c + 1461 * q + 365 * k"
  proof -
    have "(100 * c + 4 * q + k) div 4 = 25 * c + q" using assms(5,6) by auto
    moreover have "(100 * c + 4 * q + k) div 100 = c" using assms(3-6) by auto
    ultimately show ?thesis unfolding year_start_def by simp
  qed
qed

text \<open>\<open>month_start\<close> counts from March, month 0.\<close>

definition month_start :: "int \<Rightarrow> int" where
  "month_start mp = (153 * mp + 2) div 5"

lemma month_of_day:
  fixes j mp :: int
  assumes "0 \<le> j" "j \<le> 365" and mp: "mp = (5 * j + 2) div 153"
  shows "0 \<le> mp" "mp \<le> 11" "month_start mp \<le> j"
    and "mp < 11 \<Longrightarrow> j < month_start mp + (if mp \<in> {1, 3, 6, 8} then 30 else 31)"
    and "mp = 11 \<Longrightarrow> j < month_start mp + 29"
proof -
  show m: "0 \<le> mp" "mp \<le> 11" using assms by auto
  have lo: "153 * mp \<le> 5 * j + 2" and hi: "5 * j + 2 < 153 * mp + 153"
    using mp by (auto simp: minus_mod_eq_mult_div [symmetric])
  then show "month_start mp \<le> j" unfolding month_start_def by auto
  from m have "mp \<in> {0, 1, 2, 3, 4, 5, 6, 7, 8, 9, 10, 11}" by (simp, arith)
  then have "mp < 11 \<longrightarrow> j < month_start mp + (if mp \<in> {1, 3, 6, 8} then 30 else 31)"
    and "mp = 11 \<longrightarrow> j < month_start mp + 29"
    using hi assms(2) unfolding month_start_def by auto
  then show "mp < 11 \<Longrightarrow> j < month_start mp + (if mp \<in> {1, 3, 6, 8} then 30 else 31)"
    and "mp = 11 \<Longrightarrow> j < month_start mp + 29" by blast+
qed

lemma leap_day_year:
  fixes era c q k :: int
  assumes "0 \<le> c" "c \<le> 3" "0 \<le> q" "q \<le> 24" and "k = 3" and "\<not> (c < 3 \<and> q = 24)"
  shows "leap_year (100 * c + 4 * q + k + era * 400 + 1)"
proof -
  have e: "100 * c + 4 * q + k + era * 400 + 1 = 4 * (25 * c + q + 1 + era * 100)" using assms by simp
  have "(4 * (25 * c + q + 1 + era * 100)) mod 100 = 4 * ((25 * c + q + 1 + era * 100) mod 25)"
    using mult_mod_right [of 4 "25 * c + q + 1 + era * 100" 25] by simp
  also have "(25 * c + q + 1 + era * 100) mod 25 = ((q + 1) + 25 * (c + 4 * era)) mod 25"
    by (simp add: ac_simps)
  also have "\<dots> = (q + 1) mod 25" by (rule mod_mult_self2)
  finally have h: "(4 * (25 * c + q + 1 + era * 100)) mod 100 = 4 * ((q + 1) mod 25)" .
  have "(4 * (25 * c + q + 1 + era * 100)) mod 400 = 0" if "q = 24"
  proof -
    have "4 * (25 * c + q + 1 + era * 100) = 400 * (1 + era)" using assms that by simp
    then show ?thesis by simp
  qed
  moreover have "q < 24 \<Longrightarrow> (q + 1) mod 25 = q + 1" using assms by simp
  ultimately show ?thesis using assms h unfolding leap_year_def e by (cases "q = 24") auto
qed

lemma civil_of_days_correct:
  assumes "civil_of_days z = (y, m, d)"
  shows "days_of_civil y m d = z" and "1 \<le> m" "m \<le> 12" "1 \<le> d" "d \<le> days_in y m"
proof -
  define era where "era = (z + 719468) div 146097"
  define doe where "doe = z + 719468 - era * 146097"
  have "0 \<le> doe" "doe < 146097" unfolding doe_def era_def by (simp_all add: minus_div_mult_eq_mod)
  then obtain c q k j where doe: "doe = 36524 * c + 1461 * q + 365 * k + j"
    and r: "0 \<le> c" "c \<le> 3" "0 \<le> q" "q \<le> 24" "0 \<le> k" "k \<le> 3" "0 \<le> j" "j \<le> 365"
      "k < 3 \<longrightarrow> j < 365" "c < 3 \<and> q = 24 \<and> k = 3 \<longrightarrow> j < 365"
    by (rule era_day_split)
  note yoe = year_of_era_split [OF r]
  define mp where "mp = (5 * j + 2) div 153"
  note mp = month_of_day [OF r(7,8) mp_def]
  have j: "doe - year_start (year_of_era doe) = j" unfolding doe yoe by simp
  have res: "y = 100 * c + 4 * q + k + era * 400 + (if m \<le> 2 then 1 else 0)"
      "m = (if mp < 10 then mp + 3 else mp - 9)" "d = j - month_start mp + 1"
    using assms j
    unfolding civil_of_days_def Let_def era_def [symmetric] doe_def [symmetric]
    by (auto simp: mp_def month_start_def doe yoe)
  show m: "1 \<le> m" "m \<le> 12" using mp res(2) by auto
  show d: "1 \<le> d" using mp res(3) by simp
  have le: "m \<le> 2 \<longleftrightarrow> 10 \<le> mp" using res(2) mp by auto
  have y: "(100 * c + 4 * q + k + era * 400) div 400 = era" using r by auto
  have mp': "(if m \<le> 2 then m + 9 else m - 3) = mp" using res(2) mp by auto
  have "(if m \<le> 2 then y - 1 else y) = 100 * c + 4 * q + k + era * 400" using res(1) by simp
  then show "days_of_civil y m d = z"
    unfolding days_of_civil_def Let_def mp'
    using res(3) doe doe_def yoe(2) by (simp add: y month_start_def)
  show "d \<le> days_in y m"
  proof (cases "mp = 11")
    case True
    then have m2: "m = 2" using res(2) by simp
    have "month_start 11 = 337" by (simp add: month_start_def)
    show ?thesis
    proof (cases "j = 365")
      case True
      then have "k = 3" "\<not> (c < 3 \<and> q = 24)" using r by auto
      from leap_day_year [OF r(1-4) this, of era] m2 res(1) have "leap_year y" by (simp add: add.commute)
      with True m2 res(3) \<open>mp = 11\<close> show ?thesis by (simp add: days_in_def \<open>month_start 11 = 337\<close>)
    next
      case False
      with m2 res(3) \<open>mp = 11\<close> r(8) show ?thesis by (simp add: days_in_def \<open>month_start 11 = 337\<close>)
    qed
  next
    case False
    with mp have "j < month_start mp + (if mp \<in> {1, 3, 6, 8} then 30 else 31)" by simp
    moreover have "m \<noteq> 2" using False res(2) mp by auto
    moreover have "mp \<in> {1, 3, 6, 8} \<longleftrightarrow> m \<in> {4, 6, 9, 11}" using res(2) mp by auto
    ultimately show ?thesis using res(3) by (auto simp: days_in_def split: if_splits)
  qed
qed

section \<open>Writing\<close>

definition pad :: "nat \<Rightarrow> int \<Rightarrow> string" where
  "pad w n = (let s = Itoa n in replicate (w - length s) CHR ''0'' @ s)"

text \<open>A fraction of a second in nanoseconds, without its trailing zeros; nothing for zero.\<close>

definition fraction :: "int \<Rightarrow> string" where
  "fraction ns = (if ns = 0 then '''' else ''.'' @ rev (dropWhile (\<lambda>c. c = CHR ''0'') (rev (pad 9 ns))))"

definition rfc3339 :: "time \<Rightarrow> string" where
  "rfc3339 t =
     (let secs = t div second; ns = t mod second;
          (y, m, d) = civil_of_days (secs div 86400);
          s = secs mod 86400
      in pad 4 y @ ''-'' @ pad 2 m @ ''-'' @ pad 2 d @ ''T'' @ pad 2 (s div 3600) @ '':''
         @ pad 2 (s div 60 mod 60) @ '':'' @ pad 2 (s mod 60) @ fraction ns @ ''Z'')"

text \<open>The years that the marshaller accepts.\<close>

definition text_range :: "time \<Rightarrow> bool" where
  "text_range t \<longleftrightarrow> (let (y, m, d) = civil_of_days (t div second div 86400) in 0 \<le> y \<and> y \<le> 9999)"

section \<open>Reading\<close>

definition parseUint :: "string \<Rightarrow> int \<Rightarrow> int \<Rightarrow> int option" where
  "parseUint s lo hi =
     (let x = digits_val 0 s in if list_all is_digit s \<and> lo \<le> x \<and> x \<le> hi then Some x else None)"

text \<open>The fraction at the head of a string in nanoseconds, digits beyond the ninth ignored, and the rest.\<close>

definition parse_fraction :: "string \<Rightarrow> int \<times> string" where
  "parse_fraction s =
     (if 2 \<le> length s \<and> s ! 0 = CHR ''.'' \<and> is_digit (s ! 1)
      then (let ds = take 9 (takeWhile is_digit (tl s))
            in (digits_val 0 ds * 10 ^ (9 - length ds), dropWhile is_digit (tl s)))
      else (0, s))"

text \<open>The zone's offset to UTC in seconds.\<close>

definition parse_zone :: "string \<Rightarrow> int option" where
  "parse_zone s =
     (if s = ''Z'' then Some 0
      else if length s \<noteq> 6 then None
      else (case (parseUint (take 2 (drop 1 s)) 0 23, parseUint (take 2 (drop 4 s)) 0 59) of
              (Some hr, Some mm) \<Rightarrow>
                if s ! 3 = CHR '':'' \<and> s ! 0 = CHR ''-'' then Some (- ((hr * 60 + mm) * 60))
                else if s ! 3 = CHR '':'' \<and> s ! 0 = CHR ''+'' then Some ((hr * 60 + mm) * 60)
                else None
            | _ \<Rightarrow> None))"

definition parse_date :: "string \<Rightarrow> int option" where
  "parse_date s =
     (case (parseUint (take 4 s) 0 9999, parseUint (take 2 (drop 5 s)) 1 12) of
        (Some y, Some m) \<Rightarrow>
          (case parseUint (take 2 (drop 8 s)) 1 (days_in y m) of
             Some d \<Rightarrow> if s ! 4 = CHR ''-'' \<and> s ! 7 = CHR ''-'' then Some (days_of_civil y m d) else None
           | None \<Rightarrow> None)
      | _ \<Rightarrow> None)"

definition parse_clock :: "string \<Rightarrow> int option" where
  "parse_clock s =
     (case (parseUint (take 2 s) 0 23, parseUint (take 2 (drop 3 s)) 0 59, parseUint (take 2 (drop 6 s)) 0 59) of
        (Some h, Some m, Some sec) \<Rightarrow>
          if s ! 2 = CHR '':'' \<and> s ! 5 = CHR '':'' then Some (h * 3600 + m * 60 + sec) else None
      | _ \<Rightarrow> None)"

text \<open>
  The package's parser of the format. Where it fails the package falls back on its general
  parser, which takes a few more spellings (an hour of one digit, a comma for the point); no part of
  this program writes them.
\<close>

definition parse_rfc3339 :: "string \<Rightarrow> time option" where
  "parse_rfc3339 s =
     (if length s < 19 then None
      else case (parse_date s, parse_clock (drop 11 s)) of
        (Some days, Some secs) \<Rightarrow>
          if s ! 10 = CHR ''T'' then
            (let (ns, rest) = parse_fraction (drop 19 s)
             in map_option (\<lambda>off. (days * 86400 + secs - off) * second + ns) (parse_zone rest))
          else None
      | _ \<Rightarrow> None)"

section \<open>Round trip\<close>

lemma digits_val_zeros: "digits_val acc (replicate k CHR ''0'') = acc * 10 ^ k"
proof (induction k arbitrary: acc)
  case (Suc k)
  have "digit_val CHR ''0'' = 0" by (simp add: digit_val_def)
  with Suc show ?case by (simp add: mult.assoc)
qed simp

lemma dec_digits_length: "0 \<le> n \<Longrightarrow> n < 10 ^ w \<Longrightarrow> 0 < w \<Longrightarrow> length (dec_digits n) \<le> w"
proof (induction n arbitrary: w rule: dec_digits.induct)
  case (1 n)
  show ?case
  proof (cases "n < 10")
    case True
    with "1.prems" show ?thesis by (subst dec_digits.simps) simp
  next
    case False
    then obtain v where v: "w = Suc v" "0 < v"
      using "1.prems" by (cases w) (auto, cases "w - 1", auto)
    with "1.IH" [of v] "1.prems" False have "length (dec_digits (n div 10)) \<le> v" by simp
    with False v show ?thesis by (subst dec_digits.simps) simp
  qed
qed

lemma pad_props:
  assumes "0 \<le> n" and "n < 10 ^ w" and "0 < w"
  shows "length (pad w n) = w" and "list_all is_digit (pad w n)" and "digits_val 0 (pad w n) = n"
proof -
  note d = dec_digits_props [OF assms(1)] and l = dec_digits_length [OF assms]
  have "is_digit CHR ''0''" by (simp add: is_digit_def)
  with assms(1) d l show "length (pad w n) = w" and "list_all is_digit (pad w n)" and "digits_val 0 (pad w n) = n"
    by (auto simp: pad_def Itoa_def Let_def digits_val_append digits_val_zeros list_all_iff)
qed

lemma parseUint_pad:
  "0 \<le> n \<Longrightarrow> n < 10 ^ w \<Longrightarrow> 0 < w \<Longrightarrow> lo \<le> n \<Longrightarrow> n \<le> hi \<Longrightarrow> parseUint (pad w n) lo hi = Some n"
  by (simp add: parseUint_def pad_props)

lemma rev_dropWhile_zeros:
  "rev (dropWhile (\<lambda>c. c = z) (rev s)) @ replicate (length s - length (rev (dropWhile (\<lambda>c. c = z) (rev s)))) z = s"
proof -
  have "takeWhile (\<lambda>c. c = z) (rev s) = replicate (length (takeWhile (\<lambda>c. c = z) (rev s))) z"
    by (metis (mono_tags, lifting) replicate_length_same set_takeWhileD)
  moreover have "length s - length (dropWhile (\<lambda>c. c = z) (rev s)) = length (takeWhile (\<lambda>c. c = z) (rev s))"
    by (metis add_diff_cancel_right' length_append length_rev takeWhile_dropWhile_id)
  ultimately have "replicate (length s - length (dropWhile (\<lambda>c. c = z) (rev s))) z = rev (takeWhile (\<lambda>c. c = z) (rev s))"
    by (metis rev_replicate)
  then show ?thesis by (metis length_rev rev_append rev_rev_ident takeWhile_dropWhile_id)
qed

lemma parse_fraction_written:
  assumes "0 \<le> ns" and "ns < second"
  shows "parse_fraction (fraction ns @ ''Z'') = (ns, ''Z'')"
proof (cases "ns = 0")
  case True
  then show ?thesis by (simp add: fraction_def parse_fraction_def)
next
  case False
  define f where "f = rev (dropWhile (\<lambda>c. c = CHR ''0'') (rev (pad 9 ns)))"
  have "ns < 10 ^ 9" using assms by (simp add: second_def)
  note p = pad_props [OF assms(1) this]
  have f: "f @ replicate (9 - length f) CHR ''0'' = pad 9 ns"
    using rev_dropWhile_zeros [of "CHR ''0''" "pad 9 ns"] p by (simp add: f_def)
  then have len: "length f \<le> 9" using p(1) by (metis length_append le_add1 zero_less_numeral)
  have dig: "list_all is_digit f" using p(2) f by (metis list_all_append zero_less_numeral)
  have val: "digits_val 0 f * 10 ^ (9 - length f) = ns"
    using p(3) by (simp add: f [symmetric] digits_val_append digits_val_zeros)
  with False have "f \<noteq> []" by auto
  then obtain c cs where c: "f = c # cs" by (cases f) auto
  have nz: "\<not> is_digit CHR ''Z''" by (simp add: is_digit_def)
  have tw: "takeWhile is_digit (f @ ''Z'') = f" "dropWhile is_digit (f @ ''Z'') = ''Z''"
    using dig nz by (auto simp: list_all_iff takeWhile_append2 dropWhile_append2)
  have "parse_fraction (''.'' @ f @ ''Z'')
      = (digits_val 0 (take 9 f) * 10 ^ (9 - length (take 9 f)), ''Z'')"
    using dig c tw by (simp add: parse_fraction_def)
  then show ?thesis using len val False by (simp add: fraction_def f_def)
qed

lemma parse_date_written:
  assumes "civil_of_days z = (y, m, d)" and "0 \<le> y" and "y \<le> 9999"
  shows "parse_date (pad 4 y @ ''-'' @ pad 2 m @ ''-'' @ pad 2 d @ s) = Some z"
    and "length (pad 4 y @ ''-'' @ pad 2 m @ ''-'' @ pad 2 d) = 10"
proof -
  note c = civil_of_days_correct [OF assms(1)]
  have d: "d \<le> 31" using c(5) by (auto simp: days_in_def split: if_splits)
  have l: "length (pad 4 y) = 4" "length (pad 2 m) = 2" "length (pad 2 d) = 2"
    using assms c d by (simp_all add: pad_props)
  then show "length (pad 4 y @ ''-'' @ pad 2 m @ ''-'' @ pad 2 d) = 10" by simp
  have "parseUint (pad 4 y) 0 9999 = Some y" "parseUint (pad 2 m) 1 12 = Some m"
    "parseUint (pad 2 d) 1 (days_in y m) = Some d"
    using assms c d by (simp_all add: parseUint_pad)
  with l c(1) show "parse_date (pad 4 y @ ''-'' @ pad 2 m @ ''-'' @ pad 2 d @ s) = Some z"
    by (simp add: parse_date_def nth_append)
qed

lemma parse_clock_written:
  assumes "0 \<le> s" and "s < 86400"
  shows "parse_clock (pad 2 (s div 3600) @ '':'' @ pad 2 (s div 60 mod 60) @ '':'' @ pad 2 (s mod 60) @ r) = Some s"
    and "length (pad 2 (s div 3600) @ '':'' @ pad 2 (s div 60 mod 60) @ '':'' @ pad 2 (s mod 60)) = 8"
proof -
  have b: "0 \<le> s div 3600" "s div 3600 \<le> 23" "0 \<le> s div 60 mod 60" "s div 60 mod 60 \<le> 59" "0 \<le> s mod 60" "s mod 60 \<le> 59"
    using assms by auto
  then have l: "length (pad 2 (s div 3600)) = 2" "length (pad 2 (s div 60 mod 60)) = 2" "length (pad 2 (s mod 60)) = 2"
    by (simp_all add: pad_props)
  then show "length (pad 2 (s div 3600) @ '':'' @ pad 2 (s div 60 mod 60) @ '':'' @ pad 2 (s mod 60)) = 8" by simp
  have "parseUint (pad 2 (s div 3600)) 0 23 = Some (s div 3600)"
    "parseUint (pad 2 (s div 60 mod 60)) 0 59 = Some (s div 60 mod 60)"
    "parseUint (pad 2 (s mod 60)) 0 59 = Some (s mod 60)"
    using b by (simp_all add: parseUint_pad)
  moreover have "s div 3600 * 3600 + s div 60 mod 60 * 60 + s mod 60 = s"
  proof -
    have "s div 3600 = s div 60 div 60" by (simp flip: zdiv_zmult2_eq)
    then have "s div 3600 * 60 + s div 60 mod 60 = s div 60" by simp
    then have "(s div 3600 * 60 + s div 60 mod 60) * 60 + s mod 60 = s" by simp
    then show ?thesis by (simp add: algebra_simps)
  qed
  ultimately show "parse_clock (pad 2 (s div 3600) @ '':'' @ pad 2 (s div 60 mod 60) @ '':'' @ pad 2 (s mod 60) @ r) = Some s"
    using l by (simp add: parse_clock_def nth_append)
qed

text \<open>Every instant that can be written reads back as itself, to the nanosecond.\<close>

theorem rfc3339_roundtrip:
  assumes "text_range t"
  shows "parse_rfc3339 (rfc3339 t) = Some t"
proof -
  define secs ns where "secs = t div second" and "ns = t mod second"
  obtain y m d where c: "civil_of_days (secs div 86400) = (y, m, d)" by (metis prod_cases3)
  then have y: "0 \<le> y" "y \<le> 9999" using assms by (simp_all add: text_range_def secs_def)
  define date clock where "date = pad 4 y @ ''-'' @ pad 2 m @ ''-'' @ pad 2 d"
    and "clock = pad 2 (secs mod 86400 div 3600) @ '':'' @ pad 2 (secs mod 86400 div 60 mod 60) @ '':''
      @ pad 2 (secs mod 86400 mod 60)"
  have tx: "rfc3339 t = date @ ''T'' @ clock @ fraction ns @ ''Z''"
    using c by (simp add: rfc3339_def Let_def date_def clock_def secs_def ns_def)
  note dw = parse_date_written [OF c y]
  have s: "0 \<le> secs mod 86400" "secs mod 86400 < 86400" by simp_all
  note cw = parse_clock_written [OF s]
  have len: "length date = 10" "length clock = 8" using dw(2) cw(2) by (simp_all only: date_def clock_def)
  have "parse_date (date @ r) = Some (secs div 86400)" for r using dw(1) by (simp add: date_def)
  moreover have "parse_clock (clock @ r) = Some (secs mod 86400)" for r using cw(1) by (simp add: clock_def)
  moreover have "parse_fraction (fraction ns @ ''Z'') = (ns, ''Z'')"
    by (rule parse_fraction_written) (simp_all add: ns_def second_def)
  moreover have "parse_zone ''Z'' = Some 0" by (simp add: parse_zone_def)
  moreover have "(secs div 86400 * 86400 + secs mod 86400) * second + ns = t"
    by (simp add: secs_def ns_def)
  ultimately show ?thesis
    using len unfolding tx by (simp add: parse_rfc3339_def nth_append)
qed

lemma rfc3339_inject: "text_range s \<Longrightarrow> text_range t \<Longrightarrow> rfc3339 s = rfc3339 t \<longleftrightarrow> s = t"
  using rfc3339_roundtrip by (metis option.inject)

lemma rfc3339_examples: "rfc3339 0 = ''1970-01-01T00:00:00Z''"
  "rfc3339 (1709210096 * second + 50000000) = ''2024-02-29T12:34:56.05Z''"
  "parse_rfc3339 ''2024-02-29T14:04:56.05+01:30'' = Some (1709210096 * second + 50000000)"
  "parse_rfc3339 ''2023-02-29T12:34:56Z'' = None"
  by code_simp+

end
