(* ===== verification/Events.thy ===== *)
theory Events
  imports TimeText
begin

text \<open>
  The events of \<open>shared/events/events.go\<close> and what \<open>encoding/json\<close> makes of them.

  JSON is modelled after lexing: a document is a value tree, objects keep the order and the
  duplicates of their members, a number is its literal. A string literal that reads as an RFC
  3339 instant is \<open>JTime\<close> with its text and its value; \<open>reread\<close> is what the reader makes of a
  document when it has the texts only. A body that is not JSON at all is \<open>None\<close> of type
  \<open>json option\<close>. Decoding follows \<open>encoding/json\<close>: members are taken in
  order, a name matches a field exactly or else ignoring ASCII case, unknown members are skipped,
  \<open>null\<close> leaves a non-pointer field alone, and a value of the wrong type is an error.
\<close>

datatype json =
    JNull
  | JBool bool
  | JNum string
  | JStr string
  | JTime string time
  | JArr "json list"
  | JObj "(string \<times> json) list"

section \<open>Decoding structs\<close>

definition lower :: "char \<Rightarrow> char" where
  "lower c = (let n = of_char c :: nat in if 65 \<le> n \<and> n \<le> 90 then char_of (n + 32) else c)"

definition fold_eq :: "string \<Rightarrow> string \<Rightarrow> bool" where
  "fold_eq a b \<longleftrightarrow> map lower a = map lower b"

text \<open>A field is its JSON name and how a value is stored into the struct \<open>'r\<close>.\<close>

type_synonym 'r field = "string \<times> (json \<Rightarrow> 'r \<Rightarrow> 'r option)"

definition find_field :: "'r field list \<Rightarrow> string \<Rightarrow> (json \<Rightarrow> 'r \<Rightarrow> 'r option) option" where
  "find_field fs k =
     (case map_of fs k of
        Some f \<Rightarrow> Some f
      | None \<Rightarrow> map_option snd (find (\<lambda>(n, f). fold_eq n k) fs))"

fun decode_members :: "'r field list \<Rightarrow> (string \<times> json) list \<Rightarrow> 'r \<Rightarrow> 'r option" where
  "decode_members fs [] r = Some r"
| "decode_members fs ((k, v) # ms) r =
     (case find_field fs k of
        None \<Rightarrow> decode_members fs ms r
      | Some setter \<Rightarrow> (case setter v r of None \<Rightarrow> None | Some r' \<Rightarrow> decode_members fs ms r'))"

fun decode_struct :: "'r field list \<Rightarrow> 'r \<Rightarrow> json \<Rightarrow> 'r option" where
  "decode_struct fs z (JObj ms) = decode_members fs ms z"
| "decode_struct fs z JNull = Some z"
| "decode_struct fs z j = None"

text \<open>\<open>json.Unmarshal\<close> of a body: \<open>None\<close> is a syntax error.\<close>

definition Unmarshal :: "'r field list \<Rightarrow> 'r \<Rightarrow> json option \<Rightarrow> 'r option" where
  "Unmarshal fs z body = (case body of None \<Rightarrow> None | Some j \<Rightarrow> decode_struct fs z j)"

fun set_string :: "(string \<Rightarrow> 'r \<Rightarrow> 'r) \<Rightarrow> json \<Rightarrow> 'r \<Rightarrow> 'r option" where
  "set_string upd (JStr s) r = Some (upd s r)"
| "set_string upd (JTime s t) r = Some (upd s r)"
| "set_string upd JNull r = Some r"
| "set_string upd j r = None"

fun set_int :: "(int \<Rightarrow> 'r \<Rightarrow> 'r) \<Rightarrow> json \<Rightarrow> 'r \<Rightarrow> 'r option" where
  "set_int upd (JNum l) r = (case Atoi l of None \<Rightarrow> None | Some n \<Rightarrow> Some (upd n r))"
| "set_int upd JNull r = Some r"
| "set_int upd j r = None"

fun set_bool :: "(bool \<Rightarrow> 'r \<Rightarrow> 'r) \<Rightarrow> json \<Rightarrow> 'r \<Rightarrow> 'r option" where
  "set_bool upd (JBool b) r = Some (upd b r)"
| "set_bool upd JNull r = Some r"
| "set_bool upd j r = None"

fun set_time :: "(time \<Rightarrow> 'r \<Rightarrow> 'r) \<Rightarrow> json \<Rightarrow> 'r \<Rightarrow> 'r option" where
  "set_time upd (JTime s t) r = Some (upd t r)"
| "set_time upd JNull r = Some r"
| "set_time upd j r = None"

fun set_time_ptr :: "(time option \<Rightarrow> 'r \<Rightarrow> 'r) \<Rightarrow> json \<Rightarrow> 'r \<Rightarrow> 'r option" where
  "set_time_ptr upd (JTime s t) r = Some (upd (Some t) r)"
| "set_time_ptr upd JNull r = Some (upd None r)"
| "set_time_ptr upd j r = None"

section \<open>Encoding\<close>

definition json_time :: "time \<Rightarrow> json" where
  "json_time t = JTime (rfc3339 t) t"

text \<open>A document as its reader finds it: from the text of each string literal.\<close>

definition read_literal :: "string \<Rightarrow> json" where
  "read_literal s = (case parse_rfc3339 s of None \<Rightarrow> JStr s | Some t \<Rightarrow> JTime s t)"

primrec reread :: "json \<Rightarrow> json" where
  "reread JNull = JNull"
| "reread (JBool b) = JBool b"
| "reread (JNum l) = JNum l"
| "reread (JStr s) = read_literal s"
| "reread (JTime s t) = read_literal s"
| "reread (JArr js) = JArr (map reread js)"
| "reread (JObj ms) = JObj (map (map_prod id reread) ms)"

definition json_int :: "int \<Rightarrow> json" where
  "json_int n = JNum (Itoa n)"

text \<open>Members with \<open>omitempty\<close>.\<close>

definition opt_time :: "string \<Rightarrow> time option \<Rightarrow> (string \<times> json) list" where
  "opt_time k t = (case t of None \<Rightarrow> [] | Some t \<Rightarrow> [(k, json_time t)])"

definition opt_string :: "string \<Rightarrow> string \<Rightarrow> (string \<times> json) list" where
  "opt_string k s = (if s = '''' then [] else [(k, JStr s)])"

section \<open>The events\<close>

datatype EventType = EventTypeURLCreated | EventTypeURLClicked | EventTypeURLDeleted
  | EventTypeMilestoneReached

fun event_name :: "EventType \<Rightarrow> string" where
  "event_name EventTypeURLCreated = ''url.created''"
| "event_name EventTypeURLClicked = ''url.clicked''"
| "event_name EventTypeURLDeleted = ''url.deleted''"
| "event_name EventTypeMilestoneReached = ''milestone.reached''"

record BaseEvent =
  be_EventType :: string
  be_OccurredAt :: time
  be_CorrelationID :: string
  be_EventID :: string

text \<open>\<open>NewBaseEvent\<close>; the fresh UUID and the clock are arguments.\<close>

definition NewBaseEvent :: "time \<Rightarrow> string \<Rightarrow> EventType \<Rightarrow> string \<Rightarrow> BaseEvent" where
  "NewBaseEvent now uuid eventType correlationID =
     \<lparr>be_EventType = event_name eventType, be_OccurredAt = now, be_CorrelationID = correlationID,
      be_EventID = uuid\<rparr>"

text \<open>Each event embeds a \<open>BaseEvent\<close>: its fields are members of the same JSON object.\<close>

record URLCreatedEvent = BaseEvent +
  uc_ShortCode :: string
  uc_OriginalURL :: string
  uc_UserID :: string
  uc_UserEmail :: string
  uc_ExpiresAt :: "time option"

record URLClickedEvent = BaseEvent +
  ck_ShortCode :: string
  ck_UserID :: string
  ck_UserEmail :: string
  ck_IPHash :: string
  ck_UserAgent :: string
  ck_Referer :: string
  ck_ClickedAt :: time

record URLDeletedEvent = BaseEvent +
  ud_ShortCode :: string
  ud_UserID :: string
  ud_UserEmail :: string

record MilestoneReachedEvent = BaseEvent +
  mr_ShortCode :: string
  mr_UserID :: string
  mr_UserEmail :: string
  mr_MilestoneN :: int
  mr_TotalClicks :: int

text \<open>The Go zero time, where decoding starts from.\<close>

definition zero_instant :: time where
  "zero_instant = - 62135596800 * second"

definition zero_base :: BaseEvent where
  "zero_base = \<lparr>be_EventType = '''', be_OccurredAt = zero_instant, be_CorrelationID = '''', be_EventID = ''''\<rparr>"

definition base_members :: "'a BaseEvent_scheme \<Rightarrow> (string \<times> json) list" where
  "base_members e =
     [(''event_type'', JStr (be_EventType e)), (''occurred_at'', json_time (be_OccurredAt e)),
      (''correlation_id'', JStr (be_CorrelationID e)), (''event_id'', JStr (be_EventID e))]"

definition base_fields :: "'a BaseEvent_scheme field list" where
  "base_fields =
     [(''event_type'', set_string (\<lambda>s e. e\<lparr>be_EventType := s\<rparr>)),
      (''occurred_at'', set_time (\<lambda>t e. e\<lparr>be_OccurredAt := t\<rparr>)),
      (''correlation_id'', set_string (\<lambda>s e. e\<lparr>be_CorrelationID := s\<rparr>)),
      (''event_id'', set_string (\<lambda>s e. e\<lparr>be_EventID := s\<rparr>))]"

definition json_URLCreated :: "URLCreatedEvent \<Rightarrow> json" where
  "json_URLCreated e = JObj (base_members e @
     [(''short_code'', JStr (uc_ShortCode e)), (''original_url'', JStr (uc_OriginalURL e)),
      (''user_id'', JStr (uc_UserID e)), (''user_email'', JStr (uc_UserEmail e))]
     @ opt_time ''expires_at'' (uc_ExpiresAt e))"

definition URLCreated_fields :: "URLCreatedEvent field list" where
  "URLCreated_fields = base_fields @
     [(''short_code'', set_string (\<lambda>s e. e\<lparr>uc_ShortCode := s\<rparr>)),
      (''original_url'', set_string (\<lambda>s e. e\<lparr>uc_OriginalURL := s\<rparr>)),
      (''user_id'', set_string (\<lambda>s e. e\<lparr>uc_UserID := s\<rparr>)),
      (''user_email'', set_string (\<lambda>s e. e\<lparr>uc_UserEmail := s\<rparr>)),
      (''expires_at'', set_time_ptr (\<lambda>t e. e\<lparr>uc_ExpiresAt := t\<rparr>))]"

definition zero_URLCreated :: URLCreatedEvent where
  "zero_URLCreated = BaseEvent.extend zero_base (URLCreatedEvent.fields '''' '''' '''' '''' None)"

definition json_URLClicked :: "URLClickedEvent \<Rightarrow> json" where
  "json_URLClicked e = JObj (base_members e @
     [(''short_code'', JStr (ck_ShortCode e)), (''user_id'', JStr (ck_UserID e)),
      (''user_email'', JStr (ck_UserEmail e)), (''ip_hash'', JStr (ck_IPHash e)),
      (''user_agent'', JStr (ck_UserAgent e))]
     @ opt_string ''referer'' (ck_Referer e) @ [(''clicked_at'', json_time (ck_ClickedAt e))])"

definition URLClicked_fields :: "URLClickedEvent field list" where
  "URLClicked_fields = base_fields @
     [(''short_code'', set_string (\<lambda>s e. e\<lparr>ck_ShortCode := s\<rparr>)),
      (''user_id'', set_string (\<lambda>s e. e\<lparr>ck_UserID := s\<rparr>)),
      (''user_email'', set_string (\<lambda>s e. e\<lparr>ck_UserEmail := s\<rparr>)),
      (''ip_hash'', set_string (\<lambda>s e. e\<lparr>ck_IPHash := s\<rparr>)),
      (''user_agent'', set_string (\<lambda>s e. e\<lparr>ck_UserAgent := s\<rparr>)),
      (''referer'', set_string (\<lambda>s e. e\<lparr>ck_Referer := s\<rparr>)),
      (''clicked_at'', set_time (\<lambda>t e. e\<lparr>ck_ClickedAt := t\<rparr>))]"

definition zero_URLClicked :: URLClickedEvent where
  "zero_URLClicked = BaseEvent.extend zero_base
     (URLClickedEvent.fields '''' '''' '''' '''' '''' '''' zero_instant)"

definition json_URLDeleted :: "URLDeletedEvent \<Rightarrow> json" where
  "json_URLDeleted e = JObj (base_members e @
     [(''short_code'', JStr (ud_ShortCode e)), (''user_id'', JStr (ud_UserID e)),
      (''user_email'', JStr (ud_UserEmail e))])"

definition URLDeleted_fields :: "URLDeletedEvent field list" where
  "URLDeleted_fields = base_fields @
     [(''short_code'', set_string (\<lambda>s e. e\<lparr>ud_ShortCode := s\<rparr>)),
      (''user_id'', set_string (\<lambda>s e. e\<lparr>ud_UserID := s\<rparr>)),
      (''user_email'', set_string (\<lambda>s e. e\<lparr>ud_UserEmail := s\<rparr>))]"

definition zero_URLDeleted :: URLDeletedEvent where
  "zero_URLDeleted = BaseEvent.extend zero_base (URLDeletedEvent.fields '''' '''' '''')"

definition json_Milestone :: "MilestoneReachedEvent \<Rightarrow> json" where
  "json_Milestone e = JObj (base_members e @
     [(''short_code'', JStr (mr_ShortCode e)), (''user_id'', JStr (mr_UserID e)),
      (''user_email'', JStr (mr_UserEmail e)), (''milestone'', json_int (mr_MilestoneN e)),
      (''total_clicks'', json_int (mr_TotalClicks e))])"

definition Milestone_fields :: "MilestoneReachedEvent field list" where
  "Milestone_fields = base_fields @
     [(''short_code'', set_string (\<lambda>s e. e\<lparr>mr_ShortCode := s\<rparr>)),
      (''user_id'', set_string (\<lambda>s e. e\<lparr>mr_UserID := s\<rparr>)),
      (''user_email'', set_string (\<lambda>s e. e\<lparr>mr_UserEmail := s\<rparr>)),
      (''milestone'', set_int (\<lambda>n e. e\<lparr>mr_MilestoneN := n\<rparr>)),
      (''total_clicks'', set_int (\<lambda>n e. e\<lparr>mr_TotalClicks := n\<rparr>))]"

definition zero_Milestone :: MilestoneReachedEvent where
  "zero_Milestone = BaseEvent.extend zero_base (MilestoneReachedEvent.fields '''' '''' '''' 0 0)"

section \<open>Round trips\<close>

lemmas event_codec =
  base_members_def base_fields_def json_URLCreated_def URLCreated_fields_def json_URLClicked_def
  URLClicked_fields_def json_URLDeleted_def URLDeleted_fields_def json_Milestone_def
  Milestone_fields_def opt_time_def opt_string_def json_time_def json_int_def find_field_def
  Unmarshal_def

lemmas zero_events = zero_base_def zero_URLCreated_def zero_URLClicked_def zero_URLDeleted_def
  zero_Milestone_def BaseEvent.defs URLCreatedEvent.defs URLClickedEvent.defs URLDeletedEvent.defs
  MilestoneReachedEvent.defs

lemma URLCreated_decode: "Unmarshal URLCreated_fields zero_URLCreated (Some (json_URLCreated c)) = Some c"
  by (cases c) (simp add: event_codec zero_events split: option.splits)

lemma URLClicked_decode: "Unmarshal URLClicked_fields zero_URLClicked (Some (json_URLClicked e)) = Some e"
  by (cases e) (simp add: event_codec zero_events)

lemma URLDeleted_decode: "Unmarshal URLDeleted_fields zero_URLDeleted (Some (json_URLDeleted d)) = Some d"
  by (cases d) (simp add: event_codec zero_events)

lemma Milestone_decode:
  "in_i64 (mr_MilestoneN m) \<Longrightarrow> in_i64 (mr_TotalClicks m) \<Longrightarrow>
   Unmarshal Milestone_fields zero_Milestone (Some (json_Milestone m)) = Some m"
  by (cases m) (simp add: event_codec zero_events Atoi_Itoa)

text \<open>The same from the text.\<close>

lemma reread_string: "set_string upd (reread (JStr s)) r = Some (upd s r)"
  by (simp add: read_literal_def split: option.split)

lemma reread_time: "text_range t \<Longrightarrow> reread (JTime (rfc3339 t) t) = JTime (rfc3339 t) t"
  by (simp add: read_literal_def rfc3339_roundtrip)

lemmas event_text = event_codec zero_events reread_string reread_time


definition dated :: "'a BaseEvent_scheme \<Rightarrow> 'a BaseEvent_scheme" where
  "dated e = e\<lparr>be_OccurredAt := 1709210096 * second + 50000000, be_CorrelationID := ''2024-02-29T12:34:56Z''\<rparr>"


end
