(* ===== verification/UrlStore.thy ===== *)
theory UrlStore
  imports Keyset Events
begin

text \<open>
  The tables of url-service (\<open>migration.sql\<close>) and the statements run on them: \<open>store.go\<close> and
  \<open>outbox_store.go\<close>.

  A table is the list of its rows in insertion order. A statement that returns an error leaves
  the tables alone. Each has an argument \<open>fault\<close>: an error that the server or the driver reports
  for reasons outside the rows (connection, timeout, a done context, text that is not UTF-8);
  the constraint and cast errors that the rows and arguments decide are computed. Postgres's
  reading of a UUID literal is the parameter \<open>U\<close>: \<open>U s\<close> is the canonical text of \<open>s\<close>, or \<open>None\<close>
  for text that is no UUID; the order of UUIDs is the order of their canonical texts. A
  \<open>TIMESTAMPTZ\<close> holds microseconds. The server's \<open>now()\<close> is the argument \<open>dbnow\<close>.
\<close>

section \<open>Rows, tables, errors\<close>

record URLRecord =
  ur_ID :: string
  ur_ShortCode :: string
  ur_OriginalURL :: string
  ur_UserID :: string
  ur_UserEmail :: string
  ur_CreatedAt :: time
  ur_ExpiresAt :: "time option"
  ur_IsActive :: bool

record OutboxRecord =
  ob_ID :: string
  ob_EventType :: string
  ob_Payload :: json
  ob_CreatedAt :: time
  ob_LockedUntil :: "time option"
  ob_PublishedAt :: "time option"

record urldb =
  urls :: "URLRecord list"
  outbox :: "OutboxRecord list"

text \<open>A Postgres error with its SQLSTATE, \<open>pgx.ErrNoRows\<close>, any other error of the driver.\<close>

datatype dberr = PgError string | NoRows | DbFault

definition unique_violation :: dberr where "unique_violation = PgError ''23505''"
definition string_too_long :: dberr where "string_too_long = PgError ''22001''"
definition bad_uuid :: dberr where "bad_uuid = PgError ''22P02''"
definition bad_limit :: dberr where "bad_limit = PgError ''2201W''"

lemmas dberr_defs = unique_violation_def string_too_long_def bad_uuid_def bad_limit_def

section \<open>URL statements\<close>

text \<open>\<open>INSERT INTO urls\<close>: \<open>id\<close> is the primary key, \<open>short_code\<close> is \<open>VARCHAR(10) UNIQUE\<close>,
  both id columns are \<open>UUID\<close>.\<close>

definition Insert :: "uuid_in \<Rightarrow> dberr option \<Rightarrow> URLRecord \<Rightarrow> urldb \<Rightarrow> dberr + urldb" where
  "Insert U fault r db =
     (case fault of Some e \<Rightarrow> Inl e
      | None \<Rightarrow>
        (case (U (ur_ID r), U (ur_UserID r)) of
           (Some i, Some u) \<Rightarrow>
             if length (ur_ShortCode r) > 10 then Inl string_too_long
             else if \<exists>x \<in> set (urls db). ur_ID x = i \<or> ur_ShortCode x = ur_ShortCode r
             then Inl unique_violation
             else Inr (db\<lparr>urls := urls db @
               [r\<lparr>ur_ID := i, ur_UserID := u, ur_CreatedAt := timestamptz (ur_CreatedAt r),
                  ur_ExpiresAt := map_option timestamptz (ur_ExpiresAt r)\<rparr>]\<rparr>)
         | _ \<Rightarrow> Inl bad_uuid))"

text \<open>\<open>QueryRow(..).Scan(..)\<close> reports no row as \<open>ErrNoRows\<close>; \<open>FindByCode\<close> turns that into
  \<open>(nil, nil)\<close>.\<close>

definition FindByCode :: "dberr option \<Rightarrow> string \<Rightarrow> urldb \<Rightarrow> dberr + URLRecord option" where
  "FindByCode fault shortCode db =
     (case (case fault of Some e \<Rightarrow> Inl e
            | None \<Rightarrow> (case find (\<lambda>r. ur_ShortCode r = shortCode) (urls db) of
                 None \<Rightarrow> Inl NoRows | Some r \<Rightarrow> Inr r)) of
        Inl NoRows \<Rightarrow> Inr None
      | Inl e \<Rightarrow> Inl e
      | Inr r \<Rightarrow> Inr (Some r))"

definition listed :: "time \<Rightarrow> string \<Rightarrow> URLRecord \<Rightarrow> bool" where
  "listed dbnow u r \<longleftrightarrow> ur_UserID r = u \<and> ur_IsActive r
     \<and> (case ur_ExpiresAt r of None \<Rightarrow> True | Some t \<Rightarrow> dbnow < t)"

definition FindByUserID :: "uuid_in \<Rightarrow> dberr option \<Rightarrow> time \<Rightarrow> string \<Rightarrow> string \<Rightarrow> int \<Rightarrow> urldb
    \<Rightarrow> dberr + URLRecord list" where
  "FindByUserID U fault dbnow userID afterID limit db =
     (let fetchLimit = i64 (limit + 1) in
      case fault of Some e \<Rightarrow> Inl e
      | None \<Rightarrow>
        if afterID \<noteq> '''' then
          (case (U userID, U afterID) of
             (Some u, Some a) \<Rightarrow>
               if fetchLimit < 0 then Inl bad_limit
               else Inr (take (nat fetchLimit) (sort_desc ur_ID
                 (filter (\<lambda>r. listed dbnow u r \<and> ur_ID r < a) (urls db))))
           | _ \<Rightarrow> Inl bad_uuid)
        else
          (case U userID of
             Some u \<Rightarrow>
               if fetchLimit < 0 then Inl bad_limit
               else Inr (take (nat fetchLimit) (sort_desc ur_ID (filter (listed dbnow u) (urls db))))
           | None \<Rightarrow> Inl bad_uuid))"

definition owned_active :: "string \<Rightarrow> string \<Rightarrow> URLRecord \<Rightarrow> bool" where
  "owned_active shortCode u r \<longleftrightarrow> ur_ShortCode r = shortCode \<and> ur_UserID r = u \<and> ur_IsActive r"

definition Deactivate :: "uuid_in \<Rightarrow> dberr option \<Rightarrow> string \<Rightarrow> string \<Rightarrow> urldb \<Rightarrow> dberr + urldb" where
  "Deactivate U fault shortCode userID db =
     (case fault of Some e \<Rightarrow> Inl e
      | None \<Rightarrow>
        (case U userID of
           None \<Rightarrow> Inl bad_uuid
         | Some u \<Rightarrow>
             if rows_affected (owned_active shortCode u) (urls db) = 0 then Inl NoRows
             else Inr (db\<lparr>urls :=
               update_where (owned_active shortCode u) (\<lambda>r. r\<lparr>ur_IsActive := False\<rparr>) (urls db)\<rparr>)))"

section \<open>Outbox statements\<close>

text \<open>\<open>InsertEvent\<close> runs on the transaction it is given or, with none, on the pool; the effect on
  the tables it is run on is the same. \<open>JSONB\<close> keeps a document's members up to order, on which
  no reader depends.\<close>

definition InsertEvent :: "uuid_in \<Rightarrow> dberr option \<Rightarrow> OutboxRecord \<Rightarrow> urldb \<Rightarrow> dberr + urldb" where
  "InsertEvent U fault b db =
     (case fault of Some e \<Rightarrow> Inl e
      | None \<Rightarrow>
        (case U (ob_ID b) of
           None \<Rightarrow> Inl bad_uuid
         | Some i \<Rightarrow>
             if \<exists>x \<in> set (outbox db). ob_ID x = i then Inl unique_violation
             else Inr (db\<lparr>outbox := outbox db @
               [b\<lparr>ob_ID := i, ob_CreatedAt := timestamptz (ob_CreatedAt b), ob_LockedUntil := None,
                  ob_PublishedAt := None\<rparr>]\<rparr>)))"

text \<open>The claim query: the oldest unpublished rows whose lease is absent or over, rows that another
  transaction holds locked skipped, get a lease of 30 seconds. SQL leaves the order of rows
  with equal \<open>created_at\<close> open; here it is insertion order.\<close>

definition claimable :: "time \<Rightarrow> OutboxRecord \<Rightarrow> bool" where
  "claimable dbnow b \<longleftrightarrow> ob_PublishedAt b = None
     \<and> (case ob_LockedUntil b of None \<Rightarrow> True | Some t \<Rightarrow> t < dbnow)"

definition lease :: duration where "lease = 30 * second"

definition claimed_rows :: "time \<Rightarrow> (string \<Rightarrow> bool) \<Rightarrow> nat \<Rightarrow> urldb \<Rightarrow> OutboxRecord list" where
  "claimed_rows dbnow locked limit db = take limit (sort_key ob_CreatedAt
     (filter (\<lambda>b. claimable dbnow b \<and> \<not> locked (ob_ID b)) (outbox db)))"

definition FetchUnpublished :: "dberr option \<Rightarrow> time \<Rightarrow> (string \<Rightarrow> bool) \<Rightarrow> nat \<Rightarrow> urldb
    \<Rightarrow> (dberr + OutboxRecord list) \<times> urldb" where
  "FetchUnpublished fault dbnow locked limit db =
     (case fault of Some e \<Rightarrow> (Inl e, db)
      | None \<Rightarrow>
        let claimed = claimed_rows dbnow locked limit db;
            lock = (\<lambda>b. b\<lparr>ob_LockedUntil := Some (timestamptz (dbnow + lease))\<rparr>)
        in (Inr (map lock claimed),
            db\<lparr>outbox := update_where (\<lambda>b. ob_ID b \<in> set (map ob_ID claimed)) lock (outbox db)\<rparr>))"

definition open_row :: "string \<Rightarrow> OutboxRecord \<Rightarrow> bool" where
  "open_row i b \<longleftrightarrow> ob_ID b = i \<and> ob_PublishedAt b = None"

definition MarkPublished :: "uuid_in \<Rightarrow> dberr option \<Rightarrow> time \<Rightarrow> string \<Rightarrow> urldb \<Rightarrow> dberr option \<times> urldb" where
  "MarkPublished U fault dbnow i db =
     (case fault of Some e \<Rightarrow> (Some e, db)
      | None \<Rightarrow>
        (case U i of
           None \<Rightarrow> (Some bad_uuid, db)
         | Some i \<Rightarrow>
             if rows_affected (open_row i) (outbox db) = 0 then (Some NoRows, db)
             else (None, db\<lparr>outbox := update_where (open_row i)
               (\<lambda>b. b\<lparr>ob_PublishedAt := Some (timestamptz dbnow), ob_LockedUntil := None\<rparr>) (outbox db)\<rparr>)))"

section \<open>The schema's constraints\<close>

definition table_inv :: "uuid_in \<Rightarrow> urldb \<Rightarrow> bool" where
  "table_inv U db \<longleftrightarrow>
     distinct (map ur_ID (urls db)) \<and> distinct (map ur_ShortCode (urls db)) \<and>
     distinct (map ob_ID (outbox db)) \<and>
     (\<forall>r \<in> set (urls db). U (ur_ID r) = Some (ur_ID r) \<and> U (ur_UserID r) = Some (ur_UserID r)
        \<and> length (ur_ShortCode r) \<le> 10 \<and> map_option timestamptz (ur_ExpiresAt r) = ur_ExpiresAt r) \<and>
     (\<forall>b \<in> set (outbox db). U (ob_ID b) = Some (ob_ID b))"

definition empty_db :: urldb where "empty_db = \<lparr>urls = [], outbox = []\<rparr>"

lemma table_inv_empty [simp]: "table_inv U empty_db"
  by (simp add: table_inv_def empty_db_def)

lemma Insert_Inr:
  assumes "Insert U fault r db = Inr db'"
  obtains i u where "fault = None" "U (ur_ID r) = Some i" "U (ur_UserID r) = Some u"
    "length (ur_ShortCode r) \<le> 10" "i \<notin> ur_ID ` set (urls db)"
    "ur_ShortCode r \<notin> ur_ShortCode ` set (urls db)"
    "db' = db\<lparr>urls := urls db @
       [r\<lparr>ur_ID := i, ur_UserID := u, ur_CreatedAt := timestamptz (ur_CreatedAt r),
          ur_ExpiresAt := map_option timestamptz (ur_ExpiresAt r)\<rparr>]\<rparr>"
proof -
  from assms obtain i u where "fault = None" "U (ur_ID r) = Some i" "U (ur_UserID r) = Some u"
    and c: "\<not> length (ur_ShortCode r) > 10"
      "\<not> (\<exists>x \<in> set (urls db). ur_ID x = i \<or> ur_ShortCode x = ur_ShortCode r)"
    and db: "db' = db\<lparr>urls := urls db @
       [r\<lparr>ur_ID := i, ur_UserID := u, ur_CreatedAt := timestamptz (ur_CreatedAt r),
          ur_ExpiresAt := map_option timestamptz (ur_ExpiresAt r)\<rparr>]\<rparr>"
    unfolding Insert_def by (auto split: option.splits if_splits)
  moreover from c have "length (ur_ShortCode r) \<le> 10" "i \<notin> ur_ID ` set (urls db)"
    "ur_ShortCode r \<notin> ur_ShortCode ` set (urls db)" by auto
  ultimately show ?thesis by (intro that)
qed

lemma InsertEvent_Inr:
  assumes "InsertEvent U fault b db = Inr db'"
  obtains i where "fault = None" "U (ob_ID b) = Some i" "i \<notin> ob_ID ` set (outbox db)"
    "db' = db\<lparr>outbox := outbox db @
       [b\<lparr>ob_ID := i, ob_CreatedAt := timestamptz (ob_CreatedAt b), ob_LockedUntil := None,
          ob_PublishedAt := None\<rparr>]\<rparr>"
  using assms unfolding InsertEvent_def by (auto split: option.splits if_splits)

lemma Deactivate_Inr:
  assumes "Deactivate U fault code userID db = Inr db'"
  obtains u where "fault = None" "U userID = Some u" "\<exists>r \<in> set (urls db). owned_active code u r"
    "db' = db\<lparr>urls := update_where (owned_active code u) (\<lambda>r. r\<lparr>ur_IsActive := False\<rparr>) (urls db)\<rparr>"
  using assms unfolding Deactivate_def by (auto simp: row_simps split: option.splits if_splits)

lemma Insert_table_inv:
  assumes "uuid_laws U" and "table_inv U db" and "Insert U fault r db = Inr db'"
  shows "table_inv U db'"
  using assms(3)
  by (rule Insert_Inr) (use assms(1,2) in \<open>auto simp: table_inv_def uuid_laws_def option.map_comp comp_def\<close>)

lemma InsertEvent_table_inv:
  assumes "uuid_laws U" and "table_inv U db" and "InsertEvent U fault b db = Inr db'"
  shows "table_inv U db'"
  using assms(3)
  by (rule InsertEvent_Inr) (use assms(1,2) in \<open>auto simp: table_inv_def uuid_laws_def\<close>)

lemma Deactivate_table_inv:
  assumes "table_inv U db" and "Deactivate U fault code userID db = Inr db'"
  shows "table_inv U db'"
  using assms(2)
  by (rule Deactivate_Inr)
     (use assms(1) in \<open>auto simp: table_inv_def row_simps\<close>)

lemma FetchUnpublished_table_inv:
  "table_inv U db \<Longrightarrow> table_inv U (snd (FetchUnpublished fault dbnow locked limit db))"
  by (auto simp: table_inv_def FetchUnpublished_def Let_def row_simps
      split: option.splits)

lemma MarkPublished_table_inv:
  "table_inv U db \<Longrightarrow> table_inv U (snd (MarkPublished U fault dbnow i db))"
  by (auto simp: table_inv_def MarkPublished_def row_simps
      split: option.splits)

section \<open>What the statements find\<close>

lemma FindByCode_row:
  assumes "table_inv U db" and "r \<in> set (urls db)"
  shows "FindByCode None (ur_ShortCode r) db = Inr (Some r)"
  using find_unique [of ur_ShortCode "urls db" r] assms by (simp add: table_inv_def FindByCode_def)

lemma FindByCode_missing:
  assumes "code \<notin> ur_ShortCode ` set (urls db)"
  shows "FindByCode None code db = Inr None"
proof -
  from assms have "find (\<lambda>r. ur_ShortCode r = code) (urls db) = None"
    by (auto simp: find_None_iff_all)
  then show ?thesis by (simp add: FindByCode_def)
qed

end
