(* ===== verification/UrlCache.thy ===== *)
theory UrlCache
  imports Events
begin

text \<open>
  The redirect cache of url-service, \<open>cache.go\<close>: one Redis string per short code that holds the
  JSON of a \<open>CachedURL\<close>. Redis is a parameter, a record of commands on a store \<open>'c\<close>; what its
  documentation promises is \<open>kv_laws\<close>, through a view of the store as keys with a value and an
  optional deadline. A stored value is the JSON document of its bytes, \<open>None\<close> when they are no
  JSON.
\<close>

record CachedURL =
  cu_OriginalURL :: string
  cu_UserID :: string
  cu_UserEmail :: string
  cu_ExpiresAt :: "time option"
  cu_IsActive :: bool

definition json_CachedURL :: "CachedURL \<Rightarrow> json" where
  "json_CachedURL u = JObj (
     [(''original_url'', JStr (cu_OriginalURL u)), (''user_id'', JStr (cu_UserID u)),
      (''user_email'', JStr (cu_UserEmail u))]
     @ opt_time ''expires_at'' (cu_ExpiresAt u) @ [(''is_active'', JBool (cu_IsActive u))])"

definition CachedURL_fields :: "CachedURL field list" where
  "CachedURL_fields =
     [(''original_url'', set_string (\<lambda>s u. u\<lparr>cu_OriginalURL := s\<rparr>)),
      (''user_id'', set_string (\<lambda>s u. u\<lparr>cu_UserID := s\<rparr>)),
      (''user_email'', set_string (\<lambda>s u. u\<lparr>cu_UserEmail := s\<rparr>)),
      (''expires_at'', set_time_ptr (\<lambda>t u. u\<lparr>cu_ExpiresAt := t\<rparr>)),
      (''is_active'', set_bool (\<lambda>b u. u\<lparr>cu_IsActive := b\<rparr>))]"

definition zero_CachedURL :: CachedURL where
  "zero_CachedURL = \<lparr>cu_OriginalURL = '''', cu_UserID = '''', cu_UserEmail = '''', cu_ExpiresAt = None,
     cu_IsActive = False\<rparr>"

lemma CachedURL_decode: "Unmarshal CachedURL_fields zero_CachedURL (Some (json_CachedURL u)) = Some u"
  by (cases u) (simp add: json_CachedURL_def CachedURL_fields_def zero_CachedURL_def event_codec
      split: option.splits)

text \<open>A reply of \<open>GET\<close> is \<open>None\<close> for a missing key and for an error; the replies of the two
  writes are \<open>False\<close> for an error.\<close>

record 'c kv_redis =
  kv_get :: "time \<Rightarrow> string \<Rightarrow> 'c \<Rightarrow> json option option"
  kv_set :: "time \<Rightarrow> string \<Rightarrow> json \<Rightarrow> duration \<Rightarrow> 'c \<Rightarrow> bool \<times> 'c"
  kv_del :: "time \<Rightarrow> string \<Rightarrow> 'c \<Rightarrow> bool \<times> 'c"

definition cache_Get :: "'c kv_redis \<Rightarrow> time \<Rightarrow> string \<Rightarrow> 'c \<Rightarrow> CachedURL option" where
  "cache_Get R now code c =
     (case kv_get R now code c of
        None \<Rightarrow> None
      | Some data \<Rightarrow> Unmarshal CachedURL_fields zero_CachedURL data)"

definition cache_Set :: "'c kv_redis \<Rightarrow> time \<Rightarrow> string \<Rightarrow> CachedURL \<Rightarrow> duration \<Rightarrow> 'c \<Rightarrow> bool \<times> 'c" where
  "cache_Set R now code cached ttl c = kv_set R now code (json_CachedURL cached) ttl c"

definition cache_Delete :: "'c kv_redis \<Rightarrow> time \<Rightarrow> string \<Rightarrow> 'c \<Rightarrow> bool \<times> 'c" where
  "cache_Delete R now code c = kv_del R now code c"

text \<open>
  \<open>kv_laws\<close>: a reply of \<open>GET\<close> is the live value; a \<open>SET\<close> that succeeds replaces value and
  deadline, a duration of 0 meaning none and a positive one ending no later than the duration
  (or a millisecond, the shortest Redis has); \<open>DEL\<close> removes the key; a write that fails has
  taken effect or not.
\<close>

type_synonym kv_view = "string \<Rightarrow> (json option \<times> time option) option"

definition set_effect :: "time \<Rightarrow> string \<Rightarrow> json \<Rightarrow> duration \<Rightarrow> kv_view \<Rightarrow> kv_view \<Rightarrow> bool" where
  "set_effect now k v ttl w w' \<longleftrightarrow>
     (if ttl = 0 then w' = w(k \<mapsto> (Some v, None))
      else \<exists>d \<le> now + max ttl millisecond. w' = w(k \<mapsto> (Some v, Some d)))"

definition kv_laws :: "'c kv_redis \<Rightarrow> ('c \<Rightarrow> kv_view) \<Rightarrow> bool" where
  "kv_laws R view \<longleftrightarrow>
     (\<forall>now k c v. kv_get R now k c = Some v \<longrightarrow>
        (\<exists>d. view c k = Some (v, d) \<and> (case d of None \<Rightarrow> True | Some d \<Rightarrow> now < d))) \<and>
     (\<forall>now k v ttl c ok c'. 0 \<le> ttl \<longrightarrow> kv_set R now k v ttl c = (ok, c') \<longrightarrow>
        set_effect now k v ttl (view c) (view c') \<or> \<not> ok \<and> view c' = view c) \<and>
     (\<forall>now k c ok c'. kv_del R now k c = (ok, c') \<longrightarrow>
        view c' = (view c)(k := None) \<or> \<not> ok \<and> view c' = view c)"

lemma kv_get_law:
  assumes "kv_laws R view" and "kv_get R now k c = Some v"
  shows "\<exists>d. view c k = Some (v, d) \<and> (case d of None \<Rightarrow> True | Some d \<Rightarrow> now < d)"
  using assms unfolding kv_laws_def by blast

lemma kv_set_law:
  assumes "kv_laws R view" and "0 \<le> ttl" and "kv_set R now k v ttl c = (ok, c')"
  shows "set_effect now k v ttl (view c) (view c') \<or> \<not> ok \<and> view c' = view c"
  using assms unfolding kv_laws_def by blast

lemma kv_del_law:
  assumes "kv_laws R view" and "kv_del R now k c = (ok, c')"
  shows "view c' = (view c)(k := None) \<or> \<not> ok \<and> view c' = view c"
  using assms unfolding kv_laws_def by blast

lemma kv_set_view:
  assumes "kv_laws R view" and "0 \<le> ttl" and "view (snd (kv_set R now k v ttl c)) k' = Some (v', d)"
  shows "view c k' = Some (v', d) \<or> k' = k \<and> v' = Some v"
  using kv_set_law [OF assms(1,2), of now k v c] assms(3)
  by (cases "kv_set R now k v ttl c") (auto simp: set_effect_def split: if_splits)

lemma kv_del_view:
  assumes "kv_laws R view" and "view (snd (kv_del R now k c)) k' = Some (v', d)"
  shows "view c k' = Some (v', d)"
  using kv_del_law [OF assms(1), of now k c] assms(2)
  by (cases "kv_del R now k c") (auto split: if_splits)

text \<open>A cache hit is a live entry that decodes.\<close>

lemma cache_Get_Some:
  assumes "kv_laws R view" and "cache_Get R now code c = Some u"
  obtains v d where "view c code = Some (v, d)" "case d of None \<Rightarrow> True | Some d \<Rightarrow> now < d"
    "Unmarshal CachedURL_fields zero_CachedURL v = Some u"
  using assms kv_get_law [OF assms(1)] unfolding cache_Get_def
  by (auto split: option.splits) blast

text \<open>Redis as a map, for concrete runs: \<open>up\<close> tells when the server answers.\<close>

definition map_kv :: "(time \<Rightarrow> bool) \<Rightarrow> kv_view kv_redis" where
  "map_kv up = \<lparr>
     kv_get = (\<lambda>now k c. if \<not> up now then None
       else case c k of None \<Rightarrow> None | Some (v, None) \<Rightarrow> Some v
         | Some (v, Some d) \<Rightarrow> if now < d then Some v else None),
     kv_set = (\<lambda>now k v ttl c. if \<not> up now then (False, c)
       else (True, c(k \<mapsto> (Some v, if ttl = 0 then None else Some (now + max ttl millisecond))))),
     kv_del = (\<lambda>now k c. if \<not> up now then (False, c) else (True, c(k := None)))\<rparr>"

lemma map_kv_laws: "kv_laws (map_kv up) (\<lambda>c. c)"
  unfolding kv_laws_def
proof (intro conjI allI impI)
  fix now k c v assume "kv_get (map_kv up) now k c = Some v"
  then show "\<exists>d. c k = Some (v, d) \<and> (case d of None \<Rightarrow> True | Some d \<Rightarrow> now < d)"
    by (auto simp: map_kv_def split: if_splits option.splits prod.splits)
next
  fix now k v ttl c ok c' assume "kv_set (map_kv up) now k v ttl c = (ok, c')"
  then show "set_effect now k v ttl c c' \<or> \<not> ok \<and> c' = c"
    by (auto simp: map_kv_def set_effect_def split: if_splits)
next
  fix now k c ok c' assume "kv_del (map_kv up) now k c = (ok, c')"
  then show "c' = c(k := None) \<or> \<not> ok \<and> c' = c" by (auto simp: map_kv_def split: if_splits)
qed

end
