(* ===== verification/UrlService.thy ===== *)
theory UrlService
  imports UrlStore UrlCache Http
begin

text \<open>
  The operations of url-service: \<open>service.go\<close>, with \<open>utils.go\<close> and \<open>validate.go\<close>.

  The clock, fresh UUIDs and the faults of the database are arguments. \<open>pgx.BeginFunc\<close> is a
  parameter: a transaction runner takes the body (a function on the tables that fails or gives
  the new tables) and the tables, and returns the error, if any, and the tables afterwards;
  \<open>tx_laws\<close> is its documented contract, \<open>tx_ok\<close> that this call meets no fault of its own.
  A \<open>go\<close> statement adds a job to the list of spawned jobs; \<open>run_job\<close> is what the goroutine does
  when it runs.
\<close>

section \<open>Library code the service calls\<close>

record 'c us_libs =
  lib_uuid :: uuid_in
  lib_parseURL :: "string \<Rightarrow> (string \<times> string) option"
  lib_sha256 :: "string \<Rightarrow> 8 word list"
  lib_redis :: "'c kv_redis"

type_synonym tx_runner = "(urldb \<Rightarrow> dberr + urldb) \<Rightarrow> urldb \<Rightarrow> dberr option \<times> urldb"

definition tx_laws :: "tx_runner \<Rightarrow> bool" where
  "tx_laws BF \<longleftrightarrow> (\<forall>fn db db'. BF fn db = (None, db') \<longrightarrow> fn db = Inr db') \<and>
     (\<forall>fn db e db'. BF fn db = (Some e, db') \<longrightarrow> db' = db \<or> fn db = Inr db')"

definition tx_ok :: "tx_runner \<Rightarrow> bool" where
  "tx_ok BF \<longleftrightarrow> (\<forall>fn db. BF fn db = (case fn db of Inl e \<Rightarrow> (Some e, db) | Inr db' \<Rightarrow> (None, db')))"

lemma tx_ok_laws: "tx_ok BF \<Longrightarrow> tx_laws BF"
  by (auto simp: tx_ok_def tx_laws_def split: sum.splits)

lemma tx_okD: "tx_ok BF \<Longrightarrow> BF fn db = (case fn db of Inl e \<Rightarrow> (Some e, db) | Inr db' \<Rightarrow> (None, db'))"
  by (simp add: tx_ok_def)

text \<open>Whatever happens to a transaction, the tables afterwards are the old ones or the body's.\<close>

lemma tx_cases:
  assumes "tx_laws BF"
  shows "snd (BF fn db) = db \<and> fst (BF fn db) \<noteq> None \<or> fn db = Inr (snd (BF fn db))"
proof (cases "BF fn db")
  case (Pair e db')
  with assms show ?thesis by (cases e) (auto simp: tx_laws_def)
qed

lemma tx_preserves:
  assumes "tx_laws BF" and "P db" and "\<And>db'. fn db = Inr db' \<Longrightarrow> P db'"
  shows "P (snd (BF fn db))"
  using tx_cases [OF assms(1), of fn db] assms(2,3) by auto

section \<open>Helpers\<close>

text \<open>\<open>ValidateURL\<close> returns the error's text, if any.\<close>

definition ValidateURL :: "(string \<Rightarrow> (string \<times> string) option) \<Rightarrow> string \<Rightarrow> string option" where
  "ValidateURL parseURL rawURL =
     (if rawURL = '''' then Some ''URL cannot be empty''
      else (case parseURL rawURL of
              None \<Rightarrow> Some ''invalid URL format''
            | Some (scheme, host) \<Rightarrow>
                if scheme \<noteq> ''http'' \<and> scheme \<noteq> ''https'' then Some ''URL must start with http or https''
                else if host = '''' then Some ''URL must have a host''
                else None))"

definition hashIP :: "(string \<Rightarrow> 8 word list) \<Rightarrow> string \<Rightarrow> string" where
  "hashIP sha256 ipAddr =
     (let idx = LastIndexByte ipAddr CHR '':'';
          host = (if idx > 0 then take (nat idx) ipAddr else ipAddr)
      in hex_encode (sha256 host))"

record HTTPError =
  he_Status :: int
  he_Err :: string

definition ErrNotFound :: string where "ErrNotFound = ''url not found''"
definition ErrInvalidURL :: string where "ErrInvalidURL = ''invalid URL''"
definition ErrAlreadyExists :: string where "ErrAlreadyExists = ''short code already exists''"
definition ErrForbidden :: string where "ErrForbidden = ''forbidden''"
definition ErrExpired :: string where "ErrExpired = ''url has expired''"
definition ErrDeactivated :: string where "ErrDeactivated = ''url has been deactivated''"
definition ErrDatabaseError :: string where "ErrDatabaseError = ''database error''"

lemmas url_errors = ErrNotFound_def ErrInvalidURL_def ErrAlreadyExists_def ErrForbidden_def
  ErrExpired_def ErrDeactivated_def ErrDatabaseError_def

record RedirectInfo =
  ri_OriginalURL :: string
  ri_UserID :: string
  ri_UserEmail :: string
  ri_IpHash :: string

record ShortenResponse =
  sr_ShortCode :: string
  sr_ShortURL :: string
  sr_OriginalURL :: string
  sr_ExpiresAt :: time

record ListURLsResponse =
  lu_URLs :: "URLRecord list"
  lu_NextCursor :: string
  lu_HasMore :: bool

text \<open>The jobs that \<open>go\<close> statements spawn: the cache writes of \<open>ShortenURL\<close> and of
  \<open>RedirectToURL\<close>, the click event of the redirect handler.\<close>

datatype job =
    SetJob string CachedURL duration
  | FillJob string URLRecord
  | ClickJob string string string string string string

section \<open>\<open>ShortenURL\<close>\<close>

text \<open>What one attempt of the loop draws from its environment: the generated code, the UUIDs of
  the row, of the event and of the outbox row, three clock readings, the faults of the two
  statements, and the transaction runner.\<close>

record attempt =
  at_Generate :: "string go"
  at_urlID :: string
  at_eventID :: string
  at_outboxID :: string
  at_urlTime :: time
  at_eventTime :: time
  at_outboxTime :: time
  at_insertFault :: "dberr option"
  at_eventFault :: "dberr option"
  at_tx :: tx_runner

definition created_event :: "attempt \<Rightarrow> string \<Rightarrow> string \<Rightarrow> string \<Rightarrow> string \<Rightarrow> time \<Rightarrow> URLCreatedEvent" where
  "created_event a shortCode url userID userEmail expiresAt =
     BaseEvent.extend (NewBaseEvent (at_eventTime a) (at_eventID a) EventTypeURLCreated '''')
       (URLCreatedEvent.fields shortCode url userID userEmail (Some expiresAt))"

definition shorten_tx :: "uuid_in \<Rightarrow> attempt \<Rightarrow> string \<Rightarrow> string \<Rightarrow> string \<Rightarrow> string \<Rightarrow> time
    \<Rightarrow> urldb \<Rightarrow> dberr + urldb" where
  "shorten_tx U a shortCode url userID userEmail expiresAt db =
     (case Insert U (at_insertFault a)
        \<lparr>ur_ID = at_urlID a, ur_ShortCode = shortCode, ur_OriginalURL = url, ur_UserID = userID,
         ur_UserEmail = userEmail, ur_CreatedAt = at_urlTime a, ur_ExpiresAt = Some expiresAt,
         ur_IsActive = True\<rparr> db of
        Inl e \<Rightarrow> Inl e
      | Inr db \<Rightarrow>
         (case InsertEvent U (at_eventFault a)
            \<lparr>ob_ID = at_outboxID a, ob_EventType = event_name EventTypeURLCreated,
             ob_Payload = json_URLCreated (created_event a shortCode url userID userEmail expiresAt),
             ob_CreatedAt = at_outboxTime a, ob_LockedUntil = None, ob_PublishedAt = None\<rparr> db of
            Inl e \<Rightarrow> Inl e
          | Inr db \<Rightarrow> Inr db))"

text \<open>The loop: how it ends, the sleeps it makes, the tables.\<close>

datatype loop_result = Inserted string | Failed | Exhausted | LoopPanic

function shorten_loop :: "uuid_in \<Rightarrow> (nat \<Rightarrow> attempt) \<Rightarrow> string \<Rightarrow> string \<Rightarrow> string \<Rightarrow> time \<Rightarrow> nat
    \<Rightarrow> urldb \<Rightarrow> loop_result \<times> duration list \<times> urldb" where
  "shorten_loop U A url userID userEmail expiresAt attempt db =
     (if attempt < 3 then
        (case at_Generate (A attempt) of
           Panic \<Rightarrow> (LoopPanic, [], db)
         | Ret shortCode \<Rightarrow>
            (case at_tx (A attempt) (shorten_tx U (A attempt) shortCode url userID userEmail expiresAt) db of
               (None, db) \<Rightarrow> (Inserted shortCode, [], db)
             | (Some err, db) \<Rightarrow>
                 if err = unique_violation then
                   (case shorten_loop U A url userID userEmail expiresAt (attempt + 1) db of
                      (res, sleeps, db) \<Rightarrow> (res, int (attempt * 50) * millisecond # sleeps, db))
                 else (Failed, [], db)))
      else (Exhausted, [], db))"
  by pat_completeness auto
termination by (relation "measure (\<lambda>(_, _, _, _, _, _, n, _). 3 - n)") auto

declare shorten_loop.simps [simp del]

definition normalize_hours :: "int \<Rightarrow> int" where
  "normalize_hours h = (if h \<le> 0 \<or> h > 24 * 365 then 24 else h)"

definition ShortenURL :: "'c us_libs \<Rightarrow> string \<Rightarrow> time \<Rightarrow> (nat \<Rightarrow> attempt) \<Rightarrow> string \<Rightarrow> string \<Rightarrow> string
    \<Rightarrow> int \<Rightarrow> urldb \<Rightarrow> (HTTPError + ShortenResponse) go \<times> job list \<times> duration list \<times> urldb" where
  "ShortenURL L shortURLBase now A url userID userEmail expiresInHours db =
     (case ValidateURL (lib_parseURL L) url of
        Some _ \<Rightarrow> (Ret (Inl \<lparr>he_Status = 400, he_Err = ErrInvalidURL\<rparr>), [], [], db)
      | None \<Rightarrow>
        let expiresInHours = normalize_hours expiresInHours;
            expiresAt = now + expiresInHours * hour
        in case shorten_loop (lib_uuid L) A url userID userEmail expiresAt 0 db of
             (LoopPanic, sleeps, db) \<Rightarrow> (Panic, [], sleeps, db)
           | (Failed, sleeps, db) \<Rightarrow>
               (Ret (Inl \<lparr>he_Status = 500, he_Err = ErrDatabaseError\<rparr>), [], sleeps, db)
           | (Exhausted, sleeps, db) \<Rightarrow>
               (Ret (Inl \<lparr>he_Status = 409, he_Err = ErrAlreadyExists\<rparr>), [], sleeps, db)
           | (Inserted shortCode, sleeps, db) \<Rightarrow>
               (Ret (Inr \<lparr>sr_ShortCode = shortCode, sr_ShortURL = shortURLBase @ ''/'' @ shortCode,
                          sr_OriginalURL = url, sr_ExpiresAt = expiresAt\<rparr>),
                [SetJob shortCode
                   \<lparr>cu_OriginalURL = url, cu_UserID = userID, cu_UserEmail = userEmail,
                    cu_ExpiresAt = Some expiresAt, cu_IsActive = True\<rparr>
                   (expiresInHours * hour)],
                sleeps, db))"

section \<open>\<open>RedirectToURL\<close>\<close>

text \<open>The cache lookup and the query share a 50 ms deadline, so either may fail: \<open>fault\<close> is the
  query's. A record that the store reports as missing is a nil pointer, and reading a field of it
  panics.\<close>

definition expired :: "time \<Rightarrow> time option \<Rightarrow> bool" where
  "expired now t = (case t of None \<Rightarrow> False | Some t \<Rightarrow> now > t)"

definition http_err :: "int \<Rightarrow> string \<Rightarrow> (HTTPError + 'a) go" where
  "http_err st e = Ret (Inl \<lparr>he_Status = st, he_Err = e\<rparr>)"

definition RedirectToURL :: "'c us_libs \<Rightarrow> dberr option \<Rightarrow> time \<Rightarrow> string \<Rightarrow> string \<Rightarrow> urldb \<Rightarrow> 'c
    \<Rightarrow> (HTTPError + RedirectInfo) go \<times> job list" where
  "RedirectToURL L fault now shortCode remoteAddr db c =
     (case cache_Get (lib_redis L) now shortCode c of
        Some cached \<Rightarrow>
          if \<not> cu_IsActive cached then (http_err 410 ErrDeactivated, [])
          else if expired now (cu_ExpiresAt cached) then (http_err 410 ErrExpired, [])
          else (Ret (Inr \<lparr>ri_OriginalURL = cu_OriginalURL cached, ri_UserID = cu_UserID cached,
                         ri_UserEmail = cu_UserEmail cached,
                         ri_IpHash = hashIP (lib_sha256 L) remoteAddr\<rparr>), [])
      | None \<Rightarrow>
         (case FindByCode fault shortCode db of
            Inl err \<Rightarrow>
              if err = NoRows then (http_err 404 ErrNotFound, [])
              else (http_err 500 ErrDatabaseError, [])
          | Inr None \<Rightarrow> (Panic, [])
          | Inr (Some urlRecord) \<Rightarrow>
              if \<not> ur_IsActive urlRecord then (http_err 410 ErrDeactivated, [])
              else if expired now (ur_ExpiresAt urlRecord) then (http_err 410 ErrExpired, [])
              else (Ret (Inr \<lparr>ri_OriginalURL = ur_OriginalURL urlRecord, ri_UserID = ur_UserID urlRecord,
                             ri_UserEmail = ur_UserEmail urlRecord,
                             ri_IpHash = hashIP (lib_sha256 L) remoteAddr\<rparr>),
                    [FillJob shortCode urlRecord])))"

section \<open>\<open>GetUserUrls\<close>\<close>

text \<open>Slicing at a negative \<open>limit\<close>, and the last element of the slice for limit 0, panic.\<close>

definition GetUserUrls :: "'c us_libs \<Rightarrow> dberr option \<Rightarrow> time \<Rightarrow> string \<Rightarrow> string \<Rightarrow> int \<Rightarrow> urldb
    \<Rightarrow> (HTTPError + ListURLsResponse) go" where
  "GetUserUrls L fault dbnow userID afterID limit db =
     (case FindByUserID (lib_uuid L) fault dbnow userID afterID limit db of
        Inl err \<Rightarrow> if err = NoRows then http_err 200 ErrNotFound else http_err 500 ErrDatabaseError
      | Inr rs \<Rightarrow>
        let hasMore = int (length rs) > limit
        in if hasMore then
             (if limit \<le> 0 then Panic
              else let rs = take (nat limit) rs
                   in Ret (Inr \<lparr>lu_URLs = rs, lu_NextCursor = ur_ID (last rs), lu_HasMore = hasMore\<rparr>))
           else Ret (Inr \<lparr>lu_URLs = rs, lu_NextCursor = '''', lu_HasMore = hasMore\<rparr>))"

section \<open>\<open>DeactivateURL\<close>\<close>

record deactivation =
  de_eventID :: string
  de_outboxID :: string
  de_eventTime :: time
  de_outboxTime :: time
  de_cacheTime :: time
  de_updateFault :: "dberr option"
  de_eventFault :: "dberr option"
  de_tx :: tx_runner

definition deleted_event :: "deactivation \<Rightarrow> string \<Rightarrow> string \<Rightarrow> string \<Rightarrow> URLDeletedEvent" where
  "deleted_event d shortCode userID userEmail =
     BaseEvent.extend (NewBaseEvent (de_eventTime d) (de_eventID d) EventTypeURLDeleted '''')
       (URLDeletedEvent.fields shortCode userID userEmail)"

definition deactivate_tx :: "uuid_in \<Rightarrow> deactivation \<Rightarrow> string \<Rightarrow> string \<Rightarrow> string \<Rightarrow> urldb \<Rightarrow> dberr + urldb" where
  "deactivate_tx U d shortCode userID userEmail db =
     (case Deactivate U (de_updateFault d) shortCode userID db of
        Inl e \<Rightarrow> Inl e
      | Inr db \<Rightarrow>
          InsertEvent U (de_eventFault d)
            \<lparr>ob_ID = de_outboxID d, ob_EventType = event_name EventTypeURLDeleted,
             ob_Payload = json_URLDeleted (deleted_event d shortCode userID userEmail),
             ob_CreatedAt = de_outboxTime d, ob_LockedUntil = None, ob_PublishedAt = None\<rparr> db)"

definition DeactivateURL :: "'c us_libs \<Rightarrow> deactivation \<Rightarrow> string \<Rightarrow> string \<Rightarrow> string \<Rightarrow> urldb \<Rightarrow> 'c
    \<Rightarrow> HTTPError option \<times> urldb \<times> 'c" where
  "DeactivateURL L d shortCode userID userEmail db c =
     (case de_tx d (deactivate_tx (lib_uuid L) d shortCode userID userEmail) db of
        (Some err, db) \<Rightarrow>
          if err = NoRows then (Some \<lparr>he_Status = 403, he_Err = ErrForbidden\<rparr>, db, c)
          else (Some \<lparr>he_Status = 500, he_Err = ErrDatabaseError\<rparr>, db, c)
      | (None, db) \<Rightarrow> (None, db, snd (cache_Delete (lib_redis L) (de_cacheTime d) shortCode c)))"

section \<open>The spawned jobs\<close>

record job_env =
  je_ttlTime :: time
  je_now :: time
  je_eventID :: string
  je_outboxID :: string
  je_eventTime :: time
  je_outboxTime :: time
  je_fault :: "dberr option"

definition clicked_event :: "job_env \<Rightarrow> string \<Rightarrow> string \<Rightarrow> string \<Rightarrow> string \<Rightarrow> string \<Rightarrow> string \<Rightarrow> URLClickedEvent" where
  "clicked_event je shortCode userID userEmail ipHash userAgent referrer =
     BaseEvent.extend (NewBaseEvent (je_eventTime je) (je_eventID je) EventTypeURLClicked '''')
       (URLClickedEvent.fields shortCode userID userEmail ipHash userAgent referrer (je_now je))"

definition fill_ttl :: "time \<Rightarrow> URLRecord \<Rightarrow> duration" where
  "fill_ttl now r =
     (case ur_ExpiresAt r of
        None \<Rightarrow> hour
      | Some t \<Rightarrow> let ttl = t - now in if ttl < 0 then 0 else ttl)"

definition cached_of :: "URLRecord \<Rightarrow> CachedURL" where
  "cached_of r =
     \<lparr>cu_OriginalURL = ur_OriginalURL r, cu_UserID = ur_UserID r, cu_UserEmail = ur_UserEmail r,
      cu_ExpiresAt = ur_ExpiresAt r, cu_IsActive = ur_IsActive r\<rparr>"

definition writeAnalyticsEvent :: "uuid_in \<Rightarrow> job_env \<Rightarrow> string \<Rightarrow> string \<Rightarrow> string \<Rightarrow> string \<Rightarrow> string \<Rightarrow> string
    \<Rightarrow> urldb \<Rightarrow> urldb" where
  "writeAnalyticsEvent U je shortCode userID userEmail ipHash userAgent referrer db =
     (case InsertEvent U (je_fault je)
        \<lparr>ob_ID = je_outboxID je, ob_EventType = event_name EventTypeURLClicked,
         ob_Payload = json_URLClicked (clicked_event je shortCode userID userEmail ipHash userAgent referrer),
         ob_CreatedAt = je_outboxTime je, ob_LockedUntil = None, ob_PublishedAt = None\<rparr> db of
        Inl _ \<Rightarrow> db
      | Inr db \<Rightarrow> db)"

fun run_job :: "'c us_libs \<Rightarrow> job_env \<Rightarrow> job \<Rightarrow> urldb \<times> 'c \<Rightarrow> urldb \<times> 'c" where
  "run_job L je (SetJob shortCode cached ttl) (db, c) =
     (db, snd (cache_Set (lib_redis L) (je_now je) shortCode cached ttl c))"
| "run_job L je (FillJob shortCode urlRecord) (db, c) =
     (db, snd (cache_Set (lib_redis L) (je_now je) shortCode (cached_of urlRecord)
       (fill_ttl (je_ttlTime je) urlRecord) c))"
| "run_job L je (ClickJob shortCode userID userEmail ipHash userAgent referrer) (db, c) =
     (writeAnalyticsEvent (lib_uuid L) je shortCode userID userEmail ipHash userAgent referrer db, c)"

end
