(* ===== verification/UrlHandlers.thy ===== *)
theory UrlHandlers
  imports UrlService Auth
begin

text \<open>
  The HTTP side of url-service: \<open>handler.go\<close>, the mux and the middleware that \<open>main.go\<close> puts
  in front of it. A handler takes the request, the values it reads from path, query and body, and
  the state of the service: the tables, the cache, the jobs spawned and not yet run. A decoded
  body is \<open>None\<close> when it is no JSON.
\<close>

record 'c us_state =
  us_db :: urldb
  us_cache :: 'c
  us_jobs :: "job list"

datatype us_payload = PShorten ShortenResponse | PList ListURLsResponse

section \<open>Requests and replies\<close>

record ShortenRequest =
  rq_URL :: string
  rq_ExpiresInHours :: int

definition ShortenRequest_fields :: "ShortenRequest field list" where
  "ShortenRequest_fields =
     [(''url'', set_string (\<lambda>s q. q\<lparr>rq_URL := s\<rparr>)),
      (''expires_in_hours'', set_int (\<lambda>n q. q\<lparr>rq_ExpiresInHours := n\<rparr>))]"

definition decode_shorten :: "json option \<Rightarrow> ShortenRequest option" where
  "decode_shorten = Unmarshal ShortenRequest_fields \<lparr>rq_URL = '''', rq_ExpiresInHours = 0\<rparr>"

text \<open>\<open>http.Redirect\<close> to an absolute URL: non-ASCII bytes are percent-escaped in the header and
  the body of a \<open>GET\<close> is a link.\<close>

definition hex_lower :: "nat \<Rightarrow> string" where
  "hex_lower n = [hex_digit (int (n div 16)), hex_digit (int (n mod 16))]"

definition hexEscapeNonASCII :: "string \<Rightarrow> string" where
  "hexEscapeNonASCII s = concat (map (\<lambda>c. let n = of_char c :: nat in
     if n \<ge> 128 then CHR ''%'' # hex_lower n else [c]) s)"

definition html_escape :: "string \<Rightarrow> string" where
  "html_escape s = concat (map (\<lambda>c.
     if c = CHR ''&'' then ''&amp;'' else if c = CHR ''<'' then ''&lt;''
     else if c = CHR ''>'' then ''&gt;'' else if c = CHR 0x22 then ''&#34;''
     else if c = CHR 0x27 then ''&#39;'' else [c]) s)"

definition http_Redirect :: "http_request \<Rightarrow> string \<Rightarrow> 'b response" where
  "http_Redirect r url =
     \<lparr>resp_status = 308,
      resp_headers = (''Location'', hexEscapeNonASCII url) #
        (if req_method r \<in> {''GET'', ''HEAD''} then [(''Content-Type'', ''text/html; charset=utf-8'')] else []),
      resp_body = (if req_method r = ''GET''
        then TextBody (''<a href='' @ [CHR 0x22] @ html_escape url @ [CHR 0x22] @ ''>Permanent Redirect</a>.''
                       @ [CHR 0x0A, CHR 0x0A])
        else NoBody)\<rparr>"

definition write_http_error :: "HTTPError \<Rightarrow> 'b response" where
  "write_http_error e = error_response (he_Status e) (he_Err e)"

section \<open>Handlers\<close>

text \<open>The environment of a shorten request: the clock, the attempts, and for the anonymous
  variant the two UUIDs that stand for user and email.\<close>

record shorten_env =
  se_now :: time
  se_attempts :: "nat \<Rightarrow> attempt"
  se_anonUser :: string
  se_anonEmail :: string

text \<open>The part the two shorten handlers share: decode, shorten, reply. The third component is
  the list of sleeps.\<close>

definition do_shorten :: "'c us_libs \<Rightarrow> string \<Rightarrow> shorten_env \<Rightarrow> json option \<Rightarrow> string \<Rightarrow> string
    \<Rightarrow> 'c us_state \<Rightarrow> us_payload response go \<times> duration list \<times> 'c us_state" where
  "do_shorten L base se body userID userEmail st =
     (case decode_shorten body of
        None \<Rightarrow> (Ret (error_response 400 ''invalid request body''), [], st)
      | Some req \<Rightarrow>
         (case ShortenURL L base (se_now se) (se_attempts se) (rq_URL req) userID userEmail
                 (rq_ExpiresInHours req) (us_db st) of
            (res, jobs, sleeps, db) \<Rightarrow>
              ((case res of
                  Panic \<Rightarrow> Panic
                | Ret (Inl e) \<Rightarrow> Ret (write_http_error e)
                | Ret (Inr urlRecord) \<Rightarrow> Ret (json_response 201 (PShorten urlRecord))),
               sleeps, st\<lparr>us_db := db, us_jobs := us_jobs st @ jobs\<rparr>)))"

definition HandleShorten :: "'c us_libs \<Rightarrow> string \<Rightarrow> shorten_env \<Rightarrow> http_request \<Rightarrow> json option
    \<Rightarrow> 'c us_state \<Rightarrow> us_payload response go \<times> duration list \<times> 'c us_state" where
  "HandleShorten L base se r body st =
     (case ClaimsFromContext (req_ctx r) of
        None \<Rightarrow> (Ret (error_response 401 ''user not authenticated''), [], st)
      | Some claims \<Rightarrow>
          if Sub claims = '''' then (Ret (error_response 401 ''invalid user token''), [], st)
          else do_shorten L base se body (Sub claims) (Email claims) st)"

definition HandleShortenAnon :: "'c us_libs \<Rightarrow> string \<Rightarrow> shorten_env \<Rightarrow> json option
    \<Rightarrow> 'c us_state \<Rightarrow> us_payload response go \<times> duration list \<times> 'c us_state" where
  "HandleShortenAnon L base se body st =
     do_shorten L base se body (se_anonUser se) (se_anonEmail se) st"

text \<open>\<open>HandleRedirect\<close> and \<open>HandleRedirectAnon\<close> are the same code.\<close>

definition HandleRedirect :: "'c us_libs \<Rightarrow> dberr option \<Rightarrow> time \<Rightarrow> http_request \<Rightarrow> string \<Rightarrow> 'c us_state
    \<Rightarrow> us_payload response go \<times> 'c us_state" where
  "HandleRedirect L fault now r shortcode st =
     (if shortcode = '''' then (Ret (error_response 400 ''missing short code''), st)
      else (case RedirectToURL L fault now shortcode (req_remoteAddr r) (us_db st) (us_cache st) of
              (Panic, jobs) \<Rightarrow> (Panic, st)
            | (Ret (Inl e), jobs) \<Rightarrow> (Ret (write_http_error e), st\<lparr>us_jobs := us_jobs st @ jobs\<rparr>)
            | (Ret (Inr info), jobs) \<Rightarrow>
                (Ret (http_Redirect r (ri_OriginalURL info)),
                 st\<lparr>us_jobs := us_jobs st @ jobs @
                   [ClickJob shortcode (ri_UserID info) (ri_UserEmail info) (ri_IpHash info)
                      (header_get (req_headers r) ''User-Agent'')
                      (header_get (req_headers r) ''Referer'')]\<rparr>)))"

definition HandleRedirectAnon :: "'c us_libs \<Rightarrow> dberr option \<Rightarrow> time \<Rightarrow> http_request \<Rightarrow> string \<Rightarrow> 'c us_state
    \<Rightarrow> us_payload response go \<times> 'c us_state" where
  "HandleRedirectAnon L fault now r shortcode st = HandleRedirect L fault now r shortcode st"

text \<open>The limit of the list handler: floating point is exact on \<open>[1, 100]\<close> and monotone outside.\<close>

definition list_limit :: "string \<Rightarrow> int" where
  "list_limit val =
     (if val = '''' then 20
      else (case Atoi val of None \<Rightarrow> 20 | Some parsed \<Rightarrow> max (min parsed 100) 1))"

definition HandleGetUrls :: "'c us_libs \<Rightarrow> dberr option \<Rightarrow> time \<Rightarrow> http_request \<Rightarrow> string \<Rightarrow> string
    \<Rightarrow> 'c us_state \<Rightarrow> us_payload response go" where
  "HandleGetUrls L fault dbnow r after limitParam st =
     (case ClaimsFromContext (req_ctx r) of
        None \<Rightarrow> Ret (error_response 401 ''user not authenticated'')
      | Some claims \<Rightarrow>
         (case GetUserUrls L fault dbnow (Sub claims) after (list_limit limitParam) (us_db st) of
            Panic \<Rightarrow> Panic
          | Ret (Inl e) \<Rightarrow> Ret (write_http_error e)
          | Ret (Inr res) \<Rightarrow> Ret (json_response 200 (PList res))))"

definition HandleDeactivateUrl :: "'c us_libs \<Rightarrow> deactivation \<Rightarrow> http_request \<Rightarrow> string \<Rightarrow> 'c us_state
    \<Rightarrow> us_payload response \<times> 'c us_state" where
  "HandleDeactivateUrl L d r shortcode st =
     (if shortcode = '''' then (error_response 400 ''missing short code'', st)
      else (case ClaimsFromContext (req_ctx r) of
              None \<Rightarrow> (error_response 401 ''user not authenticated'', st)
            | Some claims \<Rightarrow>
                if Sub claims = '''' then (error_response 401 ''invalid user token'', st)
                else (case DeactivateURL L d shortcode (Sub claims) (Email claims) (us_db st) (us_cache st) of
                        (Some e, db, c) \<Rightarrow> (write_http_error e, st\<lparr>us_db := db, us_cache := c\<rparr>)
                      | (None, db, c) \<Rightarrow>
                          (\<lparr>resp_status = 204, resp_headers = [], resp_body = NoBody\<rparr>,
                           st\<lparr>us_db := db, us_cache := c\<rparr>))))"

section \<open>The mux\<close>

text \<open>Which handler the mux of \<open>main.go\<close> selects for a method and a clean path, given as its
  segments; a \<open>GET\<close> pattern also takes \<open>HEAD\<close>, and a literal segment wins over a wildcard.\<close>

datatype us_route = ToHealth | ToMetrics | ToShorten | ToRedirect string | ToShortenAnon
  | ToRedirectAnon string | ToUrls | ToDeactivate string | Unrouted

definition us_mux :: "string \<Rightarrow> string list \<Rightarrow> us_route" where
  "us_mux meth segs =
     (if meth \<in> {''GET'', ''HEAD''} then
        (case segs of
           [c] \<Rightarrow>
             if c = ''health'' then ToHealth
             else if c = ''metrics'' then ToMetrics
             else if c = ''urls'' then ToUrls
             else if c \<noteq> '''' then ToRedirect c else Unrouted
         | [a, c] \<Rightarrow> if a = ''redirect-anon'' \<and> c \<noteq> '''' then ToRedirectAnon c else Unrouted
         | _ \<Rightarrow> Unrouted)
      else if meth = ''POST'' then
        (if segs = [''shorten''] then ToShorten
         else if segs = [''shorten-anon''] then ToShortenAnon else Unrouted)
      else if meth = ''DELETE'' then
        (case segs of [a, c] \<Rightarrow> if a = ''urls'' \<and> c \<noteq> '''' then ToDeactivate c else Unrouted | _ \<Rightarrow> Unrouted)
      else Unrouted)"


text \<open>The routes that \<open>main.go\<close> wraps in the middleware.\<close>

fun us_authenticated :: "us_route \<Rightarrow> bool" where
  "us_authenticated ToShorten = True"
| "us_authenticated ToUrls = True"
| "us_authenticated (ToDeactivate c) = True"
| "us_authenticated _ = False"

section \<open>The server\<close>

text \<open>What one request draws from its environment; \<open>ops\<close> are the replies of the two operational
  endpoints. An unrouted request is the mux's 404 (or 405).\<close>

record us_env =
  ue_now :: time
  ue_dbnow :: time
  ue_fault :: "dberr option"
  ue_shorten :: shorten_env
  ue_deact :: deactivation

record us_request =
  ur_http :: http_request
  ur_body :: "json option"
  ur_after :: string
  ur_limit :: string

definition us_dispatch :: "'c us_libs \<Rightarrow> string \<Rightarrow> (us_route \<Rightarrow> us_payload response) \<Rightarrow> us_env \<Rightarrow> us_route
    \<Rightarrow> us_request \<Rightarrow> http_request \<Rightarrow> 'c us_state \<Rightarrow> us_payload response go \<times> 'c us_state" where
  "us_dispatch L base ops env route q r st =
     (case route of
        ToShorten \<Rightarrow> (case HandleShorten L base (ue_shorten env) r (ur_body q) st of (a, _, st) \<Rightarrow> (a, st))
      | ToShortenAnon \<Rightarrow> (case HandleShortenAnon L base (ue_shorten env) (ur_body q) st of (a, _, st) \<Rightarrow> (a, st))
      | ToRedirect c \<Rightarrow> HandleRedirect L (ue_fault env) (ue_now env) r c st
      | ToRedirectAnon c \<Rightarrow> HandleRedirectAnon L (ue_fault env) (ue_now env) r c st
      | ToUrls \<Rightarrow> (HandleGetUrls L (ue_fault env) (ue_dbnow env) r (ur_after q) (ur_limit q) st, st)
      | ToDeactivate c \<Rightarrow> (case HandleDeactivateUrl L (ue_deact env) r c st of (a, st) \<Rightarrow> (Ret a, st))
      | _ \<Rightarrow> (Ret (ops route), st))"

definition us_serve :: "'c us_libs \<Rightarrow> jwt_parse \<Rightarrow> string \<Rightarrow> string \<Rightarrow> (us_route \<Rightarrow> us_payload response) \<Rightarrow> us_env
    \<Rightarrow> us_request \<Rightarrow> 'c us_state \<Rightarrow> us_payload response go \<times> 'c us_state" where
  "us_serve L parse secret base ops env q st =
     (let r = ur_http q; route = us_mux (req_method r) (path_segments (req_path r))
      in if us_authenticated route then
           (case JWTMiddleware parse (ue_now env) secret r of
              Inl resp \<Rightarrow> (Ret resp, st)
            | Inr r \<Rightarrow> us_dispatch L base ops env route q r st)
         else us_dispatch L base ops env route q r st)"

end
