(* ===== verification/UrlListing.thy ===== *)
theory UrlListing
  imports UrlHandlers
begin

text \<open>
  The URL list of url-service as a keyset listing: the query of \<open>FindByUserID\<close>, the page logic of
  \<open>GetUserUrls\<close>, and the limit that \<open>HandleGetUrls\<close> applies.
\<close>

record 'c url_query =
  uq_libs :: "'c us_libs"
  uq_dbnow :: time
  uq_user :: string
  uq_limit :: int
  uq_db :: urldb

definition uq_valid :: "'c url_query \<Rightarrow> bool" where
  "uq_valid s \<longleftrightarrow> uuid_laws (lib_uuid (uq_libs s)) \<and> table_inv (lib_uuid (uq_libs s)) (uq_db s)
     \<and> lib_uuid (uq_libs s) (uq_user s) \<noteq> None \<and> 1 \<le> uq_limit s \<and> uq_limit s \<le> 100"

text \<open>What the caller should see over all pages: the active, unexpired URLs of the user, by
  descending id.\<close>

definition uq_all :: "'c url_query \<Rightarrow> URLRecord list" where
  "uq_all s = sort_desc ur_ID
     (filter (listed (uq_dbnow s) (the (lib_uuid (uq_libs s) (uq_user s)))) (urls (uq_db s)))"

text \<open>One page as a client of the HTTP API sees it.\<close>

definition uq_page :: "'c url_query \<Rightarrow> string option \<Rightarrow> URLRecord list \<times> string option" where
  "uq_page s c =
     (case GetUserUrls (uq_libs s) None (uq_dbnow s) (uq_user s) (case c of None \<Rightarrow> '''' | Some a \<Rightarrow> a)
             (uq_limit s) (uq_db s) of
        Ret (Inr res) \<Rightarrow> (lu_URLs res, if lu_HasMore res then Some (lu_NextCursor res) else None)
      | _ \<Rightarrow> ([], None))"

definition uq_below :: "'c url_query \<Rightarrow> string \<Rightarrow> URLRecord list" where
  "uq_below s c = filter (\<lambda>r. ur_ID r < c) (uq_all s)"

lemma in_uq_all: "r \<in> set (uq_all s) \<Longrightarrow> r \<in> set (urls (uq_db s))"
  by (simp add: uq_all_def)

lemma GetUserUrls_found:
  assumes "FindByUserID (lib_uuid L) None dbnow uid after lim db = Inr (take (nat (i64 (lim + 1))) rest)"
    and "1 \<le> lim" and "lim \<le> 100"
  shows "GetUserUrls L None dbnow uid after lim db = Ret (Inr
    (if length rest > nat lim
     then \<lparr>lu_URLs = take (nat lim) rest, lu_NextCursor = ur_ID (last (take (nat lim) rest)), lu_HasMore = True\<rparr>
     else \<lparr>lu_URLs = rest, lu_NextCursor = '''', lu_HasMore = False\<rparr>))"
proof -
  have n: "nat (i64 (lim + 1)) = Suc (nat lim)" using assms(2,3) by (simp add: i64_id in_i64_def)
  show ?thesis
  proof (cases "length rest > nat lim")
    case True
    then have "int (length (take (Suc (nat lim)) rest)) > lim" using assms(2) by simp
    with True assms(1,2) n show ?thesis by (auto simp: GetUserUrls_def Let_def min_def)
  next
    case False
    with assms(1,2) n show ?thesis by (auto simp: GetUserUrls_def Let_def)
  qed
qed

lemma uq_page_eq:
  assumes v: "uq_valid s" and c: "\<And>x. c = Some x \<Longrightarrow> x \<in> ur_ID ` set (uq_all s)"
  shows "uq_page s c =
    (let rest = (case c of None \<Rightarrow> uq_all s | Some c \<Rightarrow> uq_below s c) in
       if length rest > nat (uq_limit s)
       then (take (nat (uq_limit s)) rest, Some (ur_ID (last (take (nat (uq_limit s)) rest))))
       else (rest, None))"
proof -
  let ?U = "lib_uuid (uq_libs s)" and ?rest = "case c of None \<Rightarrow> uq_all s | Some c \<Rightarrow> uq_below s c"
  from v obtain u where u: "?U (uq_user s) = Some u" by (auto simp: uq_valid_def)
  have lim: "1 \<le> uq_limit s" "uq_limit s \<le> 100" "\<not> i64 (uq_limit s + 1) < 0"
    using v by (auto simp: uq_valid_def i64_id in_i64_def)
  have "FindByUserID ?U None (uq_dbnow s) (uq_user s) (case c of None \<Rightarrow> '''' | Some a \<Rightarrow> a) (uq_limit s)
      (uq_db s) = Inr (take (nat (i64 (uq_limit s + 1))) ?rest)"
  proof (cases c)
    case None
    with u lim(3) show ?thesis by (simp add: FindByUserID_def uq_all_def Let_def)
  next
    case (Some a)
    then obtain r where "r \<in> set (urls (uq_db s))" "a = ur_ID r" using c in_uq_all by blast
    then have a: "?U a = Some a" using v by (auto simp: uq_valid_def table_inv_def)
    then have "a \<noteq> ''''" using v by (auto simp: uq_valid_def uuid_laws_def)
    with Some u a lim(3) show ?thesis
      by (simp add: FindByUserID_def uq_all_def uq_below_def Let_def filter_sort_desc conj_commute)
  qed
  from GetUserUrls_found [OF this lim(1,2)] show ?thesis by (simp add: uq_page_def Let_def)
qed

interpretation url_listing: keyset_listing uq_valid ur_ID uq_all ur_ID "\<lambda>s. nat (uq_limit s)" uq_page uq_below
proof unfold_locales
  fix s :: "'c url_query" assume v: "uq_valid s"
  then have d: "distinct (map ur_ID (urls (uq_db s)))" by (simp add: uq_valid_def table_inv_def)
  show "sorted_wrt (\<lambda>x y. ur_ID y < ur_ID x) (uq_all s)"
    unfolding uq_all_def
    by (rule sort_desc_descending)
       (use d in \<open>auto simp: distinct_map intro: inj_on_subset\<close>)
  show "1 \<le> nat (uq_limit s)" using v by (auto simp: uq_valid_def)
  show "uq_below s (ur_ID z) = filter (\<lambda>r. ur_ID r < ur_ID z) (uq_all s)" for z
    by (simp add: uq_below_def)
  show "uq_page s c = (let rest = (case c of None \<Rightarrow> uq_all s | Some c \<Rightarrow> uq_below s c) in
      if nat (uq_limit s) < length rest
      then (take (nat (uq_limit s)) rest, Some (ur_ID (last (take (nat (uq_limit s)) rest)))) else (rest, None))"
    if "\<And>x. c = Some x \<Longrightarrow> x \<in> ur_ID ` set (uq_all s)" for c
    by (rule uq_page_eq [OF v that])
qed

text \<open>C25: pagination of \<open>GET /urls\<close> is complete: following \<open>next_cursor\<close> from the first page lists
  every active, unexpired URL of the user exactly once, by descending id, in pages of at most
  \<open>limit\<close>, and stops.\<close>

theorem url_pages_complete:
  assumes "uq_valid s"
  shows "concat (walk (uq_page s) (Suc (length (urls (uq_db s)))) None) = uq_all s
    \<and> distinct (uq_all s)
    \<and> (\<forall>r. r \<in> set (uq_all s) \<longleftrightarrow> r \<in> set (urls (uq_db s))
         \<and> listed (uq_dbnow s) (the (lib_uuid (uq_libs s) (uq_user s))) r)
    \<and> (\<forall>p \<in> set (walk (uq_page s) (Suc (length (urls (uq_db s)))) None). int (length p) \<le> uq_limit s)"
proof -
  let ?f = "Suc (length (urls (uq_db s)))"
  have "length (uq_all s) \<le> ?f" by (simp add: uq_all_def le_SucI)
  from url_listing.walk_all [OF assms this]
  have w: "concat (walk (uq_page s) ?f None) = uq_all s"
    and l: "\<And>p. p \<in> set (walk (uq_page s) ?f None) \<Longrightarrow> length p \<le> nat (uq_limit s)" by simp_all
  have "distinct (uq_all s)"
    using assms by (simp add: uq_all_def uq_valid_def table_inv_def distinct_map)
  moreover have "\<forall>p \<in> set (walk (uq_page s) ?f None). int (length p) \<le> uq_limit s"
  proof
    fix p assume "p \<in> set (walk (uq_page s) ?f None)"
    from l [OF this] assms show "int (length p) \<le> uq_limit s" by (auto simp: uq_valid_def)
  qed
  moreover have "\<forall>r. r \<in> set (uq_all s) \<longleftrightarrow> r \<in> set (urls (uq_db s))
         \<and> listed (uq_dbnow s) (the (lib_uuid (uq_libs s) (uq_user s))) r"
    by (simp add: uq_all_def)
  ultimately show ?thesis using w by simp
qed

definition demo_url :: "string \<Rightarrow> string \<Rightarrow> URLRecord" where
  "demo_url i code = \<lparr>ur_ID = i, ur_ShortCode = code, ur_OriginalURL = ''http://a.b/'', ur_UserID = ''u'',
     ur_UserEmail = '''', ur_CreatedAt = 0, ur_ExpiresAt = None, ur_IsActive = True\<rparr>"

definition demo_query :: "unit url_query" where
  "demo_query = \<lparr>uq_libs = \<lparr>lib_uuid = (\<lambda>s. if s \<in> {''u'', ''1'', ''2'', ''3''} then Some s else None),
       lib_parseURL = (\<lambda>_. None), lib_sha256 = (\<lambda>_. []),
       lib_redis = \<lparr>kv_get = (\<lambda>_ _ _. None), kv_set = (\<lambda>_ _ _ _ c. (False, c)), kv_del = (\<lambda>_ _ c. (False, c))\<rparr>\<rparr>,
     uq_dbnow = 0, uq_user = ''u'', uq_limit = 2,
     uq_db = \<lparr>urls = [demo_url ''2'' ''b'', demo_url ''1'' ''a'', demo_url ''3'' ''c''], outbox = []\<rparr>\<rparr>"

theorem url_pages_complete_witness:
  "map ur_ID (concat (walk (uq_page demo_query) 4 None)) = [''3'', ''2'', ''1'']"
proof -
  have "uq_valid demo_query"
    by (auto simp: uq_valid_def demo_query_def uuid_laws_def table_inv_def demo_url_def)
  moreover have "map ur_ID (uq_all demo_query) = [''3'', ''2'', ''1'']" by code_simp
  ultimately show ?thesis using url_pages_complete [of demo_query] by (simp add: demo_query_def eval_nat_numeral)
qed

text \<open>listing never panics, whatever the query parameters, the claims and the tables: the page
  size the handler uses is between 1 and 100, and 20 when the parameter is absent.\<close>

theorem list_limit_bounds:
  "1 \<le> list_limit v \<and> list_limit v \<le> 100 \<and> list_limit '''' = 20
   \<and> HandleGetUrls L fault dbnow r after v st \<noteq> Panic"
proof -
  have b: "1 \<le> list_limit v" "list_limit v \<le> 100"
    by (auto simp: list_limit_def split: option.splits)
  have "GetUserUrls L fault dbnow uid after (list_limit v) db \<noteq> Panic" for uid db
    using b(1) by (auto simp: GetUserUrls_def http_err_def Let_def split: sum.splits)
  then have "HandleGetUrls L fault dbnow r after v st \<noteq> Panic"
    by (auto simp: HandleGetUrls_def split: option.splits go.splits sum.splits)
  with b show ?thesis by (simp add: list_limit_def)
qed

end
