(* ===== verification/UrlSystem.thy ===== *)
theory UrlSystem
  imports UrlHandlers "HOL-Library.Multiset"
begin

text \<open>
  url-service as a transition system: requests, spawned jobs in any order, and the two outbox
  statements of the coordinator, with any faults of the database, the transactions and Redis.
  The invariants: the schema's constraints; the outbox holds exactly one creation event per
  URL, in order, and exactly one deletion event per deactivated URL; everything the cache or a
  pending job holds for a short code agrees with the row of that code and was active when read.
\<close>

section \<open>Events in the outbox\<close>

definition event_codes :: "EventType \<Rightarrow> (json \<Rightarrow> string) \<Rightarrow> OutboxRecord list \<Rightarrow> string list" where
  "event_codes ty dec bs = map (\<lambda>b. dec (ob_Payload b)) (filter (\<lambda>b. ob_EventType b = event_name ty) bs)"

definition created_code :: "json \<Rightarrow> string" where
  "created_code j = (case Unmarshal URLCreated_fields zero_URLCreated (Some j) of
     None \<Rightarrow> '''' | Some e \<Rightarrow> uc_ShortCode e)"

definition deleted_code :: "json \<Rightarrow> string" where
  "deleted_code j = (case Unmarshal URLDeleted_fields zero_URLDeleted (Some j) of
     None \<Rightarrow> '''' | Some e \<Rightarrow> ud_ShortCode e)"

definition inactive_codes :: "URLRecord list \<Rightarrow> string list" where
  "inactive_codes rs = map ur_ShortCode (filter (\<lambda>r. \<not> ur_IsActive r) rs)"

definition outbox_inv :: "uuid_in \<Rightarrow> urldb \<Rightarrow> bool" where
  "outbox_inv U db \<longleftrightarrow> table_inv U db \<and>
     event_codes EventTypeURLCreated created_code (outbox db) = map ur_ShortCode (urls db) \<and>
     mset (event_codes EventTypeURLDeleted deleted_code (outbox db)) = mset (inactive_codes (urls db))"

lemma event_codes_append [simp]:
  "event_codes ty dec (as @ bs) = event_codes ty dec as @ event_codes ty dec bs"
  by (simp add: event_codes_def)

lemma event_codes_update:
  assumes "\<And>b. ob_EventType (f b) = ob_EventType b" and "\<And>b. ob_Payload (f b) = ob_Payload b"
  shows "event_codes ty dec (update_where P f bs) = event_codes ty dec bs"
  using assms by (induction bs) (auto simp: event_codes_def)

lemma created_code_event [simp]:
  "created_code (json_URLCreated (created_event a code url uid email t)) = code"
  by (simp add: created_code_def URLCreated_decode created_event_def URLCreatedEvent.defs BaseEvent.defs
      NewBaseEvent_def)

lemma deleted_code_event [simp]: "deleted_code (json_URLDeleted (deleted_event d code uid email)) = code"
  by (simp add: deleted_code_def URLDeleted_decode deleted_event_def URLDeletedEvent.defs BaseEvent.defs
      NewBaseEvent_def)

lemma event_names_distinct [simp]: "event_name a = event_name b \<longleftrightarrow> a = b"
  by (cases a; cases b) auto

text \<open>Deactivating flips the one active row with the code.\<close>

lemma inactive_codes_deactivate:
  assumes "distinct (map ur_ShortCode rs)" and "r \<in> set rs" and "owned_active code u r"
  shows "mset (inactive_codes (update_where (owned_active code u) (\<lambda>r. r\<lparr>ur_IsActive := False\<rparr>) rs))
    = add_mset code (mset (inactive_codes rs))"
  using assms
proof (induction rs)
  case (Cons x rs)
  show ?case
  proof (cases "owned_active code u x")
    case True
    then have "\<forall>y \<in> set rs. \<not> owned_active code u y"
      using Cons.prems(1) by (auto simp: owned_active_def image_iff)
    with True show ?thesis by (simp add: inactive_codes_def owned_active_def update_where_id)
  next
    case False
    with Cons show ?thesis by (auto simp: inactive_codes_def)
  qed
qed simp

lemma shorten_tx_outbox_inv:
  assumes "uuid_laws U" and "outbox_inv U db" and "shorten_tx U a code url uid email t db = Inr db'"
  shows "outbox_inv U db'"
proof -
  from assms(3) obtain db1 where
    i: "Insert U (at_insertFault a)
        \<lparr>ur_ID = at_urlID a, ur_ShortCode = code, ur_OriginalURL = url, ur_UserID = uid,
         ur_UserEmail = email, ur_CreatedAt = at_urlTime a, ur_ExpiresAt = Some t,
         ur_IsActive = True\<rparr> db = Inr db1" (is "Insert _ _ ?r _ = _")
    and e: "InsertEvent U (at_eventFault a)
        \<lparr>ob_ID = at_outboxID a, ob_EventType = event_name EventTypeURLCreated,
         ob_Payload = json_URLCreated (created_event a code url uid email t),
         ob_CreatedAt = at_outboxTime a, ob_LockedUntil = None, ob_PublishedAt = None\<rparr> db1 = Inr db'"
    by (auto simp: shorten_tx_def split: sum.splits)
  have "table_inv U db'"
    using Insert_table_inv [OF assms(1) _ i] InsertEvent_table_inv [OF assms(1) _ e] assms(2)
    by (simp add: outbox_inv_def)
  moreover have "event_codes EventTypeURLCreated created_code (outbox db') = map ur_ShortCode (urls db')
    \<and> mset (event_codes EventTypeURLDeleted deleted_code (outbox db')) = mset (inactive_codes (urls db'))"
    using assms(2) by (rule_tac Insert_Inr [OF i], rule_tac InsertEvent_Inr [OF e])
       (simp add: outbox_inv_def event_codes_def inactive_codes_def)
  ultimately show ?thesis by (simp add: outbox_inv_def)
qed

lemma deactivate_tx_outbox_inv:
  assumes "uuid_laws U" and "outbox_inv U db" and "deactivate_tx U d code uid email db = Inr db'"
  shows "outbox_inv U db'"
proof -
  from assms(3) obtain db1 where
    i: "Deactivate U (de_updateFault d) code uid db = Inr db1"
    and e: "InsertEvent U (de_eventFault d)
            \<lparr>ob_ID = de_outboxID d, ob_EventType = event_name EventTypeURLDeleted,
             ob_Payload = json_URLDeleted (deleted_event d code uid email),
             ob_CreatedAt = de_outboxTime d, ob_LockedUntil = None, ob_PublishedAt = None\<rparr> db1 = Inr db'"
    by (auto simp: deactivate_tx_def split: sum.splits)
  have "table_inv U db'"
    using Deactivate_table_inv [OF _ i] InsertEvent_table_inv [OF assms(1) _ e] assms(2)
    by (simp add: outbox_inv_def)
  moreover have "event_codes EventTypeURLCreated created_code (outbox db') = map ur_ShortCode (urls db')
    \<and> mset (event_codes EventTypeURLDeleted deleted_code (outbox db')) = mset (inactive_codes (urls db'))"
  proof -
    obtain u r where u: "U uid = Some u" "r \<in> set (urls db)" "owned_active code u r"
      and db1: "db1 = db\<lparr>urls := update_where (owned_active code u) (\<lambda>r. r\<lparr>ur_IsActive := False\<rparr>) (urls db)\<rparr>"
      by (rule Deactivate_Inr [OF i]) blast
    from inactive_codes_deactivate [OF _ u(2,3)] assms(2) db1 show ?thesis
      by (rule_tac InsertEvent_Inr [OF e])
         (simp add: outbox_inv_def table_inv_def event_codes_def row_simps)
  qed
  ultimately show ?thesis by (simp add: outbox_inv_def)
qed

lemma click_outbox_inv:
  assumes "uuid_laws U" and "outbox_inv U db"
  shows "outbox_inv U (writeAnalyticsEvent U je code uid email ip ua ref db)"
proof (cases "InsertEvent U (je_fault je)
        \<lparr>ob_ID = je_outboxID je, ob_EventType = event_name EventTypeURLClicked,
         ob_Payload = json_URLClicked (clicked_event je code uid email ip ua ref),
         ob_CreatedAt = je_outboxTime je, ob_LockedUntil = None, ob_PublishedAt = None\<rparr> db")
  case (Inr db')
  have "table_inv U db'" using InsertEvent_table_inv [OF assms(1) _ Inr] assms(2) by (simp add: outbox_inv_def)
  with assms(2) show ?thesis
    unfolding writeAnalyticsEvent_def Inr
    by (rule_tac InsertEvent_Inr [OF Inr]) (simp add: outbox_inv_def event_codes_def)
qed (use assms in \<open>simp add: writeAnalyticsEvent_def\<close>)

lemma fetch_outbox_inv:
  assumes "outbox_inv U db"
  shows "outbox_inv U (snd (FetchUnpublished fault dbnow locked limit db))"
  using assms FetchUnpublished_table_inv [of U db fault dbnow locked limit]
  by (auto simp: outbox_inv_def FetchUnpublished_def Let_def event_codes_update split: option.splits)

lemma mark_outbox_inv:
  assumes "outbox_inv U db"
  shows "outbox_inv U (snd (MarkPublished U fault dbnow i db))"
  using assms MarkPublished_table_inv [of U db fault dbnow i]
  by (auto simp: outbox_inv_def MarkPublished_def event_codes_update split: option.splits)

lemmas outbox_inv_steps = shorten_tx_outbox_inv deactivate_tx_outbox_inv click_outbox_inv
  fetch_outbox_inv mark_outbox_inv

section \<open>Rows and what the cache says of them\<close>

text \<open>No operation removes a row, and only \<open>is_active\<close> ever changes.\<close>

definition rows_kept :: "urldb \<Rightarrow> urldb \<Rightarrow> bool" where
  "rows_kept db db' \<longleftrightarrow> (\<forall>r \<in> set (urls db). \<exists>b. r\<lparr>ur_IsActive := b\<rparr> \<in> set (urls db'))"

lemma same_active: "(r :: URLRecord) = r\<lparr>ur_IsActive := ur_IsActive r\<rparr>"
  by simp

lemma rows_kept_same: "set (urls db) \<subseteq> set (urls db') \<Longrightarrow> rows_kept db db'"
  unfolding rows_kept_def using same_active by (metis subsetD)

lemma rows_kept_trans: "rows_kept a b \<Longrightarrow> rows_kept b c \<Longrightarrow> rows_kept a c"
  unfolding rows_kept_def by fastforce

definition agrees :: "uuid_in \<Rightarrow> urldb \<Rightarrow> string \<Rightarrow> CachedURL \<Rightarrow> bool" where
  "agrees U db code u \<longleftrightarrow> (\<exists>r \<in> set (urls db). ur_ShortCode r = code
     \<and> ur_OriginalURL r = cu_OriginalURL u \<and> ur_UserEmail r = cu_UserEmail u
     \<and> U (cu_UserID u) = Some (ur_UserID r)
     \<and> ur_ExpiresAt r = map_option timestamptz (cu_ExpiresAt u)) \<and> cu_IsActive u"

lemma agrees_kept: "agrees U db code u \<Longrightarrow> rows_kept db db' \<Longrightarrow> agrees U db' code u"
  unfolding agrees_def rows_kept_def
proof (elim bexE conjE, intro conjI)
  fix r assume k: "\<forall>r \<in> set (urls db). \<exists>b. r\<lparr>ur_IsActive := b\<rparr> \<in> set (urls db')" and r: "r \<in> set (urls db)"
    and a: "ur_ShortCode r = code" "ur_OriginalURL r = cu_OriginalURL u" "ur_UserEmail r = cu_UserEmail u"
      "U (cu_UserID u) = Some (ur_UserID r)" "ur_ExpiresAt r = map_option timestamptz (cu_ExpiresAt u)"
  from k r obtain b where "r\<lparr>ur_IsActive := b\<rparr> \<in> set (urls db')" by blast
  then show "\<exists>r \<in> set (urls db'). ur_ShortCode r = code \<and> ur_OriginalURL r = cu_OriginalURL u
     \<and> ur_UserEmail r = cu_UserEmail u \<and> U (cu_UserID u) = Some (ur_UserID r)
     \<and> ur_ExpiresAt r = map_option timestamptz (cu_ExpiresAt u)"
    by (rule bexI [rotated]) (simp add: a)
qed

lemma agrees_row:
  "table_inv U db \<Longrightarrow> r \<in> set (urls db) \<Longrightarrow> ur_IsActive r \<Longrightarrow> agrees U db (ur_ShortCode r) (cached_of r)"
  unfolding agrees_def by (intro conjI bexI [of _ r]) (auto simp: cached_of_def table_inv_def)

lemma shorten_tx_row:
  assumes "shorten_tx U a code url uid email t db = Inr db'"
  obtains i u c where "U (at_urlID a) = Some i" "U uid = Some u" "code \<notin> ur_ShortCode ` set (urls db)"
    "urls db' = urls db @ [\<lparr>ur_ID = i, ur_ShortCode = code, ur_OriginalURL = url, ur_UserID = u,
       ur_UserEmail = email, ur_CreatedAt = c, ur_ExpiresAt = Some (timestamptz t), ur_IsActive = True\<rparr>]"
proof -
  from assms obtain db1 where
    i: "Insert U (at_insertFault a)
        \<lparr>ur_ID = at_urlID a, ur_ShortCode = code, ur_OriginalURL = url, ur_UserID = uid,
         ur_UserEmail = email, ur_CreatedAt = at_urlTime a, ur_ExpiresAt = Some t,
         ur_IsActive = True\<rparr> db = Inr db1"
    and e: "InsertEvent U (at_eventFault a)
        \<lparr>ob_ID = at_outboxID a, ob_EventType = event_name EventTypeURLCreated,
         ob_Payload = json_URLCreated (created_event a code url uid email t),
         ob_CreatedAt = at_outboxTime a, ob_LockedUntil = None, ob_PublishedAt = None\<rparr> db1 = Inr db'"
    by (auto simp: shorten_tx_def split: sum.splits)
  from i e show ?thesis
    by (rule_tac Insert_Inr [OF i], rule_tac InsertEvent_Inr [OF e]) (rule that, auto)
qed

lemma shorten_tx_kept: "shorten_tx U a code url uid email t db = Inr db' \<Longrightarrow> rows_kept db db'"
  by (rule rows_kept_same) (auto elim!: shorten_tx_row)

lemma shorten_tx_agrees:
  assumes "shorten_tx U a code url uid email t db = Inr db'"
  shows "agrees U db' code \<lparr>cu_OriginalURL = url, cu_UserID = uid, cu_UserEmail = email,
    cu_ExpiresAt = Some t, cu_IsActive = True\<rparr>"
  using assms by (rule shorten_tx_row) (auto simp: agrees_def)

lemma deactivate_tx_kept:
  assumes "deactivate_tx U d code uid email db = Inr db'"
  shows "rows_kept db db'"
proof -
  from assms obtain db1 where
    i: "Deactivate U (de_updateFault d) code uid db = Inr db1" and e: "urls db' = urls db1"
    by (auto simp: deactivate_tx_def split: sum.splits elim!: InsertEvent_Inr)
  from i obtain u where
    "urls db1 = update_where (owned_active code u) (\<lambda>r. r\<lparr>ur_IsActive := False\<rparr>) (urls db)"
    by (rule Deactivate_Inr) simp
  then have "(if owned_active code u r then r\<lparr>ur_IsActive := False\<rparr>
      else r\<lparr>ur_IsActive := ur_IsActive r\<rparr>) \<in> set (urls db')" if "r \<in> set (urls db)" for r
    using that e by (auto simp: row_simps)
  then show ?thesis unfolding rows_kept_def by (meson)
qed

lemma urls_click [simp]: "urls (writeAnalyticsEvent U je code uid email ip ua ref db) = urls db"
  by (auto simp: writeAnalyticsEvent_def split: sum.splits elim!: InsertEvent_Inr)

lemma urls_fetch [simp]: "urls (snd (FetchUnpublished fault dbnow locked limit db)) = urls db"
  by (auto simp: FetchUnpublished_def Let_def split: option.splits)

lemma urls_mark [simp]: "urls (snd (MarkPublished U fault dbnow i db)) = urls db"
  by (auto simp: MarkPublished_def split: option.splits)

section \<open>The retry loop\<close>

lemma shorten_loop_preserves:
  assumes tx: "\<And>n. tx_laws (at_tx (A n))"
    and body: "\<And>n code db db'. P db \<Longrightarrow> shorten_tx U (A n) code url uid email t db = Inr db' \<Longrightarrow> P db'"
    and "P db"
  shows "P (snd (snd (shorten_loop U A url uid email t k db)))"
  using \<open>P db\<close>
proof (induction "3 - k" arbitrary: k db)
  case (Suc m)
  then have k: "k < 3" and m: "m = 3 - (k + 1)" by auto
  show ?case
  proof (cases "at_Generate (A k)")
    case (Ret code)
    let ?r = "at_tx (A k) (shorten_tx U (A k) code url uid email t) db"
    have P: "P (snd ?r)"
      by (rule tx_preserves) (use Suc.prems tx body in auto)
    then show ?thesis using Suc.hyps(1) [OF m, of "snd ?r"] k Ret
      by (subst shorten_loop.simps) (auto split: prod.splits option.splits)
  qed (use k Suc.prems in \<open>simp add: shorten_loop.simps\<close>)
qed (simp add: shorten_loop.simps)

text \<open>Success means that the body of some attempt ran to its end and was committed.\<close>

lemma shorten_loop_Inserted:
  assumes tx: "\<And>n. tx_laws (at_tx (A n))"
    and "shorten_loop U A url uid email t k db = (Inserted code, sleeps, db')"
  shows "\<exists>n dbn. k \<le> n \<and> n < 3 \<and> at_Generate (A n) = Ret code
    \<and> shorten_tx U (A n) code url uid email t dbn = Inr db'"
  using assms(2)
proof (induction "3 - k" arbitrary: k db sleeps)
  case 0
  then show ?case by (simp add: shorten_loop.simps)
next
  case (Suc m)
  then have k: "k < 3" and m: "m = 3 - (k + 1)" by auto
  show ?case
  proof (cases "at_Generate (A k)")
    case Panic
    with Suc.prems k show ?thesis by (simp add: shorten_loop.simps)
  next
    case (Ret c)
    obtain e db1 where r: "at_tx (A k) (shorten_tx U (A k) c url uid email t) db = (e, db1)"
      by (cases "at_tx (A k) (shorten_tx U (A k) c url uid email t) db")
    show ?thesis
    proof (cases e)
      case None
      with r tx have "shorten_tx U (A k) c url uid email t db = Inr db1" by (auto simp: tx_laws_def)
      moreover have "c = code" "db1 = db'"
        using Suc.prems r None Ret k by (auto simp: shorten_loop.simps [of _ _ _ _ _ _ k])
      ultimately show ?thesis using k Ret by blast
    next
      case (Some err)
      with Suc.prems r Ret k obtain s where
        "shorten_loop U A url uid email t (k + 1) db1 = (Inserted code, s, db')"
        by (auto simp: shorten_loop.simps [of _ _ _ _ _ _ k] split: if_splits prod.splits)
      from Suc.hyps(1) [OF m this] show ?thesis by (meson add_leD1)
    qed
  qed
qed

section \<open>Steps\<close>

text \<open>Any environment with transactions that keep their contract. The last kind of step is Redis's
  own: keys expire, and the gateway, which shares the database, writes its counters, which are no
  \<open>CachedURL\<close>.\<close>

definition fair_env :: "us_env \<Rightarrow> bool" where
  "fair_env env \<longleftrightarrow> (\<forall>n. tx_laws (at_tx (se_attempts (ue_shorten env) n))) \<and> tx_laws (de_tx (ue_deact env))"

inductive us_step :: "'c us_libs \<Rightarrow> ('c \<Rightarrow> kv_view) \<Rightarrow> jwt_parse \<Rightarrow> string \<Rightarrow> string
    \<Rightarrow> (us_route \<Rightarrow> us_payload response) \<Rightarrow> 'c us_state \<Rightarrow> 'c us_state \<Rightarrow> bool"
  for L view parse secret base ops where
  us_request: "fair_env env \<Longrightarrow>
    us_step L view parse secret base ops st (snd (us_serve L parse secret base ops env q st))"
| us_job: "us_jobs st = js @ j # ks \<Longrightarrow> run_job L je j (us_db st, us_cache st) = (db, c) \<Longrightarrow>
    us_step L view parse secret base ops st (st\<lparr>us_db := db, us_cache := c, us_jobs := js @ ks\<rparr>)"
| us_fetch: "us_step L view parse secret base ops st
    (st\<lparr>us_db := snd (FetchUnpublished fault dbnow locked limit (us_db st))\<rparr>)"
| us_mark: "us_step L view parse secret base ops st
    (st\<lparr>us_db := snd (MarkPublished (lib_uuid L) fault dbnow i (us_db st))\<rparr>)"
| us_redis: "(\<And>k v d. view c k = Some (v, d) \<Longrightarrow> (\<exists>d'. view (us_cache st) k = Some (v, d'))
      \<or> Unmarshal CachedURL_fields zero_CachedURL v = None) \<Longrightarrow>
    us_step L view parse secret base ops st (st\<lparr>us_cache := c\<rparr>)"

definition us_start :: "('c \<Rightarrow> kv_view) \<Rightarrow> 'c us_state \<Rightarrow> bool" where
  "us_start view st \<longleftrightarrow> us_db st = empty_db \<and> us_jobs st = [] \<and>
     (\<forall>k v d. view (us_cache st) k = Some (v, d) \<longrightarrow> Unmarshal CachedURL_fields zero_CachedURL v = None)"

fun job_ok :: "uuid_in \<Rightarrow> urldb \<Rightarrow> job \<Rightarrow> bool" where
  "job_ok U db (SetJob code cached ttl) \<longleftrightarrow> agrees U db code cached \<and> 0 \<le> ttl"
| "job_ok U db (FillJob code r) \<longleftrightarrow> agrees U db code (cached_of r)"
| "job_ok U db (ClickJob code uid email ip ua ref) \<longleftrightarrow> True"

definition cache_inv :: "uuid_in \<Rightarrow> kv_view \<Rightarrow> urldb \<Rightarrow> bool" where
  "cache_inv U w db \<longleftrightarrow> (\<forall>code v d u. w code = Some (v, d) \<longrightarrow>
     Unmarshal CachedURL_fields zero_CachedURL v = Some u \<longrightarrow> agrees U db code u)"

definition us_inv :: "'c us_libs \<Rightarrow> ('c \<Rightarrow> kv_view) \<Rightarrow> 'c us_state \<Rightarrow> bool" where
  "us_inv L view st \<longleftrightarrow> outbox_inv (lib_uuid L) (us_db st)
     \<and> cache_inv (lib_uuid L) (view (us_cache st)) (us_db st)
     \<and> (\<forall>j \<in> set (us_jobs st). job_ok (lib_uuid L) (us_db st) j)"

lemma job_ok_kept: "job_ok U db j \<Longrightarrow> rows_kept db db' \<Longrightarrow> job_ok U db' j"
  by (cases j) (auto intro: agrees_kept)

lemma cache_inv_kept: "cache_inv U w db \<Longrightarrow> rows_kept db db' \<Longrightarrow> cache_inv U w db'"
  unfolding cache_inv_def by (meson agrees_kept)

lemma rows_kept_refl [simp]: "rows_kept db db"
  by (rule rows_kept_same) simp

lemma us_inv_db:
  assumes "us_inv L view st" and "outbox_inv (lib_uuid L) db" and "rows_kept (us_db st) db"
  shows "us_inv L view (st\<lparr>us_db := db\<rparr>)"
  using assms by (auto simp: us_inv_def intro: cache_inv_kept job_ok_kept)

lemma us_inv_jobs:
  assumes "us_inv L view st" and "\<forall>j \<in> set js. job_ok (lib_uuid L) (us_db st) j"
  shows "us_inv L view (st\<lparr>us_jobs := us_jobs st @ js\<rparr>)"
  using assms by (auto simp: us_inv_def)

section \<open>The invariant is inductive\<close>

lemma ShortenURL_result:
  assumes tx: "\<And>n. tx_laws (at_tx (A n))"
    and U: "uuid_laws (lib_uuid L)" and inv: "outbox_inv (lib_uuid L) db"
    and R: "ShortenURL L base now A url uid email h db = (res, jobs, sleeps, db')"
  shows "outbox_inv (lib_uuid L) db' \<and> rows_kept db db' \<and> (\<forall>j \<in> set jobs. job_ok (lib_uuid L) db' j)"
proof (cases "ValidateURL (lib_parseURL L) url")
  case None
  let ?t = "now + normalize_hours h * hour"
  obtain lr sl db1 where r: "shorten_loop (lib_uuid L) A url uid email ?t 0 db = (lr, sl, db1)"
    by (cases "shorten_loop (lib_uuid L) A url uid email ?t 0 db")
  have "outbox_inv (lib_uuid L) (snd (snd (shorten_loop (lib_uuid L) A url uid email ?t 0 db)))
      \<and> rows_kept db (snd (snd (shorten_loop (lib_uuid L) A url uid email ?t 0 db)))"
    by (rule shorten_loop_preserves)
       (use tx inv in \<open>auto intro: shorten_tx_outbox_inv [OF U] shorten_tx_kept rows_kept_trans\<close>)
  then have base: "outbox_inv (lib_uuid L) db1 \<and> rows_kept db db1" by (simp add: r)
  have db': "db' = db1" using R None r by (auto simp: ShortenURL_def Let_def split: loop_result.splits)
  show ?thesis
  proof (cases lr)
    case (Inserted code)
    from shorten_loop_Inserted [OF tx r [unfolded Inserted]] obtain n dbn where
      "shorten_tx (lib_uuid L) (A n) code url uid email ?t dbn = Inr db1" by blast
    from shorten_tx_agrees [OF this] have "\<forall>j \<in> set jobs. job_ok (lib_uuid L) db1 j"
      using R None r Inserted
      by (auto simp: ShortenURL_def Let_def normalize_hours_def hour_def second_def)
    with base db' show ?thesis by simp
  qed (use R None r base db' in \<open>auto simp: ShortenURL_def Let_def\<close>)
qed (use R inv in \<open>auto simp: ShortenURL_def\<close>)

lemma do_shorten_inv:
  assumes "\<And>n. tx_laws (at_tx (se_attempts se n))" and "uuid_laws (lib_uuid L)" and "us_inv L view st"
  shows "us_inv L view (snd (snd (do_shorten L base se body uid email st)))"
proof (cases "decode_shorten body")
  case (Some req)
  obtain res jobs sl db where r: "ShortenURL L base (se_now se) (se_attempts se) (rq_URL req) uid email
      (rq_ExpiresInHours req) (us_db st) = (res, jobs, sl, db)"
    by (metis prod_cases4)
  from assms(3) have "outbox_inv (lib_uuid L) (us_db st)" by (simp add: us_inv_def)
  from ShortenURL_result [OF assms(1,2) this r]
  have "us_inv L view ((st\<lparr>us_db := db\<rparr>)\<lparr>us_jobs := us_jobs (st\<lparr>us_db := db\<rparr>) @ jobs\<rparr>)"
    by (intro us_inv_jobs us_inv_db [OF assms(3)]) auto
  with r Some show ?thesis by (simp add: do_shorten_def)
qed (use assms in \<open>simp add: do_shorten_def\<close>)

lemma RedirectToURL_jobs:
  assumes "table_inv (lib_uuid L) db" and "RedirectToURL L fault now code addr db c = (res, jobs)"
  shows "\<forall>j \<in> set jobs. job_ok (lib_uuid L) db j"
proof (cases jobs)
  case (Cons j js)
  with assms(2) obtain r where "FindByCode fault code db = Inr (Some r)" and j: "j = FillJob code r" "js = []"
    and "ur_IsActive r"
    by (auto simp: RedirectToURL_def split: option.splits sum.splits if_splits)
  then have "r \<in> set (urls db)" "ur_ShortCode r = code" "ur_IsActive r"
    by (auto simp: FindByCode_def split: option.splits dberr.splits dest!: find_SomeD)
  with agrees_row [OF assms(1)] j Cons show ?thesis by auto
qed simp

lemma HandleRedirect_inv:
  assumes "us_inv L view st"
  shows "us_inv L view (snd (HandleRedirect L fault now r code st))"
proof -
  obtain res jobs where R: "RedirectToURL L fault now code (req_remoteAddr r) (us_db st) (us_cache st) = (res, jobs)"
    by (cases "RedirectToURL L fault now code (req_remoteAddr r) (us_db st) (us_cache st)")
  have J: "\<forall>j \<in> set jobs. job_ok (lib_uuid L) (us_db st) j"
    by (rule RedirectToURL_jobs [OF _ R]) (use assms in \<open>simp add: us_inv_def outbox_inv_def\<close>)
  from R show ?thesis
    by (auto simp: HandleRedirect_def split: go.splits sum.splits
        intro!: us_inv_jobs [OF assms] assms simp: J)
qed

lemma HandleDeactivateUrl_inv:
  assumes "kv_laws (lib_redis L) view" and "uuid_laws (lib_uuid L)" and "tx_laws (de_tx d)" and "us_inv L view st"
  shows "us_inv L view (snd (HandleDeactivateUrl L d r code st))"
proof -
  have D: "us_inv L view (st\<lparr>us_db := db, us_cache := c\<rparr>)"
    if R: "DeactivateURL L d code uid email (us_db st) (us_cache st) = (res, db, c)" for uid email res db c
  proof -
    let ?tx = "de_tx d (deactivate_tx (lib_uuid L) d code uid email) (us_db st)"
    have "outbox_inv (lib_uuid L) (snd ?tx) \<and> rows_kept (us_db st) (snd ?tx)"
      by (rule tx_preserves [OF assms(3)])
         (use assms(4) in \<open>auto simp: us_inv_def intro: deactivate_tx_outbox_inv [OF assms(2)] deactivate_tx_kept\<close>)
    moreover have "db = snd ?tx"
      using R by (auto simp: DeactivateURL_def split: prod.splits option.splits if_splits)
    ultimately have 1: "us_inv L view (st\<lparr>us_db := db\<rparr>)" by (simp add: us_inv_db [OF assms(4)])
    have "view c k = Some (v, e) \<Longrightarrow> view (us_cache st) k = Some (v, e)" for k v e
      using R kv_del_view [OF assms(1), of "de_cacheTime d" code "us_cache st" k v e]
      by (auto simp: DeactivateURL_def cache_Delete_def split: prod.splits option.splits if_splits)
    with 1 show ?thesis by (simp add: us_inv_def cache_inv_def)
  qed
  show ?thesis
    using assms(4) D
    by (auto simp: HandleDeactivateUrl_def split: option.splits prod.splits)
qed

lemma us_dispatch_inv:
  assumes "kv_laws (lib_redis L) view" and "uuid_laws (lib_uuid L)" and "fair_env env" and "us_inv L view st"
  shows "us_inv L view (snd (us_dispatch L base ops env route q r st))"
proof -
  have S: "us_inv L view (snd (snd (do_shorten L base (ue_shorten env) body uid email st)))" for body uid email
    by (rule do_shorten_inv [OF _ assms(2,4)]) (use assms(3) in \<open>simp add: fair_env_def\<close>)
  have H: "us_inv L view (snd (snd (HandleShorten L base (ue_shorten env) r body st)))"
    and A: "us_inv L view (snd (snd (HandleShortenAnon L base (ue_shorten env) body st)))" for body
    using S assms(4) by (auto simp: HandleShorten_def HandleShortenAnon_def split: option.splits)
  have R: "us_inv L view (snd (HandleRedirect L fault now r code st))"
    and RA: "us_inv L view (snd (HandleRedirectAnon L fault now r code st))" for fault now code
    using HandleRedirect_inv [OF assms(4)] by (simp_all add: HandleRedirectAnon_def)
  have D: "us_inv L view (snd (HandleDeactivateUrl L (ue_deact env) r code st))" for code
    using HandleDeactivateUrl_inv [OF assms(1,2) _ assms(4)] assms(3) by (simp add: fair_env_def)
  show ?thesis
    using assms(4) H [of "ur_body q"] A [of "ur_body q"] R RA D
    by (cases route) (simp_all add: us_dispatch_def case_prod_beta)
qed

lemma us_serve_inv:
  assumes "kv_laws (lib_redis L) view" and "uuid_laws (lib_uuid L)" and "fair_env env" and "us_inv L view st"
  shows "us_inv L view (snd (us_serve L parse secret base ops env q st))"
  using us_dispatch_inv [OF assms] assms(4) by (auto simp: us_serve_def Let_def split: sum.splits)

lemma run_job_inv:
  assumes L: "kv_laws (lib_redis L) view" "uuid_laws (lib_uuid L)" and inv: "us_inv L view st"
    and js: "us_jobs st = js @ j # ks" and R: "run_job L je j (us_db st, us_cache st) = (db, c)"
  shows "us_inv L view (st\<lparr>us_db := db, us_cache := c, us_jobs := js @ ks\<rparr>)"
proof -
  let ?U = "lib_uuid L"
  have jobs: "\<forall>i \<in> set (js @ ks). job_ok ?U (us_db st) i" and j: "job_ok ?U (us_db st) j"
    and ob: "outbox_inv ?U (us_db st)" and ca: "cache_inv ?U (view (us_cache st)) (us_db st)"
    using inv js by (auto simp: us_inv_def)
  have put: "cache_inv ?U (view (snd (cache_Set (lib_redis L) now code u ttl (us_cache st)))) (us_db st)"
    if "agrees ?U (us_db st) code u" "0 \<le> ttl" for now code u ttl
    unfolding cache_inv_def cache_Set_def
  proof (intro allI impI)
    fix k v d w
    assume "view (snd (kv_set (lib_redis L) now code (json_CachedURL u) ttl (us_cache st))) k = Some (v, d)"
      and dec: "Unmarshal CachedURL_fields zero_CachedURL v = Some w"
    from kv_set_view [OF L(1) that(2) this(1)] ca that(1) dec show "agrees ?U (us_db st) k w"
      by (auto simp: cache_inv_def CachedURL_decode)
  qed
  show ?thesis
  proof (cases j)
    case (SetJob code cached ttl)
    with R j put [of code cached ttl] ob jobs show ?thesis by (auto simp: us_inv_def)
  next
    case (FillJob code r)
    have "0 \<le> fill_ttl (je_ttlTime je) r"
      by (simp add: fill_ttl_def hour_def second_def Let_def split: option.splits)
    with FillJob R j put [of code "cached_of r"] ob jobs show ?thesis by (auto simp: us_inv_def)
  next
    case (ClickJob code uid email ip ua ref)
    let ?db = "writeAnalyticsEvent ?U je code uid email ip ua ref (us_db st)"
    have "rows_kept (us_db st) ?db" by (rule rows_kept_same) simp
    with ClickJob R jobs ca click_outbox_inv [OF L(2) ob] show ?thesis
      by (auto simp: us_inv_def intro: job_ok_kept cache_inv_kept)
  qed
qed

lemma us_step_inv:
  assumes L: "kv_laws (lib_redis L) view" "uuid_laws (lib_uuid L)"
    and "us_step L view parse secret base ops st st'" and inv: "us_inv L view st"
  shows "us_inv L view st'"
  using assms(3)
proof cases
  case (us_request env q)
  with us_serve_inv [OF L _ inv] show ?thesis by simp
next
  case (us_job js j ks je db c)
  with run_job_inv [OF L inv] show ?thesis by simp
next
  case (us_fetch fault dbnow locked limit)
  with inv show ?thesis
    by (auto intro!: us_inv_db fetch_outbox_inv rows_kept_same simp: us_inv_def [of _ _ st])
next
  case (us_mark fault dbnow i)
  with inv show ?thesis
    by (auto intro!: us_inv_db mark_outbox_inv rows_kept_same simp: us_inv_def [of _ _ st])
next
  case (us_redis c)
  have "cache_inv (lib_uuid L) (view c) (us_db st)"
    unfolding cache_inv_def
  proof (intro allI impI)
    fix k v d w
    assume "view c k = Some (v, d)" and dec: "Unmarshal CachedURL_fields zero_CachedURL v = Some w"
    with us_redis(2) [OF this(1)] inv show "agrees (lib_uuid L) (us_db st) k w"
      by (auto simp: us_inv_def cache_inv_def)
  qed
  with us_redis(1) inv show ?thesis by (simp add: us_inv_def)
qed

lemma us_start_inv: "us_start view st \<Longrightarrow> us_inv L view st"
  by (auto simp: us_start_def us_inv_def outbox_inv_def cache_inv_def event_codes_def inactive_codes_def
      empty_db_def table_inv_def)

text \<open>For the interpretation, the laws of the two libraries guard the step relation.\<close>

definition us_run :: "'c us_libs \<Rightarrow> ('c \<Rightarrow> kv_view) \<Rightarrow> jwt_parse \<Rightarrow> string \<Rightarrow> string
    \<Rightarrow> (us_route \<Rightarrow> us_payload response) \<Rightarrow> 'c us_state \<Rightarrow> 'c us_state \<Rightarrow> bool" where
  "us_run L view parse secret base ops st st' \<longleftrightarrow>
     kv_laws (lib_redis L) view \<and> uuid_laws (lib_uuid L) \<and> us_step L view parse secret base ops st st'"

interpretation url_service: invariant_of "us_start view" "us_run L view parse secret base ops" "us_inv L view"
  by unfold_locales (auto simp: us_start_inv us_run_def intro: us_step_inv)

end
