(* ===== verification/UrlProps.thy ===== *)
theory UrlProps
  imports UrlSystem
begin

text \<open>
  Properties of url-service: what one call of each operation does, what the invariant gives in every
  reachable state, and two behaviours of the redirect path that its comments do not promise.
\<close>

section \<open>A concrete instance\<close>

definition commit_tx :: tx_runner where
  "commit_tx fn db = (case fn db of Inl e \<Rightarrow> (Some e, db) | Inr db' \<Rightarrow> (None, db'))"

lemma commit_tx_ok [simp]: "tx_ok commit_tx"
  by (simp add: tx_ok_def commit_tx_def)

lemma commit_tx_laws [simp]: "tx_laws commit_tx"
  by (simp add: tx_ok_laws)

definition demo_libs :: "kv_view us_libs" where
  "demo_libs = \<lparr>lib_uuid = (\<lambda>s. if s = '''' then None else Some s),
     lib_parseURL = (\<lambda>s. if s = ''http://a.b/'' then Some (''http'', ''a.b'') else None),
     lib_sha256 = (\<lambda>_. []), lib_redis = map_kv (\<lambda>_. True)\<rparr>"

lemma demo_libs_laws [simp]: "kv_laws (lib_redis demo_libs) (\<lambda>c. c)" "uuid_laws (lib_uuid demo_libs)"
  by (simp_all add: demo_libs_def map_kv_laws uuid_laws_def)

definition demo_attempt :: "string \<Rightarrow> string \<Rightarrow> attempt" where
  "demo_attempt code i = \<lparr>at_Generate = Ret code, at_urlID = i, at_eventID = i, at_outboxID = i,
     at_urlTime = 0, at_eventTime = 0, at_outboxTime = 0, at_insertFault = None, at_eventFault = None,
     at_tx = commit_tx\<rparr>"

definition demo_deact :: "string \<Rightarrow> deactivation" where
  "demo_deact i = \<lparr>de_eventID = i, de_outboxID = i, de_eventTime = 0, de_outboxTime = 0, de_cacheTime = 0,
     de_updateFault = None, de_eventFault = None, de_tx = commit_tx\<rparr>"

definition demo_env :: us_env where
  "demo_env = \<lparr>ue_now = 2000 * second, ue_dbnow = 0, ue_fault = None,
     ue_shorten = \<lparr>se_now = 0, se_attempts = (\<lambda>n. demo_attempt ''abcdefg'' ''i''), se_anonUser = ''u'',
       se_anonEmail = ''e''\<rparr>,
     ue_deact = demo_deact ''j''\<rparr>"

definition demo_http :: "string \<Rightarrow> string \<Rightarrow> http_request" where
  "demo_http meth path = \<lparr>req_method = meth, req_path = path, req_scheme = '''',
     req_headers = [(''Authorization'', ''Bearer tok'')], req_remoteAddr = ''9.9.9.9:1'', req_ctx = background\<rparr>"

definition demo_post :: us_request where
  "demo_post = \<lparr>ur_http = demo_http ''POST'' ''/shorten'',
     ur_body = Some (JObj [(''url'', JStr ''http://a.b/'')]), ur_after = '''', ur_limit = ''''\<rparr>"

definition demo_delete :: us_request where
  "demo_delete = \<lparr>ur_http = demo_http ''DELETE'' ''/urls/abcdefg'', ur_body = None, ur_after = '''', ur_limit = ''''\<rparr>"

definition demo_st0 :: "kv_view us_state" where
  "demo_st0 = \<lparr>us_db = empty_db, us_cache = (\<lambda>_. None), us_jobs = []\<rparr>"

definition demo_ops :: "us_route \<Rightarrow> us_payload response" where
  "demo_ops r = error_response 404 ''not found''"

definition demo_st1 :: "kv_view us_state" where
  "demo_st1 = snd (us_serve demo_libs demo_parse ''k'' ''http://s'' demo_ops demo_env demo_post demo_st0)"

lemma demo_st1_reach: "reach (us_start (\<lambda>c. c)) (us_run demo_libs (\<lambda>c. c) demo_parse ''k'' ''http://s'' demo_ops) demo_st1"
proof (rule reach_step)
  show "reach (us_start (\<lambda>c. c)) (us_run demo_libs (\<lambda>c. c) demo_parse ''k'' ''http://s'' demo_ops) demo_st0"
    by (rule reach_start) (simp add: us_start_def demo_st0_def)
  have "us_step demo_libs (\<lambda>c. c) demo_parse ''k'' ''http://s'' demo_ops demo_st0 demo_st1"
    unfolding demo_st1_def
    by (rule us_request) (simp add: fair_env_def demo_env_def demo_attempt_def demo_deact_def)
  then show "us_run demo_libs (\<lambda>c. c) demo_parse ''k'' ''http://s'' demo_ops demo_st0 demo_st1"
    by (simp add: us_run_def)
qed

lemma demo_st1_urls: "map ur_ShortCode (urls (us_db demo_st1)) = [''abcdefg'']"
  by code_simp

section \<open>What the invariant gives\<close>

lemma us_inv_mirrors:
  assumes "us_inv L view st"
  shows "event_codes EventTypeURLCreated created_code (outbox (us_db st)) = map ur_ShortCode (urls (us_db st))
    \<and> mset (event_codes EventTypeURLDeleted deleted_code (outbox (us_db st)))
        = mset (inactive_codes (urls (us_db st)))
    \<and> distinct (map ur_ShortCode (urls (us_db st))) \<and> distinct (map ob_ID (outbox (us_db st)))"
  using assms by (simp add: us_inv_def outbox_inv_def table_inv_def)

text \<open>A redirect looks into the cache as it is, or has looked into an earlier one and missed.\<close>

lemma us_inv_redirect:
  assumes inv: "us_inv L view st" and laws: "kv_laws (lib_redis L) view"
    and c: "c = us_cache st \<or> cache_Get (lib_redis L) now code c = None"
    and R: "RedirectToURL L fault now code addr (us_db st) c = (Ret (Inr info), jobs)"
  shows "\<exists>r \<in> set (urls (us_db st)). ur_ShortCode r = code \<and> ur_OriginalURL r = ri_OriginalURL info
    \<and> ur_UserEmail r = ri_UserEmail info
    \<and> (case ur_ExpiresAt r of None \<Rightarrow> True | Some t \<Rightarrow> now < t + 1000)"
proof (cases "cache_Get (lib_redis L) now code c")
  case (Some u)
  with c have hit: "cache_Get (lib_redis L) now code (us_cache st) = Some u" by auto
  from inv have c: "cache_inv (lib_uuid L) (view (us_cache st)) (us_db st)"
    by (simp add: us_inv_def)
  obtain v d where "view (us_cache st) code = Some (v, d)" "Unmarshal CachedURL_fields zero_CachedURL v = Some u"
    using cache_Get_Some [OF laws hit] by blast
  with c have "agrees (lib_uuid L) (us_db st) code u" by (auto simp: cache_inv_def)
  then obtain r where r: "r \<in> set (urls (us_db st))" "ur_ShortCode r = code" "ur_OriginalURL r = cu_OriginalURL u"
    "ur_UserEmail r = cu_UserEmail u" "ur_ExpiresAt r = map_option timestamptz (cu_ExpiresAt u)"
    by (auto simp: agrees_def)
  have e: "\<not> expired now (cu_ExpiresAt u)" "ri_OriginalURL info = cu_OriginalURL u" "ri_UserEmail info = cu_UserEmail u"
    using R Some by (auto simp: RedirectToURL_def http_err_def split: if_splits)
  have "now < timestamptz t + 1000" if "cu_ExpiresAt u = Some t" for t
    using e(1) that pos_mod_bound [of 1000 t] by (simp add: expired_def timestamptz_def)
  with r e show ?thesis by (intro bexI [of _ r]) (auto split: option.splits)
next
  case None
  with R obtain r where f: "FindByCode fault code (us_db st) = Inr (Some r)"
    and e: "\<not> expired now (ur_ExpiresAt r)" "ri_OriginalURL info = ur_OriginalURL r" "ri_UserEmail info = ur_UserEmail r"
    by (auto simp: RedirectToURL_def http_err_def split: sum.splits option.splits if_splits)
  from f have "r \<in> set (urls (us_db st))" "ur_ShortCode r = code"
    by (auto simp: FindByCode_def split: option.splits dberr.splits dest!: find_SomeD)
  with e show ?thesis by (intro bexI [of _ r]) (auto simp: expired_def split: option.splits)
qed

section \<open>Shortening\<close>

text \<open>An attempt that meets no fault: its code fits the column, its ids are fresh UUIDs.\<close>

definition good_attempt :: "uuid_in \<Rightarrow> urldb \<Rightarrow> attempt \<Rightarrow> string \<Rightarrow> bool" where
  "good_attempt U db a code \<longleftrightarrow> at_Generate a = Ret code \<and> length code \<le> 10
     \<and> at_insertFault a = None \<and> at_eventFault a = None \<and> tx_ok (at_tx a)
     \<and> (case U (at_urlID a) of None \<Rightarrow> False | Some i \<Rightarrow> i \<notin> ur_ID ` set (urls db))
     \<and> (case U (at_outboxID a) of None \<Rightarrow> False | Some i \<Rightarrow> i \<notin> ob_ID ` set (outbox db))"

definition taken :: "urldb \<Rightarrow> string \<Rightarrow> bool" where
  "taken db code \<longleftrightarrow> code \<in> ur_ShortCode ` set (urls db)"

lemma shorten_tx_taken:
  assumes "good_attempt U db a code" and "U uid = Some u" and "taken db code"
  shows "shorten_tx U a code url uid email t db = Inl unique_violation"
  using assms by (auto simp: good_attempt_def taken_def shorten_tx_def Insert_def split: option.splits)

lemma shorten_tx_fresh:
  assumes "good_attempt U db a code" and "U uid = Some u" and "\<not> taken db code"
  obtains db' where "shorten_tx U a code url uid email t db = Inr db'"
    "map ur_ShortCode (urls db') = map ur_ShortCode (urls db) @ [code]"
proof -
  from assms(1) obtain i k where i: "U (at_urlID a) = Some i" "i \<notin> ur_ID ` set (urls db)"
    and k: "U (at_outboxID a) = Some k" "k \<notin> ob_ID ` set (outbox db)"
    and a: "at_insertFault a = None" "at_eventFault a = None" "length code \<le> 10"
    by (auto simp: good_attempt_def split: option.splits)
  have "\<not> (\<exists>x \<in> set (urls db). ur_ID x = i \<or> ur_ShortCode x = code)"
    and "\<not> (\<exists>x \<in> set (outbox db). ob_ID x = k)"
    using i(2) k(2) assms(3) by (auto simp: taken_def)
  then show ?thesis
    using i(1) k(1) a assms(2) by (intro that) (auto simp: shorten_tx_def Insert_def InsertEvent_def)
qed

definition backoff_sleep :: "nat \<Rightarrow> duration" where
  "backoff_sleep n = int (n * 50) * millisecond"

lemma shorten_loop_taken:
  assumes "good_attempt U db (A n) code" and "U uid = Some u" and "taken db code" and "n < 3"
    and "shorten_loop U A url uid email t (Suc n) db = (res, sleeps, d)"
  shows "shorten_loop U A url uid email t n db = (res, backoff_sleep n # sleeps, d)"
  using assms shorten_tx_taken [OF assms(1-3), of url email t]
  by (subst shorten_loop.simps) (auto simp: good_attempt_def tx_okD backoff_sleep_def)

lemma shorten_loop_fresh:
  assumes "good_attempt U db (A n) code" and "U uid = Some u" and "\<not> taken db code" and "n < 3"
  shows "\<exists>db'. shorten_loop U A url uid email t n db = (Inserted code, [], db')
    \<and> map ur_ShortCode (urls db') = map ur_ShortCode (urls db) @ [code]"
proof -
  obtain db' where "shorten_tx U (A n) code url uid email t db = Inr db'"
    "map ur_ShortCode (urls db') = map ur_ShortCode (urls db) @ [code]"
    using shorten_tx_fresh [OF assms(1-3)] by blast
  with assms(1,4) show ?thesis
    by (intro exI [of _ db'], subst shorten_loop.simps) (auto simp: good_attempt_def tx_okD)
qed

lemma shorten_loop_all_taken:
  assumes "\<And>m. m < 3 \<Longrightarrow> good_attempt U db (A m) (codes m) \<and> taken db (codes m)" and "U uid = Some u"
    and "k \<le> 3"
  shows "shorten_loop U A url uid email t k db = (Exhausted, map backoff_sleep [k..<3], db)"
  using assms(3)
proof (induction "3 - k" arbitrary: k)
  case 0
  then show ?case by (simp add: shorten_loop.simps)
next
  case (Suc j)
  then have k: "k < 3" and j: "j = 3 - Suc k" by auto
  have "shorten_loop U A url uid email t (Suc k) db = (Exhausted, map backoff_sleep [Suc k..<3], db)"
    by (rule Suc.hyps(1) [OF j]) (use k in simp)
  then have "shorten_loop U A url uid email t k db = (Exhausted, backoff_sleep k # map backoff_sleep [Suc k..<3], db)"
    by (rule shorten_loop_taken [rotated 4]) (use k assms in auto)
  with k show ?case by (simp add: upt_conv_Cons)
qed

lemma shorten_loop_first_free:
  assumes "\<And>m. m \<le> n \<Longrightarrow> good_attempt U db (A m) (codes m)" and "U uid = Some u"
    and "\<And>m. m < n \<Longrightarrow> taken db (codes m)" and "\<not> taken db (codes n)" and "n < 3" and "k \<le> n"
  shows "\<exists>db'. shorten_loop U A url uid email t k db = (Inserted (codes n), map backoff_sleep [k..<n], db')
    \<and> map ur_ShortCode (urls db') = map ur_ShortCode (urls db) @ [codes n]"
  using assms(6)
proof (induction "n - k" arbitrary: k)
  case 0
  then have "k = n" by simp
  with shorten_loop_fresh [where A = A and n = n, OF assms(1) [OF order_refl] assms(2,4,5)] show ?case by simp
next
  case (Suc j)
  then have k: "k < n" and j: "j = n - Suc k" by auto
  obtain d where d: "shorten_loop U A url uid email t (Suc k) db = (Inserted (codes n), map backoff_sleep [Suc k..<n], d)"
    and c: "map ur_ShortCode (urls d) = map ur_ShortCode (urls db) @ [codes n]"
    using Suc.hyps(1) [OF j] k by auto
  have "shorten_loop U A url uid email t k db = (Inserted (codes n), backoff_sleep k # map backoff_sleep [Suc k..<n], d)"
    by (rule shorten_loop_taken [OF _ _ _ _ d]) (use k assms in auto)
  with c k show ?case by (simp add: upt_conv_Cons)
qed

text \<open>C20: collisions are retried, at most three codes are tried: with no other fault the first of the
  three generated codes that is not taken is inserted and returned, after sleeping 0 and 50
  milliseconds (linear, not exponential) for the collisions before it; if all three are taken, the
  answer is 409, no row is written, and a last sleep of 100 milliseconds is made for nothing.\<close>

theorem shorten_retries:
  assumes good: "\<And>n. n < 3 \<Longrightarrow> good_attempt (lib_uuid L) db (A n) (codes n)"
    and uid: "lib_uuid L uid = Some u" and url: "ValidateURL (lib_parseURL L) url = None"
    and R: "ShortenURL L base now A url uid email h db = (res, jobs, sleeps, db')"
  shows "if \<forall>n < 3. taken db (codes n)
    then res = Ret (Inl \<lparr>he_Status = 409, he_Err = ErrAlreadyExists\<rparr>) \<and> db' = db \<and> jobs = []
         \<and> sleeps = [0, 50 * millisecond, 100 * millisecond]
    else \<exists>n < 3. (\<forall>m < n. taken db (codes m)) \<and> \<not> taken db (codes n)
         \<and> sleeps = take n [0, 50 * millisecond]
         \<and> (\<exists>resp. res = Ret (Inr resp) \<and> sr_ShortCode resp = codes n \<and> sr_OriginalURL resp = url)
         \<and> map ur_ShortCode (urls db') = map ur_ShortCode (urls db) @ [codes n]"
proof (cases "\<forall>n < 3. taken db (codes n)")
  case True
  let ?t = "now + normalize_hours h * hour"
  have "shorten_loop (lib_uuid L) A url uid email ?t 0 db = (Exhausted, map backoff_sleep [0..<3], db)"
    by (rule shorten_loop_all_taken) (use good uid True in auto)
  moreover have "map backoff_sleep [0..<3] = [0, 50 * millisecond, 100 * millisecond]"
    by (simp add: upt_rec backoff_sleep_def)
  ultimately show ?thesis using R url True by (simp add: ShortenURL_def Let_def)
next
  case False
  let ?t = "now + normalize_hours h * hour"
  define n where "n = (LEAST n. n < 3 \<and> \<not> taken db (codes n))"
  from False have n: "n < 3 \<and> \<not> taken db (codes n)" unfolding n_def by (metis (mono_tags, lifting) LeastI_ex)
  have before: "taken db (codes m)" if "m < n" for m
    using not_less_Least [OF that [unfolded n_def]] that n by auto
  obtain d where "shorten_loop (lib_uuid L) A url uid email ?t 0 db = (Inserted (codes n), map backoff_sleep [0..<n], d)"
    and c: "map ur_ShortCode (urls d) = map ur_ShortCode (urls db) @ [codes n]"
    using shorten_loop_first_free [of n "lib_uuid L" db A codes uid u 0] good uid before n by fastforce
  then have "db' = d \<and> sleeps = map backoff_sleep [0..<n]
      \<and> (\<exists>resp. res = Ret (Inr resp) \<and> sr_ShortCode resp = codes n \<and> sr_OriginalURL resp = url)"
    using R url by (auto simp: ShortenURL_def Let_def)
  moreover have "map backoff_sleep [0..<n] = take n [0, 50 * millisecond]"
    using n by (auto simp: less_Suc_eq numeral_3_eq_3 backoff_sleep_def)
  ultimately show ?thesis unfolding if_not_P [OF False] using n before c by blast
qed

definition demo_taken_db :: urldb where
  "demo_taken_db = us_db demo_st1"

theorem shorten_retries_witness:
  "map ur_ShortCode (urls (snd (snd (snd (ShortenURL demo_libs ''b'' 0
     (\<lambda>n. demo_attempt (if n = 0 then ''abcdefg'' else ''ABCDEFG'') ''i2'') ''http://a.b/'' ''u'' ''e'' 24 demo_taken_db)))))
   = [''abcdefg'', ''ABCDEFG'']"
proof -
  let ?A = "\<lambda>n. demo_attempt (if n = 0 then ''abcdefg'' else ''ABCDEFG'') ''i2''"
  let ?codes = "\<lambda>n :: nat. if n = 0 then ''abcdefg'' else ''ABCDEFG''"
  have db: "map ur_ShortCode (urls demo_taken_db) = [''abcdefg'']" "map ur_ID (urls demo_taken_db) = [''i'']"
    "map ob_ID (outbox demo_taken_db) = [''i'']"
    by (simp_all add: demo_taken_db_def demo_st1_urls) code_simp+
  from db have s: "ur_ID ` set (urls demo_taken_db) = {''i''}" "ob_ID ` set (outbox demo_taken_db) = {''i''}"
    "ur_ShortCode ` set (urls demo_taken_db) = {''abcdefg''}"
    by (metis list.set_map list.simps(15) empty_set)+
  have g: "good_attempt (lib_uuid demo_libs) demo_taken_db (?A n) (?codes n)" for n
    using s by (auto simp: good_attempt_def demo_attempt_def demo_libs_def)
  obtain res jobs sl d where R: "ShortenURL demo_libs ''b'' 0 ?A ''http://a.b/'' ''u'' ''e'' 24 demo_taken_db = (res, jobs, sl, d)"
    by (metis prod_cases4)
  have v: "ValidateURL (lib_parseURL demo_libs) ''http://a.b/'' = None" by (simp add: ValidateURL_def demo_libs_def)
  have u: "lib_uuid demo_libs ''u'' = Some ''u''" by (simp add: demo_libs_def)
  have t: "taken demo_taken_db (?codes n) \<longleftrightarrow> n = 0" for n by (simp add: taken_def s)
  then have f: "\<not> (\<forall>n < 3. taken demo_taken_db (?codes n))"
    by (metis one_less_numeral_iff semiring_norm(77) zero_neq_one)
  from shorten_retries [where A = ?A and codes = ?codes, OF g u v R, unfolded if_not_P [OF f]]
  obtain n where "\<not> taken demo_taken_db (?codes n)"
    "map ur_ShortCode (urls d) = map ur_ShortCode (urls demo_taken_db) @ [?codes n]" by blast
  with t db R show ?thesis by (simp split: if_splits)
qed

text \<open>shorten then redirect: right after a successful shortening, a redirect of the returned code
  that misses the cache answers with the original URL and the owner's email, at every instant up
  to the expiry; the expiry is the requested number of hours ahead, one day when the request asks
  for none or more than a year.\<close>

theorem shorten_then_redirect:
  assumes tx: "\<And>n. tx_laws (at_tx (A n))" and U: "uuid_laws (lib_uuid L)"
    and inv: "outbox_inv (lib_uuid L) db"
    and S: "ShortenURL L base now A url uid email h db = (Ret (Inr resp), jobs, sleeps, db')"
    and miss: "cache_Get (lib_redis L) later (sr_ShortCode resp) c = None"
    and t: "later \<le> timestamptz (sr_ExpiresAt resp)"
  shows "sr_ExpiresAt resp = now + (if 1 \<le> h \<and> h \<le> 8760 then h else 24) * hour
    \<and> (case fst (RedirectToURL L None later (sr_ShortCode resp) addr db' c) of
         Ret (Inr info) \<Rightarrow> ri_OriginalURL info = url \<and> ri_UserEmail info = email
           \<and> ri_IpHash info = hashIP (lib_sha256 L) addr
       | _ \<Rightarrow> False)"
proof -
  let ?t = "now + normalize_hours h * hour"
  obtain lr sl d where r: "shorten_loop (lib_uuid L) A url uid email ?t 0 db = (lr, sl, d)"
    by (cases "shorten_loop (lib_uuid L) A url uid email ?t 0 db")
  with S obtain code where lr: "lr = Inserted code" "d = db'"
    and resp: "sr_ShortCode resp = code" "sr_ExpiresAt resp = ?t"
    by (auto simp: ShortenURL_def Let_def split: option.splits loop_result.splits)
  from shorten_loop_Inserted [OF tx r [unfolded lr]] obtain n dbn where
    "shorten_tx (lib_uuid L) (A n) code url uid email ?t dbn = Inr db'" by blast
  then obtain row where row: "row \<in> set (urls db')" "ur_ShortCode row = code" "ur_OriginalURL row = url"
    "ur_UserEmail row = email" "ur_IsActive row" "ur_ExpiresAt row = Some (timestamptz ?t)"
    by (elim shorten_tx_row) force
  have "table_inv (lib_uuid L) db'"
    using ShortenURL_result [OF tx U inv S] by (simp add: outbox_inv_def)
  from FindByCode_row [OF this row(1)] row miss t resp show ?thesis
    by (simp add: RedirectToURL_def expired_def normalize_hours_def)
qed

theorem shorten_then_redirect_witness:
  "case ShortenURL demo_libs ''b'' 0 (\<lambda>n. demo_attempt ''abcdefg'' ''i'') ''http://a.b/'' ''u'' ''e'' 2 empty_db of
     (Ret (Inr resp), _, _, db') \<Rightarrow> sr_ExpiresAt resp = 2 * hour
       \<and> (case fst (RedirectToURL demo_libs None hour (sr_ShortCode resp) '''' db' (\<lambda>_. None)) of
            Ret (Inr info) \<Rightarrow> ri_OriginalURL info = ''http://a.b/'' | _ \<Rightarrow> False)
   | _ \<Rightarrow> False"
proof -
  let ?A = "\<lambda>n :: nat. demo_attempt ''abcdefg'' ''i''"
  let ?S = "ShortenURL demo_libs ''b'' 0 ?A ''http://a.b/'' ''u'' ''e'' 2 empty_db"
  have ok: "case ?S of (Ret (Inr resp), _) \<Rightarrow> sr_ShortCode resp = ''abcdefg'' \<and> sr_ExpiresAt resp = 2 * hour | _ \<Rightarrow> False"
    by code_simp
  then obtain resp jobs sl db' where S: "?S = (Ret (Inr resp), jobs, sl, db')"
    and r: "sr_ExpiresAt resp = 2 * hour"
    by (cases ?S) (auto split: go.splits sum.splits)
  have tx: "tx_laws (at_tx (?A n))" for n by (simp add: demo_attempt_def)
  have inv: "outbox_inv (lib_uuid demo_libs) empty_db"
    by (simp add: outbox_inv_def event_codes_def inactive_codes_def) (simp add: empty_db_def)
  have miss: "cache_Get (lib_redis demo_libs) hour (sr_ShortCode resp) (\<lambda>_. None) = None"
    by (simp add: cache_Get_def demo_libs_def map_kv_def)
  have t: "hour \<le> timestamptz (sr_ExpiresAt resp)" using r by (simp add: timestamptz_def hour_def second_def)
  from shorten_then_redirect [OF tx demo_libs_laws(2) inv S miss t, where addr = "''''"] S r show ?thesis
    by (auto split: go.splits sum.splits)
qed

lemma unknown_code_HandleRedirect:
  "code \<notin> ur_ShortCode ` set (urls (us_db st)) \<Longrightarrow> cache_Get (lib_redis L) now code (us_cache st) = None \<Longrightarrow>
   code \<noteq> '''' \<Longrightarrow> HandleRedirect L None now r code st = (Panic, st)"
  by (simp add: HandleRedirect_def RedirectToURL_def FindByCode_missing)

text \<open>an unknown short code is not answered 404: \<open>FindByCode\<close> reports a missing row without an
  error, so the \<open>ErrNoRows\<close> branch is dead, no redirect is ever answered with status 404, and a
  code that is neither cached nor stored makes the handler dereference a nil record and panic.\<close>

theorem unknown_code_panics:
  assumes "code \<notin> ur_ShortCode ` set (urls (us_db st))"
    and "cache_Get (lib_redis L) now code (us_cache st) = None" and "code \<noteq> ''''"
  shows "HandleRedirect L None now r code st = (Panic, st)
    \<and> (\<forall>fault c db. fst (RedirectToURL L fault now code addr db c) \<noteq> http_err 404 ErrNotFound)"
proof
  show "HandleRedirect L None now r code st = (Panic, st)"
    using assms by (rule unknown_code_HandleRedirect)
  have "\<not> (\<exists>e. e = NoRows \<and> FindByCode fault code db = Inl e)" for fault db
    by (auto simp: FindByCode_def split: option.splits dberr.splits sum.splits)
  then show "\<forall>fault c db. fst (RedirectToURL L fault now code addr db c) \<noteq> http_err 404 ErrNotFound"
    by (auto simp: RedirectToURL_def http_err_def split: option.splits sum.splits)
qed

theorem unknown_code_panics_witness:
  "HandleRedirect demo_libs None 0 (ur_http demo_post) ''nosuch'' demo_st0 = (Panic, demo_st0)"
  using unknown_code_panics [of "''nosuch''" demo_st0 demo_libs 0]
  by (simp add: demo_st0_def empty_db_def cache_Get_def demo_libs_def map_kv_def)

section \<open>Deactivating\<close>

text \<open>C19: only the owner deactivates: with no database fault, the request succeeds exactly when an
  active URL with the code belongs to the caller; then that URL, and only it, becomes inactive, and
  a redirect that misses the cache is answered 410. In every other case (unknown code, another
  owner, already inactive) the answer is 403 and nothing changes.\<close>

theorem deactivate_owner_only:
  assumes tx: "tx_ok (de_tx d)" and ok: "de_updateFault d = None" "de_eventFault d = None"
    and u: "lib_uuid L uid = Some u" and i: "lib_uuid L (de_outboxID d) = Some i" "i \<notin> ob_ID ` set (outbox db)"
    and inv: "table_inv (lib_uuid L) db"
    and D: "DeactivateURL L d code uid email db c = (res, db', c')"
  shows "if \<exists>r \<in> set (urls db). owned_active code u r
    then res = None \<and> urls db' = map (\<lambda>r. if ur_ShortCode r = code then r\<lparr>ur_IsActive := False\<rparr> else r) (urls db)
      \<and> (cache_Get (lib_redis L) later code c' = None \<longrightarrow>
          fst (RedirectToURL L None later code addr db' c') = http_err 410 ErrDeactivated)
    else res = Some \<lparr>he_Status = 403, he_Err = ErrForbidden\<rparr> \<and> db' = db \<and> c' = c"
proof (cases "\<exists>r \<in> set (urls db). owned_active code u r")
  case False
  then have "deactivate_tx (lib_uuid L) d code uid email db = Inl NoRows"
    using ok u by (auto simp: deactivate_tx_def Deactivate_def row_simps)
  with False D tx show ?thesis by (auto simp: DeactivateURL_def tx_okD)
next
  case True
  then obtain r where r: "r \<in> set (urls db)" "owned_active code u r" by blast
  have own: "owned_active code u x \<longleftrightarrow> ur_ShortCode x = code" if "x \<in> set (urls db)" for x
    using distinct_map_unique [of ur_ShortCode "urls db" x r] inv r that by (auto simp: table_inv_def owned_active_def)
  have upd: "update_where (owned_active code u) (\<lambda>r. r\<lparr>ur_IsActive := False\<rparr>) (urls db)
      = map (\<lambda>r. if ur_ShortCode r = code then r\<lparr>ur_IsActive := False\<rparr> else r) (urls db)"
    using own by (simp add: update_where_def)
  have "\<not> (\<forall>x \<in> set (urls db). \<not> owned_active code u x)" and "\<not> (\<exists>x \<in> set (outbox db). ob_ID x = i)"
    using True i(2) by auto
  then obtain d' where b: "deactivate_tx (lib_uuid L) d code uid email db = Inr d'"
    and d': "urls d' = map (\<lambda>r. if ur_ShortCode r = code then r\<lparr>ur_IsActive := False\<rparr> else r) (urls db)"
    using ok u i(1) by (auto simp: deactivate_tx_def Deactivate_def InsertEvent_def row_simps upd)
  have db': "res = None" "db' = d'" using D tx b by (auto simp: DeactivateURL_def tx_okD)
  have dist: "map ur_ShortCode (urls d') = map ur_ShortCode (urls db)"
    and mem: "r\<lparr>ur_IsActive := False\<rparr> \<in> set (urls d')"
    using r by (auto simp: d' owned_active_def image_iff comp_def)
  have "find (\<lambda>x. ur_ShortCode x = ur_ShortCode (r\<lparr>ur_IsActive := False\<rparr>)) (urls d') = Some (r\<lparr>ur_IsActive := False\<rparr>)"
    by (rule find_unique [OF _ mem]) (use inv dist in \<open>simp add: table_inv_def\<close>)
  then have "FindByCode None code d' = Inr (Some (r\<lparr>ur_IsActive := False\<rparr>))"
    using r(2) by (simp add: FindByCode_def owned_active_def)
  then show ?thesis unfolding if_P [OF True] using db' d' by (simp add: RedirectToURL_def)
qed

theorem deactivate_owner_only_witness:
  "fst (DeactivateURL demo_libs (demo_deact ''j'') ''abcdefg'' ''user-1'' ''e'' (us_db demo_st1) (\<lambda>_. None)) = None
   \<and> fst (DeactivateURL demo_libs (demo_deact ''j'') ''abcdefg'' ''x'' ''e'' (us_db demo_st1) (\<lambda>_. None))
     = Some \<lparr>he_Status = 403, he_Err = ErrForbidden\<rparr>"
proof -
  have s: "''j'' \<notin> ob_ID ` set (outbox (us_db demo_st1))" and inv: "table_inv (lib_uuid demo_libs) (us_db demo_st1)"
    and y: "\<exists>r \<in> set (urls (us_db demo_st1)). owned_active ''abcdefg'' ''user-1'' r"
    and n: "\<not> (\<exists>r \<in> set (urls (us_db demo_st1)). owned_active ''abcdefg'' ''x'' r)"
    by (simp add: image_iff, code_simp) (use url_service.inv_reach [OF demo_st1_reach] in
      \<open>simp add: us_inv_def outbox_inv_def\<close>, code_simp+)
  have uid: "lib_uuid demo_libs s = Some s" if "s \<noteq> ''''" for s using that by (simp add: demo_libs_def)
  have d: "tx_ok (de_tx (demo_deact ''j''))" "de_updateFault (demo_deact ''j'') = None"
    "de_eventFault (demo_deact ''j'') = None" "lib_uuid demo_libs (de_outboxID (demo_deact ''j'')) = Some ''j''"
    by (simp_all add: demo_deact_def uid)
  obtain r1 d1 c1 where 1: "DeactivateURL demo_libs (demo_deact ''j'') ''abcdefg'' ''user-1'' ''e'' (us_db demo_st1) (\<lambda>_. None)
      = (r1, d1, c1)" by (metis prod_cases3)
  obtain r2 d2 c2 where 2: "DeactivateURL demo_libs (demo_deact ''j'') ''abcdefg'' ''x'' ''e'' (us_db demo_st1) (\<lambda>_. None)
      = (r2, d2, c2)" by (metis prod_cases3)
  have "r1 = None"
    using deactivate_owner_only [OF d(1-3) uid d(4) s inv 1, unfolded if_P [OF y]] by simp
  moreover have "r2 = Some \<lparr>he_Status = 403, he_Err = ErrForbidden\<rparr>"
    using deactivate_owner_only [OF d(1-3) uid d(4) s inv 2, unfolded if_not_P [OF n]] by simp
  ultimately show ?thesis by (simp add: 1 2)
qed

section \<open>Authentication, and the cache after a deactivation\<close>


definition demo_je :: job_env where
  "demo_je = \<lparr>je_ttlTime = 0, je_now = 0, je_eventID = ''k'', je_outboxID = ''k'', je_eventTime = 0,
     je_outboxTime = 0, je_fault = None\<rparr>"

definition demo_st2 :: "kv_view us_state" where
  "demo_st2 = snd (us_serve demo_libs demo_parse ''k'' ''http://s'' demo_ops demo_env demo_delete demo_st1)"

definition demo_st3 :: "kv_view us_state" where
  "demo_st3 = (case run_job demo_libs demo_je (hd (us_jobs demo_st2)) (us_db demo_st2, us_cache demo_st2) of
     (db, c) \<Rightarrow> demo_st2\<lparr>us_db := db, us_cache := c, us_jobs := tl (us_jobs demo_st2)\<rparr>)"

lemma demo_runs:
  "us_run demo_libs (\<lambda>c. c) demo_parse ''k'' ''http://s'' demo_ops demo_st1 demo_st2"
  "us_run demo_libs (\<lambda>c. c) demo_parse ''k'' ''http://s'' demo_ops demo_st2 demo_st3"
proof -
  show "us_run demo_libs (\<lambda>c. c) demo_parse ''k'' ''http://s'' demo_ops demo_st1 demo_st2"
    unfolding us_run_def demo_st2_def
    by (simp add: us_request fair_env_def demo_env_def demo_attempt_def demo_deact_def)
  have "us_jobs demo_st2 \<noteq> []" by code_simp
  then obtain j ks where j: "us_jobs demo_st2 = [] @ j # ks" by (cases "us_jobs demo_st2") auto
  obtain db c where r: "run_job demo_libs demo_je j (us_db demo_st2, us_cache demo_st2) = (db, c)"
    by (cases "run_job demo_libs demo_je j (us_db demo_st2, us_cache demo_st2)")
  have "demo_st3 = demo_st2\<lparr>us_db := db, us_cache := c, us_jobs := [] @ ks\<rparr>"
    using r j by (simp add: demo_st3_def)
  with us_job [OF j r] show "us_run demo_libs (\<lambda>c. c) demo_parse ''k'' ''http://s'' demo_ops demo_st2 demo_st3"
    by (simp add: us_run_def)
qed

text \<open>C38: a deactivated URL may keep redirecting: the goroutine that fills the cache can run after
  the deactivation has cleared the cache, so a state is reachable in which the row is inactive and
  its deletion event written, and yet a redirect answers with the URL.\<close>

theorem deactivated_url_still_redirects:
  "\<exists>st. reach (us_start (\<lambda>c. c)) (us_run demo_libs (\<lambda>c. c) demo_parse ''k'' ''http://s'' demo_ops) st
     \<and> inactive_codes (urls (us_db st)) = [''abcdefg'']
     \<and> event_codes EventTypeURLDeleted deleted_code (outbox (us_db st)) = [''abcdefg'']
     \<and> (case fst (HandleRedirect demo_libs None (100 * second) (demo_http ''GET'' ''/abcdefg'') ''abcdefg'' st) of
          Ret resp \<Rightarrow> resp_status resp = 308 \<and> header_get (resp_headers resp) ''Location'' = ''http://a.b/''
        | Panic \<Rightarrow> False)"
proof (intro exI conjI)
  let ?run = "us_run demo_libs (\<lambda>c. c) demo_parse ''k'' ''http://s'' demo_ops"
  from demo_st1_reach demo_runs(1) have "reach (us_start (\<lambda>c. c)) ?run demo_st2" by (rule reach_step)
  then show "reach (us_start (\<lambda>c. c)) ?run demo_st3" using demo_runs(2) by (rule reach_step)
qed (code_simp+)

end
