(* ===== verification/SyncPath.thy ===== *)
theory SyncPath
  imports GatewayProps UrlListing UrlProps
begin

text \<open>
  The synchronous half of the system: the gateway in front of url-service. The network that the
  gateway's proxy uses is url-service itself: \<open>net/http\<close> recovers a panic of a handler and closes
  the connection, which the proxy sees as a failed round trip.
\<close>

definition arriving :: "string \<Rightarrow> out_request \<Rightarrow> http_request" where
  "arriving gwAddr out = \<lparr>req_method = out_method out, req_path = out_path out, req_scheme = '''',
     req_headers = out_headers out, req_remoteAddr = gwAddr, req_ctx = background\<rparr>"

text \<open>Body and query reach url-service as the client sent them.\<close>

record content =
  ct_body :: "json option"
  ct_after :: string
  ct_limit :: string

definition no_content :: content where
  "no_content = \<lparr>ct_body = None, ct_after = '''', ct_limit = ''''\<rparr>"

definition received :: "string \<Rightarrow> content \<Rightarrow> out_request \<Rightarrow> us_request" where
  "received gwAddr ct out = \<lparr>ur_http = arriving gwAddr out, ur_body = ct_body ct, ur_after = ct_after ct,
     ur_limit = ct_limit ct\<rparr>"

definition url_transport :: "'c us_libs \<Rightarrow> jwt_parse \<Rightarrow> string \<Rightarrow> string \<Rightarrow> (us_route \<Rightarrow> us_payload response)
    \<Rightarrow> us_env \<Rightarrow> string \<Rightarrow> content \<Rightarrow> 'c us_state \<Rightarrow> us_payload transport" where
  "url_transport L parse secret base ops env gwAddr ct st out =
     (case fst (us_serve L parse secret base ops env (received gwAddr ct out) st) of
        Panic \<Rightarrow> RoundTripError ''EOF''
      | Ret resp \<Rightarrow> RoundTrip resp)"

text \<open>Requests served one after the other, each with its own clock.\<close>

fun gw_serve_all :: "('r, 'b) gw_handler \<Rightarrow> (gw_env \<times> http_request) list \<Rightarrow> 'r gw_state
    \<Rightarrow> 'b response go list \<times> 'r gw_state" where
  "gw_serve_all h [] st = ([], st)"
| "gw_serve_all h ((env, r) # rs) st =
     (let (res, st) = gw_ServeHTTP h env r st; (ress, st) = gw_serve_all h rs st in (res # ress, st))"

definition redirect_request :: "(string \<times> string) list \<Rightarrow> string \<Rightarrow> string \<Rightarrow> http_request" where
  "redirect_request hs addr code = \<lparr>req_method = ''GET'', req_path = ''/r/'' @ code, req_scheme = ''http'',
     req_headers = hs, req_remoteAddr = addr, req_ctx = background\<rparr>"

text \<open>A code that url-service would take for a short code and does not know.\<close>

definition unknown_code :: "'c us_libs \<Rightarrow> us_env \<Rightarrow> 'c us_state \<Rightarrow> string \<Rightarrow> bool" where
  "unknown_code L env st code \<longleftrightarrow> code \<notin> {'''', ''health'', ''metrics'', ''urls''} \<and> CHR ''/'' \<notin> set code
     \<and> code \<notin> ur_ShortCode ` set (urls (us_db st)) \<and> cache_Get (lib_redis L) (ue_now env) code (us_cache st) = None"

section \<open>Lemmas\<close>

lemma SplitByte_plain: "c \<notin> set s \<Longrightarrow> SplitByte s c = [s]"
  by (induction s) auto

lemma redirect_route: "matchRoute (redirect_request hs addr code) = Some (routingTable ! 6)"
  by (simp add: matchRoute_def routingTable_def redirect_request_def HasPrefix_def)

lemma redirect_stripped: "stripped_path (routingTable ! 6) (''/r/'' @ code) = CHR ''/'' # code"
  by (simp add: stripped_path_def routingTable_def HasPrefix_def)

lemma unknown_code_transport:
  assumes "unknown_code L env st code" and "ue_fault env = None"
    and "out_method out = ''GET''" and "out_path out = CHR ''/'' # code"
  shows "url_transport L parse secret base ops env gwAddr ct st out = RoundTripError ''EOF''"
proof -
  have "path_segments (CHR ''/'' # code) = [code]"
    using assms(1) by (simp add: path_segments_def TrimPrefix_def HasPrefix_def unknown_code_def SplitByte_plain)
  then have m: "us_mux ''GET'' (path_segments (CHR ''/'' # code)) = ToRedirect code"
    using assms(1) by (simp add: us_mux_def unknown_code_def)
  have "HandleRedirect L None (ue_now env) r code st = (Panic, st)" for r
    using unknown_code_HandleRedirect assms(1) by (auto simp: unknown_code_def)
  with m assms(2-4) show ?thesis
    by (simp add: url_transport_def received_def us_serve_def arriving_def us_dispatch_def Let_def)
qed

text \<open>A gateway in front of url-service whose limiter lets the requests pass.\<close>

definition fronts :: "('r, us_payload) gw_handler \<Rightarrow> us_payload transport \<Rightarrow> bool" where
  "fronts h t \<longleftrightarrow> h_transport h = t \<and> map_of (h_upstreams h) ''url-service'' \<noteq> None
     \<and> (\<forall>r l. limiterErr (fst (checkRateLimit h r ''redirect'' l)) \<or> allowed_ok (fst (checkRateLimit h r ''redirect'' l)))"

lemma unknown_redirect_step:
  fixes h :: "('r, us_payload) gw_handler"
  assumes "fronts h (url_transport L parse secret base ops uenv gwAddr ct ust)"
    and "unknown_code L uenv ust code" and "ue_fault uenv = None"
    and "gw_breaker st = Some cb" and "cb_state cb = StateClosed" and "\<not> env_ctx_done env"
  obtains st' where "gw_ServeHTTP h env (redirect_request hs addr code) st = (Ret (text_response 502 ''bad gateway''), st')"
    "gw_breaker st' = Some (fst (cb_failure (env_end env) cb))"
proof -
  let ?r = "redirect_request hs addr code" and ?rt = "routingTable ! 6"
  let ?r' = "?r\<lparr>req_ctx := SetUpstreamPath (req_ctx ?r) (stripped_path ?rt (req_path ?r))\<rparr>"
  have rt: "Upstream ?rt = ''url-service''" "RateLimitKey ?rt = ''redirect''"
    by (simp_all add: routingTable_def)
  obtain url where url: "map_of (h_upstreams h) ''url-service'' = Some url" using assms(1) by (auto simp: fronts_def)
  have out: "out_method (director p url ?r') = ''GET''" "out_path (director p url ?r') = CHR ''/'' # code" for p
    by (simp_all add: director_def upstreamPath_def SetUpstreamPath_def redirect_request_def redirect_stripped [simplified] Let_def
        split: option.split prod.split)
  have P: "ServeHTTPStatus (h_transport h) (h_url_parse h) (h_upstreams h) ?r' ''url-service''
      = Proxied 502 (Some ''EOF'') (text_response 502 ''bad gateway'')"
    using unknown_code_transport [OF assms(2,3) out] assms(1) by (simp add: ServeHTTPStatus_def url doProxy_def fronts_def)
  obtain cb' tr where F: "cb_failure (env_end env) cb = (cb', tr)" by (cases "cb_failure (env_end env) cb")
  have B: "fst (forward h env ?r ?rt s) = Ret (text_response 502 ''bad gateway'')
      \<and> gw_breaker (snd (forward h env ?r ?rt s)) = Some cb'" if "gw_breaker s = Some cb" for s
    using that assms(5,6) F by (simp add: forward_def rt proxy_through_breaker_def cb_Do_def cb_admit_def proxy_call_def P Let_def)
  obtain a l where al: "checkRateLimit h ?r ''redirect'' (gw_limiter st) = (a, l)" by (metis surj_pair)
  then have pass: "\<not> (\<not> limiterErr a \<and> \<not> allowed_ok a)" using assms(1) unfolding fronts_def by (metis fst_conv)
  have S: "gw_ServeHTTP h env ?r st = forward h env ?r ?rt (st\<lparr>gw_limiter := l\<rparr>)"
    using pass by (auto simp: gw_ServeHTTP_def redirect_route rt al Let_def)
  have "gw_breaker (st\<lparr>gw_limiter := l\<rparr>) = Some cb" using assms(4) by simp
  from B [OF this] S that [of "snd (gw_ServeHTTP h env ?r st)"] F show thesis by (metis fst_conv prod.collapse)
qed

lemma closed_failure:
  assumes "cb_state cb = StateClosed" and "now - windowStart cb \<le> failureWindow cb" and "failures cb + 1 \<le> maxFailures cb"
  shows "failures (fst (cb_failure now cb)) = failures cb + 1 \<and> maxFailures (fst (cb_failure now cb)) = maxFailures cb
    \<and> windowStart (fst (cb_failure now cb)) = windowStart cb \<and> failureWindow (fst (cb_failure now cb)) = failureWindow cb
    \<and> cb_state (fst (cb_failure now cb)) = (if failures cb + 1 = maxFailures cb then StateOpen else StateClosed)"
  using assms by (auto simp: cb_failure_def Let_def)

definition unknown_redirects :: "'c us_libs \<Rightarrow> us_env \<Rightarrow> 'c us_state \<Rightarrow> CircuitBreaker \<Rightarrow> (gw_env \<times> http_request) list \<Rightarrow> bool" where
  "unknown_redirects L uenv ust cb reqs \<longleftrightarrow> (\<forall>(e, r) \<in> set reqs. \<not> env_ctx_done e
     \<and> env_end e - windowStart cb \<le> failureWindow cb
     \<and> (\<exists>hs addr code. r = redirect_request hs addr code \<and> unknown_code L uenv ust code))"

lemma unknown_redirects_run:
  fixes h :: "('r, us_payload) gw_handler"
  assumes "fronts h (url_transport L parse secret base ops uenv gwAddr ct ust)" and "ue_fault uenv = None"
    and "gw_breaker st = Some cb" and "cb_state cb = StateClosed" and "unknown_redirects L uenv ust cb reqs"
    and "reqs \<noteq> []" and "failures cb + int (length reqs) = maxFailures cb"
    and "gw_serve_all h reqs st = (rs, st')"
  shows "set rs = {Ret (text_response 502 ''bad gateway'')} \<and> (\<exists>cb'. gw_breaker st' = Some cb' \<and> cb_state cb' = StateOpen)"
  using assms(3-)
proof (induction reqs arbitrary: st cb rs)
  case (Cons q reqs)
  obtain e hs addr code where q: "q = (e, redirect_request hs addr code)" "unknown_code L uenv ust code"
    "\<not> env_ctx_done e" "env_end e - windowStart cb \<le> failureWindow cb"
    using Cons.prems(3) by (cases q) (auto simp: unknown_redirects_def)
  obtain st1 where s1: "gw_ServeHTTP h e (redirect_request hs addr code) st = (Ret (text_response 502 ''bad gateway''), st1)"
    "gw_breaker st1 = Some (fst (cb_failure (env_end e) cb))"
    by (rule unknown_redirect_step [OF assms(1) q(2) assms(2) Cons.prems(1,2) q(3)])
  let ?cb = "fst (cb_failure (env_end e) cb)"
  have "failures cb + 1 \<le> maxFailures cb" using Cons.prems(5) by simp
  note f = closed_failure [OF Cons.prems(2) q(4) this]
  obtain rs1 where r1: "gw_serve_all h reqs st1 = (rs1, st')" "rs = Ret (text_response 502 ''bad gateway'') # rs1"
    using Cons.prems(6) q(1) s1(1) by (cases "gw_serve_all h reqs st1") auto
  show ?case
  proof (cases "reqs = []")
    case True
    with r1 s1(2) f Cons.prems(5) show ?thesis by simp
  next
    case False
    then obtain x xs where "reqs = x # xs" by (cases reqs) auto
    then have "cb_state ?cb = StateClosed" "failures ?cb + int (length reqs) = maxFailures ?cb"
      using f Cons.prems(5) by auto
    moreover have "unknown_redirects L uenv ust ?cb reqs" using Cons.prems(3) f by (simp add: unknown_redirects_def)
    ultimately show ?thesis using Cons.IH [OF s1(2) _ _ False _ r1(1)] r1(2) by simp
  qed
qed simp

text \<open>C17: unknown codes shut the URL service off for everybody: as many unauthenticated redirects of codes
  that do not exist as the breaker's threshold says, within its window, are each answered 502 (the
  panic of url-service) and open the breaker; from then until the open timeout every request for
  url-service, from any client and whatever the network, is answered 503 without reaching it.\<close>

theorem unknown_codes_open_breaker:
  fixes h h' :: "('r, us_payload) gw_handler"
  assumes "fronts h (url_transport L parse secret base ops uenv gwAddr ct ust)" and "ue_fault uenv = None"
    and "gw_breaker st = Some cb" and "cb_state cb = StateClosed" and "failures cb = 0"
    and "unknown_redirects L uenv ust cb reqs" and "reqs \<noteq> []" and "int (length reqs) = maxFailures cb"
    and "gw_serve_all h reqs st = (rs, st')"
    and "Upstream rt = ''url-service''"
    and "env_start env \<le> lastFailureTime (the (gw_breaker st')) + openTimeout (the (gw_breaker st'))"
  shows "set rs = {Ret (text_response 502 ''bad gateway'')}
    \<and> fst (forward h' env r rt st') = Ret (error_response 503 ''url-service unavailable'')"
proof -
  from unknown_redirects_run [OF assms(1-4,6,7) _ assms(9)] assms(5,8) obtain cb' where
    c: "set rs = {Ret (text_response 502 ''bad gateway'')}" "gw_breaker st' = Some cb'" "cb_state cb' = StateOpen" by auto
  have "\<not> fst (cb_admit (env_start env) cb')" using c assms(11) by (simp add: cb_admit_def)
  with c(1) show ?thesis by (simp add: rejected_503 [OF assms(10) c(2)])
qed

definition demo_front :: "(nat, us_payload) gw_handler" where
  "demo_front = \<lparr>h_transport = url_transport demo_libs demo_parse ''k'' ''http://s'' demo_ops demo_env ''g:1'' no_content demo_st0,
     h_url_parse = (\<lambda>u. Some (''http'', ''up:8080'')), h_upstreams = [(''url-service'', ''http://up:8080'')],
     h_cfg = \<lparr>ShortenRateLimit = \<lparr>Limit = 10, WindowSecs = 60\<rparr>, RedirectRateLimit = \<lparr>Limit = 300, WindowSecs = 60\<rparr>\<rparr>,
     h_rateLimiter = None\<rparr>"

definition five_redirects :: "(gw_env \<times> http_request) list" where
  "five_redirects = replicate 5 (gw_demo_env, redirect_request [] ''1.2.3.4:5'' ''nosuch'')"

theorem unknown_codes_open_breaker_witness:
  "fst (forward demo_front gw_demo_env (redirect_request [] ''8.8.8.8:5'' ''abcdefg'') (routingTable ! 6)
      (snd (gw_serve_all demo_front five_redirects demo_state)))
    = Ret (error_response 503 ''url-service unavailable'')"
proof -
  obtain rs st' where run: "gw_serve_all demo_front five_redirects demo_state = (rs, st')"
    by (metis surj_pair)
  have f: "fronts demo_front (url_transport demo_libs demo_parse ''k'' ''http://s'' demo_ops demo_env ''g:1'' no_content demo_st0)"
    by (simp add: fronts_def demo_front_def checkRateLimit_def)
  have u: "unknown_code demo_libs demo_env demo_st0 ''nosuch''"
    by (simp add: unknown_code_def demo_st0_def empty_db_def cache_Get_def demo_libs_def map_kv_def)
  let ?cb = "WithStateChange (NewCircuitBreaker 0 5 (30 * second) (10 * second))"
  have b: "gw_breaker demo_state = Some ?cb" "cb_state ?cb = StateClosed" "failures ?cb = 0" "maxFailures ?cb = 5"
    "windowStart ?cb = 0" "failureWindow ?cb = 10 * second"
    by (simp_all add: demo_state_def WithStateChange_def NewCircuitBreaker_def)
  have r: "unknown_redirects demo_libs demo_env demo_st0 ?cb five_redirects"
    using u b by (auto simp: unknown_redirects_def five_redirects_def gw_demo_env_def second_def)
  have up: "Upstream (routingTable ! 6) = ''url-service''" by code_simp
  have "lastFailureTime (the (gw_breaker (snd (gw_serve_all demo_front five_redirects demo_state)))) = 5
      \<and> openTimeout (the (gw_breaker (snd (gw_serve_all demo_front five_redirects demo_state)))) = 30 * second"
    by code_simp
  then have t: "env_start gw_demo_env \<le> lastFailureTime (the (gw_breaker st')) + openTimeout (the (gw_breaker st'))"
    by (simp add: run gw_demo_env_def second_def)
  have "ue_fault demo_env = None" "five_redirects \<noteq> []" "int (length five_redirects) = maxFailures ?cb"
    using b by (simp_all add: demo_env_def five_redirects_def)
  from unknown_codes_open_breaker [OF f this(1) b(1-3) r this(2,3) run up t] show ?thesis by (simp add: run)
qed

end
