(* ===== verification/UrlActive.thy ===== *)
theory UrlActive
  imports UrlProps
begin

text \<open>
  What url-service does for the URLs it has: no step of the service loses a row, and an active URL
  is found by every redirect, from the cache or from the table, until it expires.
\<close>

section \<open>What every step does to the URLs\<close>

text \<open>A relation between tables that the two writing transactions keep, and that only looks at the
  URLs, is kept by every step of the service: the retry loop, the transactions that report an error
  although they took effect, the jobs and the coordinator's statements are dealt with once.\<close>

locale table_relation =
  fixes L :: "'c us_libs" and R :: "urldb \<Rightarrow> urldb \<Rightarrow> bool"
  assumes same_urls: "urls db' = urls db \<Longrightarrow> R db db'"
    and R_trans: "R a b \<Longrightarrow> R b c \<Longrightarrow> R a c"
    and shortens: "shorten_tx (lib_uuid L) at code url uid email t db = Inr db' \<Longrightarrow> R db db'"
    and deactivates: "table_inv (lib_uuid L) db \<Longrightarrow> deactivate_tx (lib_uuid L) d code uid email db = Inr db' \<Longrightarrow> R db db'"
begin

lemma do_shorten_rel:
  assumes "\<And>n. tx_laws (at_tx (se_attempts se n))"
  shows "R (us_db st) (us_db (snd (snd (do_shorten L base se body uid email st))))"
proof -
  have "R db (snd (snd (shorten_loop (lib_uuid L) (se_attempts se) url uid email t 0 db)))" for db url t
    by (rule shorten_loop_preserves) (use assms in \<open>auto intro: shortens R_trans same_urls\<close>)
  then have "R db db'" if "ShortenURL L base now (se_attempts se) url uid email h db = (res, jobs, sl, db')"
    for db db' now url h res jobs sl
    using that by (auto simp: ShortenURL_def Let_def intro: same_urls split: option.splits prod.splits loop_result.splits)
      (metis snd_conv)+
  then show ?thesis by (auto simp: do_shorten_def intro: same_urls split: option.split prod.split)
qed

lemma DeactivateURL_rel:
  assumes "tx_laws (de_tx d)" and "table_inv (lib_uuid L) db" and "DeactivateURL L d code uid email db c = (res, db', c')"
  shows "R db db'"
proof -
  have "R db (snd (de_tx d (deactivate_tx (lib_uuid L) d code uid email) db))"
    by (rule tx_preserves [OF assms(1), where P = "R db"]) (auto intro: same_urls deactivates [OF assms(2)])
  moreover have "db' = snd (de_tx d (deactivate_tx (lib_uuid L) d code uid email) db)"
    using assms(3) by (auto simp: DeactivateURL_def split: prod.splits option.splits if_splits)
  ultimately show ?thesis by simp
qed

lemma us_serve_rel:
  assumes "fair_env env" and "table_inv (lib_uuid L) (us_db st)"
  shows "R (us_db st) (us_db (snd (us_serve L parse secret base ops env q st)))"
proof -
  have refl: "R db db" for db by (rule same_urls) simp
  have S: "R (us_db st) (us_db (snd (snd (do_shorten L base (ue_shorten env) body uid email st))))" for body uid email
    by (rule do_shorten_rel) (use assms(1) in \<open>simp add: fair_env_def\<close>)
  have H: "R (us_db st) (us_db (snd (snd (HandleShorten L base (ue_shorten env) r body st))))"
    and A: "R (us_db st) (us_db (snd (snd (HandleShortenAnon L base (ue_shorten env) body st))))" for r body
    using S refl by (auto simp: HandleShorten_def HandleShortenAnon_def split: option.splits)
  have Rd: "R (us_db st) (us_db (snd (HandleRedirect L fault now r code st)))" for fault now r code
    using refl by (auto simp: HandleRedirect_def split: go.splits sum.splits prod.splits)
  have D: "R (us_db st) (us_db (snd (HandleDeactivateUrl L (ue_deact env) r code st)))" for r code
    using DeactivateURL_rel [OF _ assms(2)] assms(1) refl
    by (auto simp: HandleDeactivateUrl_def fair_env_def split: option.splits prod.splits)
  have "R (us_db st) (us_db (snd (us_dispatch L base ops env route q r st)))" for route r
    using H [of r "ur_body q"] A [of "ur_body q"] Rd D refl
    by (cases route) (simp_all add: us_dispatch_def HandleRedirectAnon_def case_prod_beta)
  then show ?thesis using refl by (auto simp: us_serve_def Let_def split: sum.splits)
qed

lemma us_run_rel:
  assumes "us_run L view parse secret base ops st st'" and "us_inv L view st"
  shows "R (us_db st) (us_db st')"
proof -
  have inv: "table_inv (lib_uuid L) (us_db st)" using assms(2) by (simp add: us_inv_def outbox_inv_def)
  from assms(1) have "us_step L view parse secret base ops st st'" by (simp add: us_run_def)
  then show ?thesis
  proof cases
    case (us_request env q)
    with us_serve_rel [OF _ inv] show ?thesis by simp
  next
    case (us_job js j ks je db c)
    have "urls db = urls (us_db st)" using us_job(3) by (cases j) auto
    with us_job(1) show ?thesis by (auto intro: same_urls)
  qed (auto intro: same_urls)
qed

lemma us_runs_rel:
  assumes "(us_run L view parse secret base ops)\<^sup>*\<^sup>* st st'" and "us_inv L view st"
  shows "R (us_db st) (us_db st') \<and> us_inv L view st'"
  using assms
proof (induction rule: rtranclp_induct)
  case base
  then show ?case by (simp add: same_urls)
next
  case (step y z)
  then have y: "us_inv L view y" "R (us_db st) (us_db y)" by simp_all
  from us_run_rel [OF step(2) y(1)] y(2) have "R (us_db st) (us_db z)" by (blast intro: R_trans)
  with url_service.inv_step [OF y(1) step(2)] show ?case by simp
qed

end

text \<open>No step loses a row.\<close>

interpretation kept: table_relation L rows_kept for L :: "'c us_libs"
  by unfold_locales (auto intro: rows_kept_same rows_kept_trans shorten_tx_kept deactivate_tx_kept)

lemmas us_runs_kept = kept.us_runs_rel

section \<open>Active URLs redirect\<close>

lemma timestamptz_expiry: "now \<le> timestamptz t \<Longrightarrow> timestamptz t = timestamptz t' \<Longrightarrow> now \<le> t'"
  using timestamptz_le [of t'] by simp

lemma active_url_redirects:
  assumes inv: "us_inv L view st" and kv: "kv_laws (lib_redis L) view"
    and row: "r \<in> set (urls (us_db st))" "ur_IsActive r" "ur_ExpiresAt r = Some (timestamptz t)" and t: "now \<le> timestamptz t"
  shows "\<exists>info jobs. RedirectToURL L None now (ur_ShortCode r) addr (us_db st) (us_cache st) = (Ret (Inr info), jobs)
    \<and> ri_OriginalURL info = ur_OriginalURL r \<and> ri_UserEmail info = ur_UserEmail r"
proof (cases "cache_Get (lib_redis L) now (ur_ShortCode r) (us_cache st)")
  case None
  have "table_inv (lib_uuid L) (us_db st)" using inv by (simp add: us_inv_def outbox_inv_def)
  from FindByCode_row [OF this row(1)] None row(2,3) t show ?thesis
    by (simp add: RedirectToURL_def expired_def)
next
  case (Some u)
  obtain v d where "view (us_cache st) (ur_ShortCode r) = Some (v, d)" "Unmarshal CachedURL_fields zero_CachedURL v = Some u"
    using cache_Get_Some [OF kv Some] by blast
  with inv have "agrees (lib_uuid L) (us_db st) (ur_ShortCode r) u" by (auto simp: us_inv_def cache_inv_def)
  then obtain r' where r': "r' \<in> set (urls (us_db st))" "ur_ShortCode r' = ur_ShortCode r"
    and a: "ur_OriginalURL r' = cu_OriginalURL u" "ur_UserEmail r' = cu_UserEmail u"
      "ur_ExpiresAt r' = map_option timestamptz (cu_ExpiresAt u)" "cu_IsActive u"
    by (auto simp: agrees_def)
  have "distinct (map ur_ShortCode (urls (us_db st)))" using inv by (simp add: us_inv_def outbox_inv_def table_inv_def)
  from distinct_map_unique [OF this r'(1) row(1) r'(2)] have "r' = r" .
  with a row(3) obtain te where te: "cu_ExpiresAt u = Some te" "timestamptz t = timestamptz te"
    by (cases "cu_ExpiresAt u") auto
  from timestamptz_expiry [OF t te(2)] te(1) have "\<not> expired now (cu_ExpiresAt u)" by (simp add: expired_def)
  with Some a \<open>r' = r\<close> show ?thesis by (simp add: RedirectToURL_def)
qed

lemma active_url_answers:
  assumes "us_inv L view st" and "kv_laws (lib_redis L) view" and "r \<in> set (urls (us_db st))" and "ur_IsActive r"
    and "ur_ExpiresAt r = Some (timestamptz t)" and "now \<le> timestamptz t" and "ur_ShortCode r \<noteq> ''''"
  shows "fst (HandleRedirect L None now req (ur_ShortCode r) st) = Ret (http_Redirect req (ur_OriginalURL r))"
  using active_url_redirects [OF assms(1-6), of "req_remoteAddr req"] assms(7) by (auto simp: HandleRedirect_def)

text \<open>A shortening that is answered 201 has stored the row of the reply.\<close>

lemma do_shorten_201:
  assumes tx: "\<And>n. tx_laws (at_tx (se_attempts se n))"
    and S: "do_shorten L base se body uid email st = (Ret resp, sleeps, st')" and "resp_status resp = 201"
  shows "\<exists>req sr r n. decode_shorten body = Some req \<and> resp = json_response 201 (PShorten sr)
    \<and> sr_OriginalURL sr = rq_URL req
    \<and> sr_ExpiresAt sr = se_now se + normalize_hours (rq_ExpiresInHours req) * hour \<and> at_Generate (se_attempts se n) = Ret (sr_ShortCode sr)
    \<and> r \<in> set (urls (us_db st')) \<and> ur_ShortCode r = sr_ShortCode sr \<and> ur_OriginalURL r = rq_URL req
    \<and> ur_ExpiresAt r = Some (timestamptz (sr_ExpiresAt sr)) \<and> ur_UserEmail r = email
    \<and> lib_uuid L uid = Some (ur_UserID r) \<and> ur_IsActive r"
proof -
  from S assms(3) obtain req where req: "decode_shorten body = Some req"
    by (auto simp: do_shorten_def split: option.splits)
  let ?t = "se_now se + normalize_hours (rq_ExpiresInHours req) * hour"
  obtain lr sl db where loop: "shorten_loop (lib_uuid L) (se_attempts se) (rq_URL req) uid email ?t 0 (us_db st) = (lr, sl, db)"
    by (metis prod_cases3)
  from S assms(3) req loop obtain code where lr: "lr = Inserted code" and st': "us_db st' = db"
    and resp: "resp = json_response 201 (PShorten \<lparr>sr_ShortCode = code, sr_ShortURL = base @ ''/'' @ code,
        sr_OriginalURL = rq_URL req, sr_ExpiresAt = ?t\<rparr>)"
    by (auto simp: do_shorten_def ShortenURL_def write_http_error_def Let_def split: option.splits loop_result.splits)
  from shorten_loop_Inserted [OF tx loop [unfolded lr]] obtain n dbn where
    n: "at_Generate (se_attempts se n) = Ret code" "shorten_tx (lib_uuid L) (se_attempts se n) code (rq_URL req) uid email ?t dbn = Inr db"
    by blast
  from n(2) obtain r where "r \<in> set (urls db)" "ur_ShortCode r = code" "ur_OriginalURL r = rq_URL req"
    "ur_ExpiresAt r = Some (timestamptz ?t)" "ur_UserEmail r = email" "lib_uuid L uid = Some (ur_UserID r)"
    "ur_IsActive r"
    by (elim shorten_tx_row) force
  with n(1) req resp st' show ?thesis by fastforce
qed

end
