(* ===== verification/Base62.thy ===== *)
theory Base62
  imports GoStd "HOL-Library.Word"
begin

text \<open>
  Short codes: \<open>services/url-service/base62.go\<close> (\<open>Encode\<close>, \<open>Decode\<close>) and
  \<open>codegen.go\<close> (\<open>Generate\<close>). A \<open>*big.Int\<close> is an \<open>int option\<close>, \<open>None\<close> the nil
  pointer; the buffer of \<open>Encode\<close> is a list updated by index from the right, as in the code.
\<close>

section \<open>The code\<close>

definition base62Alphabet :: string where
  "base62Alphabet = ''0123456789ABCDEFGHIJKLMNOPQRSTUVWXYZabcdefghijklmnopqrstuvwxyz''"

definition shortCodeLength :: nat where
  "shortCodeLength = 7"

text \<open>The loop \<open>for i := shortCodeLength - 1; i >= 0; i--\<close>, with \<open>Suc i\<close> iterations left.\<close>

fun encode_loop :: "nat \<Rightarrow> int \<Rightarrow> string \<Rightarrow> string" where
  "encode_loop 0 n buf = buf"
| "encode_loop (Suc i) n buf =
     encode_loop i (n div 62) (buf[i := base62Alphabet ! nat (n mod 62)])"

definition Encode :: "int option \<Rightarrow> string" where
  "Encode p =
     (case p of
        None \<Rightarrow> ''''
      | Some n \<Rightarrow>
          let n = \<bar>n\<bar>;
              limit = 62 ^ shortCodeLength;
              n = n mod limit
          in encode_loop shortCodeLength n (replicate shortCodeLength (CHR 0x00)))"

datatype decode_error = InvalidLength | InvalidCharacter

fun decode_loop :: "string \<Rightarrow> int \<Rightarrow> decode_error + int" where
  "decode_loop [] result = Inr result"
| "decode_loop (c # cs) result =
     (let idx = IndexByte base62Alphabet c in
      if idx = - 1 then Inl InvalidCharacter
      else decode_loop cs (result * 62 + idx))"

definition Decode :: "string \<Rightarrow> decode_error + int" where
  "Decode s = (if length s \<noteq> shortCodeLength then Inl InvalidLength else decode_loop s 0)"

text \<open>\<open>big.Int.SetBytes\<close>: the bytes as a big-endian unsigned number.\<close>

fun SetBytes :: "int \<Rightarrow> 8 word list \<Rightarrow> int" where
  "SetBytes acc [] = acc"
| "SetBytes acc (b # bs) = SetBytes (acc * 256 + uint b) bs"

text \<open>
  \<open>Generate\<close> reads 8 random bytes; the argument is what \<open>crypto/rand\<close> gave, \<open>None\<close> when
  it failed, which the code turns into a panic.
\<close>

definition Generate :: "8 word list option \<Rightarrow> string go" where
  "Generate r = (case r of None \<Rightarrow> Panic | Some b \<Rightarrow> Ret (Encode (Some (SetBytes 0 b))))"

section \<open>The alphabet\<close>

lemma alphabet_length [simp]: "length base62Alphabet = 62"
  by (simp add: base62Alphabet_def)

lemma alphabet_distinct: "distinct base62Alphabet"
  by (simp add: base62Alphabet_def)

definition base62_char :: "char \<Rightarrow> bool" where
  "base62_char c \<longleftrightarrow> c \<in> set base62Alphabet"

definition is_short_code :: "string \<Rightarrow> bool" where
  "is_short_code s \<longleftrightarrow> length s = shortCodeLength \<and> list_all base62_char s"

definition dig :: "int \<Rightarrow> char" where
  "dig d = base62Alphabet ! nat d"

lemma dig_char: "0 \<le> d \<Longrightarrow> d < 62 \<Longrightarrow> base62_char (dig d)"
  by (simp add: dig_def base62_char_def)

lemma index_dig: "0 \<le> d \<Longrightarrow> d < 62 \<Longrightarrow> IndexByte base62Alphabet (dig d) = d"
  using IndexByte_distinct [OF alphabet_distinct, of "nat d"] by (simp add: dig_def)

lemma dig_index:
  "base62_char c \<Longrightarrow> 0 \<le> IndexByte base62Alphabet c \<and> IndexByte base62Alphabet c < 62
     \<and> dig (IndexByte base62Alphabet c) = c"
  using IndexByte_nth [of c base62Alphabet] by (auto simp: dig_def base62_char_def)

section \<open>Encode against the reference rendering\<close>

text \<open>The reference: \<open>k\<close> base-62 digits of \<open>n\<close>, most significant first.\<close>

fun digits62 :: "nat \<Rightarrow> int \<Rightarrow> string" where
  "digits62 0 n = []"
| "digits62 (Suc k) n = digits62 k (n div 62) @ [dig (n mod 62)]"

lemma length_digits62 [simp]: "length (digits62 k n) = k"
  by (induction k arbitrary: n) auto

lemma digits62_chars: "list_all base62_char (digits62 k n)"
  by (induction k arbitrary: n) (auto simp: dig_char)

lemma encode_loop_eq:
  "length buf = k + j \<Longrightarrow> encode_loop k n buf = digits62 k n @ drop k buf"
proof (induction k arbitrary: n buf j)
  case (Suc k)
  have "encode_loop (Suc k) n buf = digits62 k (n div 62) @ drop k (buf[k := dig (n mod 62)])"
    using Suc.IH [of "buf[k := dig (n mod 62)]" "Suc j" "n div 62"] Suc.prems
    by (simp add: dig_def)
  also have "drop k (buf[k := dig (n mod 62)]) = dig (n mod 62) # drop (Suc k) buf"
    using Suc.prems by (simp flip: Cons_nth_drop_Suc)
  finally show ?case by simp
qed simp

lemma Encode_Some: "Encode (Some n) = digits62 shortCodeLength (\<bar>n\<bar> mod 62 ^ shortCodeLength)"
  using encode_loop_eq [of _ shortCodeLength 0] by (simp add: Encode_def)

lemma decode_loop_append:
  "decode_loop (s @ t) r = (case decode_loop s r of Inl e \<Rightarrow> Inl e | Inr v \<Rightarrow> decode_loop t v)"
  by (induction s arbitrary: r) (auto simp: Let_def)

lemma decode_digits62:
  "0 \<le> n \<Longrightarrow> decode_loop (digits62 k n) r = Inr (r * 62 ^ k + n mod 62 ^ k)"
proof (induction k arbitrary: n r)
  case (Suc k)
  have "(n div 62) mod 62 ^ k * 62 + n mod 62 = n mod (62 * 62 ^ k)"
    by (simp add: zmod_zmult2_eq)
  moreover have "n mod 62 \<noteq> - 1" by (metis neg_0_le_iff_le not_one_le_zero pos_mod_sign zero_less_numeral)
  ultimately show ?case using Suc
    by (simp add: decode_loop_append index_dig Let_def algebra_simps)
qed simp

lemma decode_loop_ok:
  "list_all base62_char s \<Longrightarrow> 0 \<le> r \<Longrightarrow>
     \<exists>v. decode_loop s r = Inr v \<and> r * 62 ^ length s \<le> v \<and> v < (r + 1) * 62 ^ length s
       \<and> s = digits62 (length s) v"
proof (induction s arbitrary: r rule: rev_induct)
  case (snoc c s)
  then obtain v where v: "decode_loop s r = Inr v" "r * 62 ^ length s \<le> v"
      "v < (r + 1) * 62 ^ length s" "s = digits62 (length s) v" by fastforce
  from snoc.prems have d: "0 \<le> IndexByte base62Alphabet c" "IndexByte base62Alphabet c < 62"
      "dig (IndexByte base62Alphabet c) = c" using dig_index by auto
  let ?w = "v * 62 + IndexByte base62Alphabet c"
  have "v + 1 \<le> (r + 1) * 62 ^ length s" using v by simp
  then have "(v + 1) * 62 \<le> (r + 1) * 62 ^ length s * 62" by simp
  then have "?w < (r + 1) * 62 ^ length (s @ [c])" using d by simp
  moreover have "r * 62 ^ length (s @ [c]) \<le> ?w" using v d by simp
  moreover have "decode_loop (s @ [c]) r = Inr ?w"
    using v d by (simp add: decode_loop_append)
  moreover have "s @ [c] = digits62 (length (s @ [c])) ?w"
    using d v(4) by simp
  ultimately show ?case by blast
qed simp

lemma decode_loop_bad:
  "\<not> list_all base62_char s \<Longrightarrow> decode_loop s r = Inl InvalidCharacter"
  by (induction s arbitrary: r) (auto simp: Let_def base62_char_def IndexByte_neg_iff)

section \<open>The range of values\<close>

lemma card_mod_class:
  fixes m N r :: nat
  assumes "0 < m" and "r < m"
  shows "card {v \<in> {..<N}. v mod m = r} = N div m + (if r < N mod m then 1 else 0)"
proof -
  have "{v \<in> {..<N}. v mod m = r} = (\<lambda>k. k * m + r) ` {..<N div m + (if r < N mod m then 1 else 0)}"
    (is "?A = ?f ` ?B")
  proof (rule set_eqI)
    fix v
    have "v < N \<longleftrightarrow> v div m < N div m + (if r < N mod m then 1 else 0)" if "v mod m = r"
    proof -
      have v: "v = (v div m) * m + r" using that by (metis div_mult_mod_eq)
      have n: "N = (N div m) * m + N mod m" by simp
      have lt: "N mod m < m" using assms by simp
      show ?thesis
      proof (cases "v div m" "N div m" rule: linorder_cases)
        case less
        then have "(v div m + 1) * m \<le> (N div m) * m" by (intro mult_right_mono) auto
        moreover have "(N div m) * m \<le> N" by simp
        moreover have "v < (v div m + 1) * m" using v assms by simp
        ultimately have "v < N" by linarith
        with less show ?thesis by simp
      next
        case equal
        with v have "v = (N div m) * m + r" by simp
        with n have "v < N \<longleftrightarrow> r < N mod m" by linarith
        with equal show ?thesis by simp
      next
        case greater
        then have "(N div m + 1) * m \<le> (v div m) * m" by (intro mult_right_mono) auto
        then have "N div m * m + m \<le> v div m * m" by (simp add: add.commute)
        with v n lt have "\<not> v < N" by linarith
        with greater show ?thesis by simp
      qed
    qed
    then show "v \<in> ?A \<longleftrightarrow> v \<in> ?f ` ?B"
      using assms by (auto simp: image_iff intro!: bexI [of _ "v div m"])
  qed
  moreover have "inj_on ?f ?B" using assms by (auto simp: inj_on_def)
  ultimately show ?thesis by (simp add: card_image)
qed

lemma SetBytes_range:
  "0 \<le> acc \<Longrightarrow> 0 \<le> SetBytes acc b \<and> SetBytes acc b < (acc + 1) * 256 ^ length b"
proof (induction b arbitrary: acc)
  case (Cons x b)
  have u: "0 \<le> uint x" "uint x < 256" using uint_bounded [of x] by auto
  then have "0 \<le> SetBytes (acc * 256 + uint x) b
      \<and> SetBytes (acc * 256 + uint x) b < (acc * 256 + uint x + 1) * 256 ^ length b"
    using Cons.IH [of "acc * 256 + uint x"] Cons.prems by simp
  moreover have "(acc * 256 + uint x + 1) * 256 ^ length b \<le> ((acc + 1) * 256) * 256 ^ length b"
    using u by (intro mult_right_mono) auto
  moreover have "((acc + 1) * 256) * 256 ^ length b = (acc + 1) * (256 :: int) ^ length (x # b)"
    by simp
  ultimately show ?case by (metis SetBytes.simps(2) order_less_le_trans)
qed simp

section \<open>Properties\<close>

text \<open>\<open>Encode\<close> always yields a short code: exactly seven characters of the alphabet,
  whatever the number (negative and larger than \<open>62^7\<close> included).\<close>

theorem Encode_is_short_code: "is_short_code (Encode (Some n))"
  by (simp add: Encode_Some is_short_code_def digits62_chars)

text \<open>\<open>Decode\<close> undoes \<open>Encode\<close> up to the sign and the modulus \<open>62^7\<close>.\<close>

theorem Decode_Encode: "Decode (Encode (Some n)) = Inr (\<bar>n\<bar> mod 62 ^ 7)"
  using decode_digits62 [of "\<bar>n\<bar> mod 62 ^ 7" 7 0]
  by (simp add: Decode_def Encode_Some shortCodeLength_def)

text \<open>\<open>Decode\<close> accepts exactly the seven-character strings over the alphabet; then its
  value is in range and \<open>Encode\<close> gives the string back; other strings are the two errors.\<close>

theorem Decode_cases:
  "(if length s \<noteq> 7 then Decode s = Inl InvalidLength
    else if \<not> list_all base62_char s then Decode s = Inl InvalidCharacter
    else (\<exists>v. Decode s = Inr v \<and> 0 \<le> v \<and> v < 62 ^ 7 \<and> Encode (Some v) = s))"
  using decode_loop_ok [of s 0] decode_loop_bad [of s 0]
  by (auto simp: Decode_def shortCodeLength_def Encode_Some)

lemma nat_abs_mod: "nat (\<bar>n\<bar> mod 62 ^ 7) = nat \<bar>n\<bar> mod 62 ^ 7"
  by (simp add: nat_mod_distrib)

lemma Encode_eq_iff:
  "Encode (Some m) = Encode (Some n) \<longleftrightarrow> \<bar>m\<bar> mod 62 ^ 7 = \<bar>n\<bar> mod (62 :: int) ^ 7"
  by (auto simp: Encode_Some shortCodeLength_def dest: arg_cong [where f = Decode]
      simp: Decode_def decode_digits62)



text \<open>The generator's contract, as the URL service relies on it.\<close>

locale short_code_generator =
  fixes gen :: "'r \<Rightarrow> string go"
  assumes gen_code: "gen r = Ret c \<Longrightarrow> is_short_code c"
begin

lemma gen_length: "gen r = Ret c \<Longrightarrow> length c = 7"
  using gen_code by (auto simp: is_short_code_def shortCodeLength_def)

end

interpretation crypto_gen: short_code_generator Generate
  by unfold_locales (auto simp: Generate_def Encode_is_short_code split: option.splits)

end
