(* ===== verification/EndToEnd.thy ===== *)
theory EndToEnd
  imports SyncPath UrlActive Base62
begin

text \<open>
  From the client's side: what reaches an upstream when the gateway lets a request through, what
  comes back, and the way from a token of user-service over a shortening to a redirect, all of it
  through the gateway.
\<close>

section \<open>The gateway is transparent\<close>

text \<open>The request is routed, the limiter lets it pass, the upstream is configured, and the breaker, where
  it applies, is closed.\<close>

definition lets_through :: "('r, 'b) gw_handler \<Rightarrow> gw_env \<Rightarrow> http_request \<Rightarrow> Route \<Rightarrow> 'r gw_state \<Rightarrow> bool" where
  "lets_through h env r rt st \<longleftrightarrow> matchRoute r = Some rt \<and> map_of (h_upstreams h) (Upstream rt) \<noteq> None
     \<and> (RateLimitKey rt \<noteq> '''' \<longrightarrow>
          (let a = fst (checkRateLimit h r (RateLimitKey rt) (gw_limiter st)) in limiterErr a \<or> allowed_ok a))
     \<and> (case gw_breaker st of None \<Rightarrow> True
        | Some cb \<Rightarrow> Upstream rt = ''url-service'' \<longrightarrow> cb_state cb = StateClosed \<and> \<not> env_ctx_done env)"

definition upstream_request :: "('r, 'b) gw_handler \<Rightarrow> 8 word list option \<Rightarrow> http_request \<Rightarrow> Route \<Rightarrow> out_request" where
  "upstream_request h rnd r rt =
     (let r = fst (correlationIDMiddleware rnd r)
      in director (h_url_parse h) (the (map_of (h_upstreams h) (Upstream rt)))
           (r\<lparr>req_ctx := SetUpstreamPath (req_ctx r) (stripped_path rt (req_path r))\<rparr>))"

definition gw_authorized :: "jwt_parse \<Rightarrow> string \<Rightarrow> time \<Rightarrow> http_request \<Rightarrow> bool" where
  "gw_authorized parse secret now r \<longleftrightarrow>
     (\<exists>tok c. header_get (req_headers r) ''Authorization'' = ''Bearer '' @ tok \<and> VerifyToken parse now tok secret = Inr c)"

lemma matchRoute_cong:
  assumes "req_method r = req_method r'" and "req_path r = req_path r'"
  shows "matchRoute r = matchRoute r'"
proof -
  have "route_matches r = route_matches r'" using assms by (simp add: route_matches_def fun_eq_iff)
  then show ?thesis by (simp add: matchRoute_def match_loop_find)
qed

lemma checkRateLimit_cong:
  assumes "header_get (req_headers r) ''X-Forwarded-For'' = header_get (req_headers r') ''X-Forwarded-For''"
    and "header_get (req_headers r) ''X-Real-IP'' = header_get (req_headers r') ''X-Real-IP''"
    and "req_remoteAddr r = req_remoteAddr r'"
  shows "checkRateLimit h r key l = checkRateLimit h r' key l"
  unfolding checkRateLimit_def clientIP_def assms ..

lemma correlation_fields:
  assumes "correlationIDMiddleware rnd r = (r', hdr)"
  shows "req_method r' = req_method r" "req_path r' = req_path r" "req_remoteAddr r' = req_remoteAddr r"
    "k \<noteq> correlationIDHeader \<Longrightarrow> header_get (req_headers r') k = header_get (req_headers r) k"
    "fst hdr = correlationIDHeader"
  using assms by (auto simp: correlationIDMiddleware_def Let_def split: if_splits)

lemma director_ctx:
  "director p u (r\<lparr>req_ctx := SetUpstreamPath ctx path\<rparr>) = director p u (r\<lparr>req_ctx := SetUpstreamPath ctx' path\<rparr>)"
  by (simp add: director_def upstreamPath_def SetUpstreamPath_def Let_def split: prod.split)

lemma upstream_request_fields:
  "out_method (upstream_request h rnd r rt) = req_method r"
  "out_path (upstream_request h rnd r rt) = stripped_path rt (req_path r)"
  "k \<notin> {''X-Real-IP'', ''X-Forwarded-Proto'', ''X-Forwarded-For'', ''X-Correlation-ID''} \<Longrightarrow>
     header_get (out_headers (upstream_request h rnd r rt)) k = header_get (req_headers r) k"
proof -
  obtain r' hdr where c: "correlationIDMiddleware rnd r = (r', hdr)" by (metis surj_pair)
  note f = correlation_fields [OF c]
  show "out_method (upstream_request h rnd r rt) = req_method r"
    "out_path (upstream_request h rnd r rt) = stripped_path rt (req_path r)"
    using f by (simp_all add: upstream_request_def c director_def upstreamPath_def SetUpstreamPath_def Let_def split: prod.split)
  assume "k \<notin> {''X-Real-IP'', ''X-Forwarded-Proto'', ''X-Forwarded-For'', ''X-Correlation-ID''}"
  then show "header_get (out_headers (upstream_request h rnd r rt)) k = header_get (req_headers r) k"
    using f(4) [of k] by (simp add: upstream_request_def c director_def correlationIDHeader_def Let_def split: prod.split)
qed

text \<open>What the proxy writes for an outcome of the round trip that does not break off.\<close>

fun answer_of :: "'b proxy_event \<Rightarrow> 'b response option" where
  "answer_of (RoundTrip resp) = Some resp"
| "answer_of (RoundTripError e) = Some (text_response 502 ''bad gateway'')"
| "answer_of (BodyCopyFailed resp) = None"

lemma forward_passes:
  assumes rt: "map_of (h_upstreams h) (Upstream rt) = Some url"
    and br: "case gw_breaker st of None \<Rightarrow> True
        | Some cb \<Rightarrow> Upstream rt = ''url-service'' \<longrightarrow> cb_state cb = StateClosed \<and> \<not> env_ctx_done env"
    and T: "answer_of (h_transport h (director (h_url_parse h) url
        (r\<lparr>req_ctx := SetUpstreamPath (req_ctx r) (stripped_path rt (req_path r))\<rparr>))) = Some resp"
  shows "fst (forward h env r rt st) = Ret resp"
proof -
  let ?r = "r\<lparr>req_ctx := SetUpstreamPath (req_ctx r) (stripped_path rt (req_path r))\<rparr>"
  obtain err where P: "ServeHTTPStatus (h_transport h) (h_url_parse h) (h_upstreams h) ?r (Upstream rt)
      = Proxied (resp_status resp) err resp"
    using rt T by (cases "h_transport h (director (h_url_parse h) url ?r)")
      (auto simp: ServeHTTPStatus_def doProxy_def text_response_def)
  have D: "fst (proxy_directly h env ?r (Upstream rt) st) = Ret resp" by (simp add: proxy_directly_def P)
  show ?thesis
  proof (cases "gw_breaker st")
    case None
    with D show ?thesis by (simp add: forward_def)
  next
    case (Some cb)
    show ?thesis
    proof (cases "Upstream rt = ''url-service''")
      case True
      with Some br have cb: "cb_admit (env_start env) cb = (True, cb, [])" "\<not> env_ctx_done env"
        by (simp_all add: cb_admit_def)
      have "fst (proxy_through_breaker h env ?r (Upstream rt) cb st) = Ret resp"
        using P cb by (simp add: proxy_through_breaker_def cb_Do_def proxy_call_def Let_def split: prod.split option.split)
      with True Some show ?thesis by (simp add: forward_def)
    qed (use Some D in \<open>simp add: forward_def\<close>)
  qed
qed

lemma gw_ServeHTTP_passes:
  assumes lt: "lets_through h env r rt st"
    and T: "answer_of (h_transport h (director (h_url_parse h) (the (map_of (h_upstreams h) (Upstream rt)))
        (r\<lparr>req_ctx := SetUpstreamPath (req_ctx r) (stripped_path rt (req_path r))\<rparr>))) = Some resp"
  shows "fst (gw_ServeHTTP h env r st) = Ret resp"
proof -
  from lt obtain url where u: "matchRoute r = Some rt" "map_of (h_upstreams h) (Upstream rt) = Some url"
    by (auto simp: lets_through_def)
  have F: "fst (forward h env r rt s) = Ret resp" if "gw_breaker s = gw_breaker st" for s
    by (rule forward_passes [OF u(2)]) (use lt T u that in \<open>simp_all add: lets_through_def\<close>)
  show ?thesis
  proof (cases "RateLimitKey rt = ''''")
    case True
    with F [of st] u show ?thesis by (simp add: gw_ServeHTTP_def)
  next
    case False
    obtain a l where a: "checkRateLimit h r (RateLimitKey rt) (gw_limiter st) = (a, l)" by (metis surj_pair)
    with lt False have "limiterErr a \<or> allowed_ok a" by (simp add: lets_through_def)
    with False F [of "st\<lparr>gw_limiter := l\<rparr>"] u a show ?thesis by (auto simp: gw_ServeHTTP_def Let_def)
  qed
qed

lemma gw_protected_passes:
  fixes h :: "('r, 'b) gw_handler"
  assumes lt: "lets_through h env r rt st"
    and auth: "RequiresAuth rt \<longrightarrow> gw_authorized parse secret (env_start env) r"
    and T: "answer_of (h_transport h (director (h_url_parse h) (the (map_of (h_upstreams h) (Upstream rt)))
        (r\<lparr>req_ctx := SetUpstreamPath (req_ctx r) (stripped_path rt (req_path r))\<rparr>))) = Some resp"
  shows "fst (gw_protected parse secret h env r st) = Ret resp"
proof -
  have rt: "matchRoute r = Some rt" using lt by (simp add: lets_through_def)
  have "\<exists>ctx. (gw_jwtMiddleware parse (env_start env) secret r :: 'b response + http_request) = Inr (r\<lparr>req_ctx := ctx\<rparr>)"
  proof (cases "RequiresAuth rt")
    case True
    with auth obtain tok c where "header_get (req_headers r) ''Authorization'' = ''Bearer '' @ tok"
      "VerifyToken parse (env_start env) tok secret = Inr c" by (auto simp: gw_authorized_def)
    then show ?thesis using rt True TrimPrefix_append [of "''Bearer ''" tok] HasPrefix_append [of "''Bearer ''" tok]
      by (auto simp: gw_jwtMiddleware_def Let_def)
  next
    case False
    with rt have "(gw_jwtMiddleware parse (env_start env) secret r :: 'b response + http_request) = Inr (r\<lparr>req_ctx := req_ctx r\<rparr>)"
      by (simp add: gw_jwtMiddleware_def)
    then show ?thesis by blast
  qed
  then obtain ctx where j: "(gw_jwtMiddleware parse (env_start env) secret r :: 'b response + http_request)
    = Inr (r\<lparr>req_ctx := ctx\<rparr>)" ..
  have "matchRoute (r\<lparr>req_ctx := ctx\<rparr>) = matchRoute r" by (rule matchRoute_cong) simp_all
  moreover have "checkRateLimit h (r\<lparr>req_ctx := ctx\<rparr>) key l = checkRateLimit h r key l" for key l
    by (rule checkRateLimit_cong) simp_all
  ultimately have "lets_through h env (r\<lparr>req_ctx := ctx\<rparr>) rt st" using lt by (simp add: lets_through_def)
  then have "fst (gw_ServeHTTP h env (r\<lparr>req_ctx := ctx\<rparr>) st) = Ret resp"
    by (rule gw_ServeHTTP_passes)
       (use T director_ctx [where r = r and ctx = "req_ctx r" and ctx' = ctx] in simp)
  then show ?thesis by (simp add: gw_protected_def j)
qed

lemma table_not_operational: "rt \<in> set routingTable \<Longrightarrow> Method rt \<noteq> '''' \<and> Method rt \<noteq> ''OPTIONS''
    \<and> \<not> HasPrefix ''/health'' (PathPrefix rt) \<and> \<not> HasPrefix ''/metrics'' (PathPrefix rt)"
proof -
  have "list_all (\<lambda>rt. Method rt \<noteq> '''' \<and> Method rt \<noteq> ''OPTIONS''
    \<and> \<not> HasPrefix ''/health'' (PathPrefix rt) \<and> \<not> HasPrefix ''/metrics'' (PathPrefix rt)) routingTable" by code_simp
  then show "rt \<in> set routingTable \<Longrightarrow> ?thesis" by (auto simp: list_all_iff)
qed

lemma gw_app_passes:
  fixes h :: "('r, 'b) gw_handler"
  assumes lt: "lets_through h env r rt st"
    and auth: "RequiresAuth rt \<longrightarrow> gw_authorized parse secret (env_start env) r"
    and T: "answer_of (h_transport h (upstream_request h rnd r rt)) = Some resp"
  shows "\<exists>cid log st'. gw_app parse secret h ops env rnd r st
    = (Ret (resp\<lparr>resp_headers := cors_headers @ (correlationIDHeader, cid) # resp_headers resp\<rparr>), log, st')"
proof -
  obtain r' hdr where c: "correlationIDMiddleware rnd r = (r', hdr)" by (metis surj_pair)
  note f = correlation_fields [OF c]
  have rt: "matchRoute r = Some rt" using lt by (simp add: lets_through_def)
  note t = matchRoute_Some [OF rt]
  have m: "matchRoute r' = matchRoute r" using f by (rule_tac matchRoute_cong)
  moreover have "checkRateLimit h r' key l = checkRateLimit h r key l" for key l
    using f by (intro checkRateLimit_cong) (simp_all add: correlationIDHeader_def)
  ultimately have lt': "lets_through h env r' rt st" using lt by (simp add: lets_through_def)
  have "gw_authorized parse secret (env_start env) r' = gw_authorized parse secret (env_start env) r"
    using f(4) [of "''Authorization''"] by (simp add: gw_authorized_def correlationIDHeader_def)
  with auth have auth': "RequiresAuth rt \<longrightarrow> gw_authorized parse secret (env_start env) r'" by simp
  have "fst (gw_protected parse secret h env r' st) = Ret resp"
    by (rule gw_protected_passes [OF lt' auth']) (use T c f(2) in \<open>simp add: upstream_request_def\<close>)
  moreover have "req_path r' \<notin> {''/health'', ''/metrics''}"
    using t table_not_operational [of rt] f(2) by (auto simp: route_matches_def)
  ultimately have g: "fst (gw_mux parse secret h ops env r' st) = Ret resp" by (simp add: gw_mux_def)
  have "(corsMiddleware r :: 'b response option) = None" using t table_not_operational [of rt] by (auto simp: corsMiddleware_def route_matches_def)
  with g f(5) c show ?thesis
    by (cases hdr; cases "gw_mux parse secret h ops env r' st") (auto simp: gw_app_def)
qed

section \<open>The requests as url-service sees them\<close>

lemma shorten_arrives:
  assumes "out_method out = ''POST''" and "out_path out = ''/shorten''"
    and "header_get (out_headers out) ''Authorization'' = ''Bearer '' @ tok" and "tok \<noteq> ''''"
    and "VerifyToken parse (ue_now env) tok secret = Inr c"
    and "us_serve L parse secret base ops env (received gwAddr ct out) st = (Ret resp, st1)" and "resp_status resp = 201"
  shows "\<exists>sleeps. do_shorten L base (ue_shorten env) (ct_body ct) (Sub c) (Email c) st = (Ret resp, sleeps, st1)"
proof -
  have m: "us_mux ''POST'' (path_segments ''/shorten'') = ToShorten" by code_simp
  have j: "JWTMiddleware parse (ue_now env) secret (arriving gwAddr out)
      = Inr ((arriving gwAddr out)\<lparr>req_ctx := background\<lparr>ctx_claims := Some c\<rparr>\<rparr>)"
    using assms(3-5) TrimPrefix_append [of "''Bearer ''" tok] HasPrefix_append [of "''Bearer ''" tok]
    by (simp add: JWTMiddleware_def arriving_def Let_def)
  have a: "us_mux (req_method (arriving gwAddr out)) (path_segments (req_path (arriving gwAddr out))) = ToShorten"
    using assms(1,2) m by (simp add: arriving_def)
  from assms(6,7) show ?thesis
    by (auto simp: us_serve_def received_def a j us_dispatch_def HandleShorten_def ClaimsFromContext_def Let_def
        split: if_splits prod.splits)
qed

lemma plain_code:
  assumes "is_short_code code" and "code \<noteq> ''metrics''"
  shows "code \<notin> {'''', ''health'', ''metrics'', ''urls''}" and "CHR ''/'' \<notin> set code"
proof -
  have l: "length code = 7" "list_all base62_char code" using assms(1) by (simp_all add: is_short_code_def shortCodeLength_def)
  show "code \<notin> {'''', ''health'', ''metrics'', ''urls''}" using l(1) assms(2) by auto
  have "\<not> base62_char CHR ''/''" by code_simp
  with l(2) show "CHR ''/'' \<notin> set code" by (auto simp: list_all_iff)
qed

lemma redirect_arrives:
  assumes "code \<notin> {'''', ''health'', ''metrics'', ''urls''}" and "CHR ''/'' \<notin> set code"
    and "out_method out = ''GET''" and "out_path out = CHR ''/'' # code"
  shows "us_serve L parse secret base ops env (received gwAddr ct out) st
    = HandleRedirect L (ue_fault env) (ue_now env) (arriving gwAddr out) code st"
proof -
  have "path_segments (CHR ''/'' # code) = [code]"
    using assms(1,2) by (simp add: path_segments_def TrimPrefix_def HasPrefix_def SplitByte_plain)
  then have "us_mux ''GET'' (path_segments (CHR ''/'' # code)) = ToRedirect code"
    using assms(1) by (simp add: us_mux_def)
  with assms(3,4) show ?thesis by (simp add: received_def us_serve_def arriving_def us_dispatch_def Let_def)
qed

section \<open>From a token to a redirect\<close>

definition api_shorten :: "string \<Rightarrow> http_request \<Rightarrow> bool" where
  "api_shorten tok r \<longleftrightarrow> req_method r = ''POST'' \<and> req_path r = ''/api/shorten''
     \<and> header_get (req_headers r) ''Authorization'' = ''Bearer '' @ tok"

lemma gw_shorten_reaches:
  fixes h :: "('r, us_payload) gw_handler"
  assumes jwt: "jwt_laws parse sign" and issue: "Issue sign t0 (NewTokenIssuer secret ttl) uid email = Some (tok, expiresAt)"
    and tok: "tok \<noteq> ''''" and fresh: "env_start env < unix_secs expiresAt * second" "ue_now uenv < unix_secs expiresAt * second"
    and r: "api_shorten tok r" and pass: "lets_through h env r (routingTable ! 3) gst"
    and T: "h_transport h = url_transport L parse secret base ops uenv gwAddr ct st"
    and run: "gw_app parse secret h gops env rnd r gst = (Ret resp, log, gst')" and created: "resp_status resp = 201"
    and st1: "st1 = snd (us_serve L parse secret base ops uenv (received gwAddr ct (upstream_request h rnd r (routingTable ! 3))) st)"
  shows "\<exists>resp1 sleeps. do_shorten L base (ue_shorten uenv) (ct_body ct) uid email st = (Ret resp1, sleeps, st1)
    \<and> resp_status resp1 = 201 \<and> resp_body resp1 = resp_body resp"
proof -
  let ?out = "upstream_request h rnd r (routingTable ! 3)"
  have o: "out_method ?out = ''POST''" "out_path ?out = ''/shorten''"
    "header_get (out_headers ?out) ''Authorization'' = ''Bearer '' @ tok"
    using r by (simp_all add: upstream_request_fields api_shorten_def) (simp add: stripped_path_def routingTable_def HasPrefix_def)
  let ?c = "\<lparr>Sub = uid, Email = email, Iss = ''url-shortener'', Iat = unix_secs t0,
     Exp = unix_secs (t0 + issuer_ttl (NewTokenIssuer secret ttl))\<rparr>"
  have v: "VerifyToken parse now tok secret = Inr ?c" if "now < unix_secs expiresAt * second" for now
    using Issue_Verify [OF jwt issue that] by (simp add: NewTokenIssuer_def)
  from v [OF fresh(1)] r have auth: "gw_authorized parse secret (env_start env) r" by (auto simp: gw_authorized_def api_shorten_def)
  let ?S = "us_serve L parse secret base ops uenv (received gwAddr ct ?out) st"
  have T': "h_transport h ?out = (case fst ?S of Panic \<Rightarrow> RoundTripError ''EOF'' | Ret resp \<Rightarrow> RoundTrip resp)"
    by (simp add: T url_transport_def)
  then obtain resp1 where a: "answer_of (h_transport h ?out) = Some resp1" by (cases "fst ?S") auto
  from gw_app_passes [OF pass _ a, of parse secret gops] auth run
  have eq: "resp_status resp1 = resp_status resp" "resp_body resp1 = resp_body resp" by auto
  with a T' created have "fst ?S = Ret resp1" by (cases "fst ?S") (auto simp: text_response_def)
  then have "?S = (Ret resp1, st1)" using st1 by (metis prod.collapse)
  from shorten_arrives [OF o tok v [OF fresh(2)] this] eq created show ?thesis by auto
qed

lemma gw_redirect_reaches:
  fixes h :: "('r, us_payload) gw_handler"
  assumes pass: "lets_through h env (redirect_request hs addr code) (routingTable ! 6) gst"
    and T: "h_transport h = url_transport L parse secret base ops uenv gwAddr ct st" and fault: "ue_fault uenv = None"
    and inv: "us_inv L view st" "kv_laws (lib_redis L) view"
    and row: "x \<in> set (urls (us_db st))" "ur_ShortCode x = code" "ur_IsActive x" "ur_ExpiresAt x = Some (timestamptz t)"
    and t: "ue_now uenv \<le> timestamptz t" and code: "is_short_code code" "code \<noteq> ''metrics''"
  shows "\<exists>resp log gst'. gw_app parse secret h gops env rnd (redirect_request hs addr code) gst = (Ret resp, log, gst')
    \<and> resp_status resp = 308 \<and> header_get (resp_headers resp) ''Location'' = hexEscapeNonASCII (ur_OriginalURL x)"
proof -
  let ?r = "redirect_request hs addr code" and ?out = "upstream_request h rnd (redirect_request hs addr code) (routingTable ! 6)"
  note p = plain_code [OF code]
  have o: "out_method ?out = ''GET''" "out_path ?out = CHR ''/'' # code"
    using redirect_stripped [of code] by (simp_all add: upstream_request_fields redirect_request_def)
  have "fst (HandleRedirect L None (ue_now uenv) (arriving gwAddr ?out) code st) = Ret (http_Redirect (arriving gwAddr ?out) (ur_OriginalURL x))"
    using active_url_answers [OF inv row(1,3,4) t, of "arriving gwAddr ?out"] row(2) p(1) by simp
  then have a: "answer_of (h_transport h ?out) = Some (http_Redirect (arriving gwAddr ?out) (ur_OriginalURL x))"
    by (simp add: T url_transport_def redirect_arrives [OF p o] fault)
  have "\<not> RequiresAuth (routingTable ! 6)" by code_simp
  with gw_app_passes [OF pass _ a, of parse secret gops] show ?thesis
    by (fastforce simp: http_Redirect_def header_get_def cors_headers_def correlationIDHeader_def)
qed

text \<open>C4: from a token to a redirect, through the gateway: when a client with an unexpired token of
  user-service shortens through the gateway and is answered 201, the reply carries the URL of its
  request, its expiry (the hours asked for, one day when it asks for none or more than a year) and a
  code stored for its user; and in every later state of url-service, as long as that
  code is not deactivated and has not expired, anybody's \<open>GET /r/<code>\<close> that the gateway lets
  through is answered 308 to that URL, whether it is cached or not. The one exception is the code
  \<open>metrics\<close>, which the generator can produce and the mux does not route to the redirect.\<close>

theorem shorten_redirect_through_gateway:
  fixes h h2 :: "('r, us_payload) gw_handler"
  assumes "jwt_laws parse sign" and "Issue sign t0 (NewTokenIssuer secret ttl) uid email = Some (tok, expiresAt)"
    and "tok \<noteq> ''''" and "env_start env < unix_secs expiresAt * second" and "ue_now uenv < unix_secs expiresAt * second"
    and "kv_laws (lib_redis L) view" and "uuid_laws (lib_uuid L)" and "fair_env uenv"
    and gen: "\<And>n. at_Generate (se_attempts (ue_shorten uenv) n) \<in> range Generate"
    and st: "reach (us_start view) (us_run L view parse secret base ops) st"
    and "api_shorten tok r" and "lets_through h env r (routingTable ! 3) gst"
    and "h_transport h = url_transport L parse secret base ops uenv gwAddr ct st"
    and "gw_app parse secret h gops env rnd r gst = (Ret resp, log, gst')" and "resp_status resp = 201"
    and st1: "st1 = snd (us_serve L parse secret base ops uenv (received gwAddr ct (upstream_request h rnd r (routingTable ! 3))) st)"
    and later: "(us_run L view parse secret base ops)\<^sup>*\<^sup>* st1 st2"
    and "\<And>code. lets_through h2 env2 (redirect_request hs addr code) (routingTable ! 6) gst2"
    and "h_transport h2 = url_transport L parse secret base ops uenv2 gwAddr ct2 st2" and "ue_fault uenv2 = None"
  shows "\<exists>req sr row. decode_shorten (ct_body ct) = Some req \<and> resp_body resp = JsonBody (PShorten sr)
    \<and> sr_OriginalURL sr = rq_URL req
    \<and> sr_ExpiresAt sr = se_now (ue_shorten uenv) + (if 1 \<le> rq_ExpiresInHours req \<and> rq_ExpiresInHours req \<le> 8760
         then rq_ExpiresInHours req else 24) * hour
    \<and> row \<in> set (urls (us_db st1)) \<and> ur_ShortCode row = sr_ShortCode sr
    \<and> lib_uuid L uid = Some (ur_UserID row) \<and> ur_UserEmail row = email
    \<and> (sr_ShortCode sr \<noteq> ''metrics'' \<longrightarrow> ue_now uenv2 \<le> timestamptz (sr_ExpiresAt sr) \<longrightarrow>
        (\<forall>x \<in> set (urls (us_db st2)). ur_ShortCode x = sr_ShortCode sr \<longrightarrow> ur_IsActive x) \<longrightarrow>
        (\<exists>resp2 log2 gst3. gw_app parse secret h2 gops env2 rnd' (redirect_request hs addr (sr_ShortCode sr)) gst2
            = (Ret resp2, log2, gst3) \<and> resp_status resp2 = 308
          \<and> header_get (resp_headers resp2) ''Location'' = hexEscapeNonASCII (rq_URL req)))"
proof -
  from gw_shorten_reaches [OF assms(1-5,11-16)] obtain resp1 sl where
    d: "do_shorten L base (ue_shorten uenv) (ct_body ct) uid email st = (Ret resp1, sl, st1)"
    and s: "resp_status resp1 = 201" "resp_body resp1 = resp_body resp" by blast
  have "tx_laws (at_tx (se_attempts (ue_shorten uenv) n))" for n using assms(8) by (simp add: fair_env_def)
  from do_shorten_201 [OF this d s(1)] obtain req sr row n where q: "decode_shorten (ct_body ct) = Some req"
    "resp1 = json_response 201 (PShorten sr)" "sr_OriginalURL sr = rq_URL req"
    "sr_ExpiresAt sr = se_now (ue_shorten uenv) + normalize_hours (rq_ExpiresInHours req) * hour"
    "at_Generate (se_attempts (ue_shorten uenv) n) = Ret (sr_ShortCode sr)"
    and row: "row \<in> set (urls (us_db st1))" "ur_ShortCode row = sr_ShortCode sr" "ur_OriginalURL row = rq_URL req"
      "ur_ExpiresAt row = Some (timestamptz (sr_ExpiresAt sr))" "ur_UserEmail row = email"
      "lib_uuid L uid = Some (ur_UserID row)" by blast
  have "is_short_code (sr_ShortCode sr)" using gen [of n] q(5) crypto_gen.gen_code by (auto simp: image_iff)
  note code = this
  have "us_inv L view st1"
    unfolding st1 by (rule us_serve_inv [OF assms(6,7,8) url_service.inv_reach [OF st]])
  from us_runs_kept [OF later this] row(1) obtain b where i2: "us_inv L view st2" and
    r2: "row\<lparr>ur_IsActive := b\<rparr> \<in> set (urls (us_db st2))" by (auto simp: rows_kept_def)
  have fin: "\<exists>resp2 log2 gst3. gw_app parse secret h2 gops env2 rnd' (redirect_request hs addr (sr_ShortCode sr)) gst2
            = (Ret resp2, log2, gst3) \<and> resp_status resp2 = 308
          \<and> header_get (resp_headers resp2) ''Location'' = hexEscapeNonASCII (rq_URL req)"
    if "sr_ShortCode sr \<noteq> ''metrics''" "ue_now uenv2 \<le> timestamptz (sr_ExpiresAt sr)"
      and act: "\<forall>x \<in> set (urls (us_db st2)). ur_ShortCode x = sr_ShortCode sr \<longrightarrow> ur_IsActive x"
  proof -
    have "ur_IsActive (row\<lparr>ur_IsActive := b\<rparr>)" using act r2 row(2) by fastforce
    with gw_redirect_reaches [OF assms(18-20) i2 assms(6) r2 _ _ _ that(2) code that(1)] row(2-4) show ?thesis by simp
  qed
  from q(2) s(2) have "resp_body resp = JsonBody (PShorten sr)" by simp
  moreover have "sr_ExpiresAt sr = se_now (ue_shorten uenv) + (if 1 \<le> rq_ExpiresInHours req \<and> rq_ExpiresInHours req \<le> 8760
         then rq_ExpiresInHours req else 24) * hour" using q(4) by (simp add: normalize_hours_def)
  ultimately show ?thesis using q(1,3) row(1,2,5,6) fin by blast
qed

definition demo_ct :: content where
  "demo_ct = no_content\<lparr>ct_body := Some (JObj [(''url'', JStr ''http://a.b/'')])\<rparr>"

definition demo_api_shorten :: http_request where
  "demo_api_shorten = demo_http ''POST'' ''/api/shorten''"

definition front_of :: "content \<Rightarrow> kv_view us_state \<Rightarrow> (nat, us_payload) gw_handler" where
  "front_of ct st = demo_front\<lparr>h_transport := url_transport demo_libs demo_parse ''k'' ''http://s'' demo_ops demo_env ''g:1'' ct st\<rparr>"

definition demo_created :: "kv_view us_state" where
  "demo_created = snd (us_serve demo_libs demo_parse ''k'' ''http://s'' demo_ops demo_env
     (received ''g:1'' demo_ct (upstream_request (front_of demo_ct demo_st0) None demo_api_shorten (routingTable ! 3))) demo_st0)"

lemma front_lets_through:
  assumes "matchRoute r = Some rt" and "Upstream rt = ''url-service''"
  shows "lets_through (front_of ct st) gw_demo_env r rt demo_state"
  using assms by (simp add: lets_through_def front_of_def demo_front_def checkRateLimit_def demo_state_def
      WithStateChange_def NewCircuitBreaker_def gw_demo_env_def)

lemma metrics_is_a_code: "is_short_code ''metrics''"
  by code_simp

theorem shorten_redirect_through_gateway_witness:
  "\<exists>resp log gst. gw_app demo_parse ''k'' (front_of no_content demo_created) (\<lambda>_. error_response 404 '''') gw_demo_env None
      (redirect_request [] ''8.8.8.8:5'' ''abcdefg'') demo_state = (Ret resp, log, gst)
    \<and> resp_status resp = 308 \<and> header_get (resp_headers resp) ''Location'' = ''http://a.b/''"
proof -
  let ?gops = "\<lambda>_ :: string. error_response 404 '''' :: us_payload response"
  let ?run = "gw_app demo_parse ''k'' (front_of demo_ct demo_st0) ?gops gw_demo_env None demo_api_shorten demo_state"
  have "case fst ?run of Ret resp \<Rightarrow> resp_status resp = 201 \<and> (case resp_body resp of JsonBody (PShorten sr) \<Rightarrow>
      sr_ShortCode sr = ''abcdefg'' \<and> sr_OriginalURL sr = ''http://a.b/'' \<and> ue_now demo_env \<le> timestamptz (sr_ExpiresAt sr) | _ \<Rightarrow> False)
      | _ \<Rightarrow> False"
    by code_simp
  then obtain resp log gst' sr where run: "?run = (Ret resp, log, gst')" and s: "resp_status resp = 201"
    "resp_body resp = JsonBody (PShorten sr)" "sr_ShortCode sr = ''abcdefg''" "sr_OriginalURL sr = ''http://a.b/''"
    "ue_now demo_env \<le> timestamptz (sr_ExpiresAt sr)"
    by (cases ?run) (auto split: go.splits body.splits us_payload.splits)
  have i: "Issue demo_sign (1000 * second) (NewTokenIssuer ''k'' (86400 * second)) ''user-1'' ''u@example.com''
     = Some (''tok'', 87400 * second)"
    by (simp add: Issue_def demo_sign_def demo_claims_def NewTokenIssuer_def Let_def second_def)
  have e: "env_start gw_demo_env < unix_secs (87400 * second) * second" "ue_now demo_env < unix_secs (87400 * second) * second"
    by (simp_all add: gw_demo_env_def demo_env_def unix_secs_def second_def)
  have fair: "fair_env demo_env" by (simp add: fair_env_def demo_env_def demo_attempt_def demo_deact_def)
  have "Generate (Some [0, 0, 1, 228, 30, 135, 49, 64]) = Ret ''abcdefg''" by code_simp
  then have gen: "at_Generate (se_attempts (ue_shorten demo_env) n) \<in> range Generate" for n
    by (simp add: demo_env_def demo_attempt_def) (metis rangeI)
  have st: "reach (us_start (\<lambda>c. c)) (us_run demo_libs (\<lambda>c. c) demo_parse ''k'' ''http://s'' demo_ops) demo_st0"
    by (rule reach_start) (simp add: us_start_def demo_st0_def)
  have api: "api_shorten ''tok'' demo_api_shorten" by (simp add: api_shorten_def demo_api_shorten_def demo_http_def header_get_def)
  have "matchRoute demo_api_shorten = Some (routingTable ! 3)" and u: "Upstream (routingTable ! 3) = ''url-service''"
    "Upstream (routingTable ! 6) = ''url-service''" by code_simp+
  note lt = front_lets_through [OF this(1) u(1)]
  have lt2: "lets_through (front_of no_content demo_created) gw_demo_env (redirect_request [] ''8.8.8.8:5'' code)
      (routingTable ! 6) demo_state" for code
    by (rule front_lets_through [OF redirect_route u(2)])
  have T: "h_transport (front_of ct st) = url_transport demo_libs demo_parse ''k'' ''http://s'' demo_ops demo_env ''g:1'' ct st" for ct st
    by (simp add: front_of_def)
  have act: "list_all ur_IsActive (urls (us_db demo_created))" by code_simp
  have "ue_fault demo_env = None" and "''tok'' \<noteq> ''''" by (simp_all add: demo_env_def)
  note th = shorten_redirect_through_gateway [OF demo_laws i this(2) e demo_libs_laws fair gen st api lt T run s(1) demo_created_def
      rtranclp.rtrancl_refl lt2 T this(1), where rnd' = None]
  from th obtain req :: ShortenRequest and sr' where b: "resp_body resp = JsonBody (PShorten sr')" "sr_OriginalURL sr' = rq_URL req"
    and imp: "sr_ShortCode sr' \<noteq> ''metrics'' \<longrightarrow> ue_now demo_env \<le> timestamptz (sr_ExpiresAt sr') \<longrightarrow>
        (\<forall>x \<in> set (urls (us_db demo_created)). ur_ShortCode x = sr_ShortCode sr' \<longrightarrow> ur_IsActive x) \<longrightarrow>
        (\<exists>resp2 log2 gst3. gw_app demo_parse ''k'' (front_of no_content demo_created) ?gops gw_demo_env None
            (redirect_request [] ''8.8.8.8:5'' (sr_ShortCode sr')) demo_state = (Ret resp2, log2, gst3) \<and> resp_status resp2 = 308
          \<and> header_get (resp_headers resp2) ''Location'' = hexEscapeNonASCII (rq_URL req))"
    by blast
  from b(1) s(2) have "sr' = sr" by simp
  moreover have "sr_ShortCode sr \<noteq> ''metrics''" "rq_URL req = ''http://a.b/''" using s b(2) calculation by simp_all
  moreover have "\<forall>x \<in> set (urls (us_db demo_created)). ur_ShortCode x = sr_ShortCode sr \<longrightarrow> ur_IsActive x"
    using act by (simp add: list_all_iff)
  moreover have "hexEscapeNonASCII ''http://a.b/'' = ''http://a.b/''" by code_simp
  ultimately show ?thesis using imp s(3,5) by simp
qed

end
