(* ===== verification/UserService.thy ===== *)
theory UserService
  imports Auth Events
begin

text \<open>
  user-service: validation (\<open>validate.go\<close>), passwords (\<open>password.go\<close>), the store
  (\<open>store.go\<close>, \<open>migration.sql\<close>), the handlers (\<open>handler.go\<close>) and the mux of \<open>main.go\<close>. The
  token issuer is in \<open>Auth\<close>.

  \<open>golang.org/x/crypto/bcrypt\<close> is the parameter \<open>bcrypt_lib\<close>: the hash function takes the cost
  and the salt it draws, the comparison has three outcomes. A regular expression is a datatype
  matched by derivatives; on bytes, since the characters that this program's expressions name
  are ASCII and no part of a multi-byte one.
\<close>

section \<open>Regular expressions\<close>

datatype regex = RNone | REps | RClass "char \<Rightarrow> bool" | RAlt regex regex | RCat regex regex | RStar regex

fun nullable :: "regex \<Rightarrow> bool" where
  "nullable RNone = False"
| "nullable REps = True"
| "nullable (RClass P) = False"
| "nullable (RAlt r s) = (nullable r \<or> nullable s)"
| "nullable (RCat r s) = (nullable r \<and> nullable s)"
| "nullable (RStar r) = True"

fun deriv :: "char \<Rightarrow> regex \<Rightarrow> regex" where
  "deriv c RNone = RNone"
| "deriv c REps = RNone"
| "deriv c (RClass P) = (if P c then REps else RNone)"
| "deriv c (RAlt r s) = RAlt (deriv c r) (deriv c s)"
| "deriv c (RCat r s) =
     (if nullable r then RAlt (RCat (deriv c r) s) (deriv c s) else RCat (deriv c r) s)"
| "deriv c (RStar r) = RCat (deriv c r) (RStar r)"

fun matches :: "regex \<Rightarrow> string \<Rightarrow> bool" where
  "matches r [] = nullable r"
| "matches r (c # cs) = matches (deriv c r) cs"

definition RPlus :: "regex \<Rightarrow> regex" where
  "RPlus r = RCat r (RStar r)"

text \<open>The class \<open>[^@\s]\<close>, and \<open>^[^@\s]+@[^@\s]+\.[^@\s]+$\<close> as a match of the whole text.\<close>

definition regex_space :: "char \<Rightarrow> bool" where
  "regex_space c \<longleftrightarrow> c \<in> {CHR 0x09, CHR 0x0A, CHR 0x0C, CHR 0x0D, CHR '' ''}"

definition mail_char :: "char \<Rightarrow> bool" where
  "mail_char c \<longleftrightarrow> c \<noteq> CHR ''@'' \<and> \<not> regex_space c"

definition emailRegex :: regex where
  "emailRegex = RCat (RPlus (RClass mail_char)) (RCat (RClass (\<lambda>c. c = CHR ''@''))
     (RCat (RPlus (RClass mail_char)) (RCat (RClass (\<lambda>c. c = CHR ''.'')) (RPlus (RClass mail_char)))))"

section \<open>Validation and passwords\<close>

datatype user_error = ErrDuplicateEmail | ErrUserNotFound | ErrPasswordMismatch | ErrInvalidEmail
  | ErrInvalidPassword | ErrOther

definition validateEmail :: "string \<Rightarrow> user_error option" where
  "validateEmail email = (if \<not> matches emailRegex email then Some ErrInvalidEmail else None)"

definition validatePassword :: "string \<Rightarrow> user_error option" where
  "validatePassword password = (if length password < 8 then Some ErrInvalidPassword else None)"

datatype bcrypt_result = BcMatch | BcMismatch | BcFailed

record bcrypt_lib =
  bc_generate :: "string \<Rightarrow> string \<Rightarrow> int \<Rightarrow> string option"
  bc_compare :: "string \<Rightarrow> string \<Rightarrow> bcrypt_result"

text \<open>What the package documents: a hash compares as equal with the password it was made of.\<close>

definition bcrypt_laws :: "bcrypt_lib \<Rightarrow> bool" where
  "bcrypt_laws B \<longleftrightarrow> (\<forall>salt p cost h. bc_generate B salt p cost = Some h \<longrightarrow> bc_compare B h p = BcMatch)"

definition NewPasswordHasher :: "int \<Rightarrow> int" where
  "NewPasswordHasher cost = (let cost = (if cost < 4 then 4 else cost) in if cost > 31 then 31 else cost)"

definition Hash :: "bcrypt_lib \<Rightarrow> int \<Rightarrow> string \<Rightarrow> string \<Rightarrow> string option" where
  "Hash B cost salt plaintext = bc_generate B salt plaintext cost"

definition Verify :: "bcrypt_lib \<Rightarrow> string \<Rightarrow> string \<Rightarrow> user_error option" where
  "Verify B plaintext hash =
     (case bc_compare B hash plaintext of
        BcMatch \<Rightarrow> None | BcMismatch \<Rightarrow> Some ErrPasswordMismatch | BcFailed \<Rightarrow> Some ErrOther)"

section \<open>The store\<close>

record User =
  usr_ID :: string
  usr_Email :: string
  usr_PasswordHash :: string
  usr_CreatedAt :: time

text \<open>An error of \<open>pgx\<close>: one with an SQLSTATE, \<open>ErrNoRows\<close>, another with its text.\<close>

datatype pg_error = PgSqlState string | PgNoRows | PgOther string

definition isPgUniqueViolation :: "pg_error \<Rightarrow> bool" where
  "isPgUniqueViolation e =
     (case e of
        PgSqlState code \<Rightarrow> code = ''23505''
      | PgNoRows \<Rightarrow> Contains ''no rows in result set'' ''duplicate key''
      | PgOther msg \<Rightarrow> Contains msg ''duplicate key'')"

text \<open>One insert: the id and the instant the server gives the row, and a fault with whether the
  statement took effect before it.\<close>

record user_insert =
  ui_id :: string
  ui_now :: time
  ui_fault :: "(pg_error \<times> bool) option"

definition insert_user_row :: "user_insert \<Rightarrow> string \<Rightarrow> string \<Rightarrow> User list \<Rightarrow> pg_error + User" where
  "insert_user_row e email passwordHash db =
     (if \<exists>u \<in> set db. usr_Email u = email \<or> usr_ID u = ui_id e then Inl (PgSqlState ''23505'')
      else Inr \<lparr>usr_ID = ui_id e, usr_Email = email, usr_PasswordHash = passwordHash,
                usr_CreatedAt = timestamptz (ui_now e)\<rparr>)"

definition user_Insert :: "user_insert \<Rightarrow> string \<Rightarrow> string \<Rightarrow> User list \<Rightarrow> (user_error + User) \<times> User list" where
  "user_Insert e email passwordHash db =
     (let row = insert_user_row e email passwordHash db;
          db' = (case row of Inl _ \<Rightarrow> db | Inr u \<Rightarrow> db @ [u]);
          err = (\<lambda>x. if isPgUniqueViolation x then ErrDuplicateEmail else ErrOther)
      in case ui_fault e of
           Some (x, applied) \<Rightarrow> (Inl (err x), if applied then db' else db)
         | None \<Rightarrow> (case row of Inl x \<Rightarrow> (Inl (err x), db) | Inr u \<Rightarrow> (Inr u, db')))"

definition FindByEmail :: "pg_error option \<Rightarrow> string \<Rightarrow> User list \<Rightarrow> user_error + User" where
  "FindByEmail fault email db =
     (case (case fault of Some x \<Rightarrow> Inl x
            | None \<Rightarrow> (case find (\<lambda>u. usr_Email u = email) db of None \<Rightarrow> Inl PgNoRows | Some u \<Rightarrow> Inr u)) of
        Inl PgNoRows \<Rightarrow> Inl ErrUserNotFound
      | Inl x \<Rightarrow> Inl ErrOther
      | Inr u \<Rightarrow> Inr u)"

section \<open>Handlers\<close>

definition dummyBcryptHash :: string where
  "dummyBcryptHash = ''$2a$12$MB4lTvA5UVWJU8GPtVFSne/kMHaXBSz45DWvIl/4AS9NLnz7tavNm''"

record credentials =
  crd_Email :: string
  crd_Password :: string

text \<open>\<open>registerRequest\<close> and \<open>loginRequest\<close> have the same fields; the body is \<open>None\<close> when its first
  value is no JSON or lies beyond the first megabyte.\<close>

definition credentials_fields :: "credentials field list" where
  "credentials_fields =
     [(''email'', set_string (\<lambda>s q. q\<lparr>crd_Email := s\<rparr>)), (''password'', set_string (\<lambda>s q. q\<lparr>crd_Password := s\<rparr>))]"

definition decode_credentials :: "json option \<Rightarrow> credentials option" where
  "decode_credentials = Unmarshal credentials_fields \<lparr>crd_Email = '''', crd_Password = ''''\<rparr>"

datatype user_payload =
    PUser string string
  | PToken string string
  | PFieldError string string

definition writeFieldError :: "int \<Rightarrow> string \<Rightarrow> string \<Rightarrow> user_payload response" where
  "writeFieldError status message field = json_response status (PFieldError message field)"

text \<open>The handler's dependencies; the cost is the one \<open>NewPasswordHasher\<close> has clamped.\<close>

record user_deps =
  ud_bcrypt :: bcrypt_lib
  ud_cost :: int
  ud_sign :: jwt_sign
  ud_issuer :: jwtTokenIssuer

definition Register :: "user_deps \<Rightarrow> string \<Rightarrow> user_insert \<Rightarrow> http_request \<Rightarrow> json option \<Rightarrow> User list
    \<Rightarrow> user_payload response \<times> User list" where
  "Register h salt e r body db =
     (if header_get (req_headers r) ''Content-Type'' \<noteq> ''application/json'' then
        (error_response 415 ''content-type must be application/json'', db)
      else (case decode_credentials body of
         None \<Rightarrow> (error_response 400 ''invalid request body'', db)
       | Some req \<Rightarrow>
           if validateEmail (crd_Email req) \<noteq> None then
             (writeFieldError 400 ''invalid email format'' ''email'', db)
           else if validatePassword (crd_Password req) \<noteq> None then
             (writeFieldError 400 ''password must be at least 8 characters'' ''password'', db)
           else (case Hash (ud_bcrypt h) (ud_cost h) salt (crd_Password req) of
              None \<Rightarrow> (error_response 500 ''internal server error'', db)
            | Some hash \<Rightarrow>
                (case user_Insert e (crd_Email req) hash db of
                   (Inl err, db) \<Rightarrow>
                     if err = ErrDuplicateEmail then (error_response 409 ''email already registered'', db)
                     else (error_response 500 ''internal server error'', db)
                 | (Inr user, db) \<Rightarrow> (json_response 201 (PUser (usr_ID user) (usr_Email user)), db)))))"

text \<open>The second component lists the password comparisons made: the text and the hash.\<close>

definition Login :: "user_deps \<Rightarrow> time \<Rightarrow> pg_error option \<Rightarrow> http_request \<Rightarrow> json option \<Rightarrow> User list
    \<Rightarrow> user_payload response \<times> (string \<times> string) list" where
  "Login h now fault r body db =
     (if header_get (req_headers r) ''Content-Type'' \<noteq> ''application/json'' then
        (error_response 415 ''content-type must be application/json'', [])
      else (case decode_credentials body of
         None \<Rightarrow> (error_response 400 ''invalid request body'', [])
       | Some req \<Rightarrow>
           (case FindByEmail fault (crd_Email req) db of
              Inl err \<Rightarrow> (error_response 401 ''invalid credentials'', [(crd_Password req, dummyBcryptHash)])
            | Inr user \<Rightarrow>
                let log = [(crd_Password req, usr_PasswordHash user)] in
                if Verify (ud_bcrypt h) (crd_Password req) (usr_PasswordHash user) \<noteq> None then
                  (error_response 401 ''invalid credentials'', log)
                else (case Issue (ud_sign h) now (ud_issuer h) (usr_ID user) (usr_Email user) of
                   None \<Rightarrow> (error_response 500 ''internal server error'', log)
                 | Some (tokenStr, expiresAt) \<Rightarrow>
                     (json_response 200 (PToken tokenStr (rfc3339 (unix_secs expiresAt * second))), log)))))"

definition Me :: "http_request \<Rightarrow> user_payload response" where
  "Me r =
     (case ClaimsFromContext (req_ctx r) of
        None \<Rightarrow> error_response 401 ''unauthorized''
      | Some claims \<Rightarrow> json_response 200 (PUser (Sub claims) (Email claims)))"

section \<open>The server\<close>

record user_env =
  ue_salt :: string
  ue_insert :: user_insert
  ue_find :: "pg_error option"
  ue_clock :: time

text \<open>\<open>ops\<close> is the reply to every request that none of the three routes takes: health, metrics, the
  mux's 404 and 405.\<close>

definition user_serve :: "user_deps \<Rightarrow> jwt_parse \<Rightarrow> (http_request \<Rightarrow> user_payload response) \<Rightarrow> user_env
    \<Rightarrow> http_request \<Rightarrow> json option \<Rightarrow> User list \<Rightarrow> user_payload response \<times> User list" where
  "user_serve h parse ops e r body db =
     (if req_method r = ''POST'' \<and> req_path r = ''/register'' then Register h (ue_salt e) (ue_insert e) r body db
      else if req_method r = ''POST'' \<and> req_path r = ''/login'' then
        (fst (Login h (ue_clock e) (ue_find e) r body db), db)
      else if req_method r \<in> {''GET'', ''HEAD''} \<and> req_path r = ''/me'' then
        (case JWTMiddleware parse (ue_clock e) (issuer_secret (ud_issuer h)) r of
           Inl resp \<Rightarrow> (resp, db)
         | Inr r \<Rightarrow> (Me r, db))
      else (ops r, db))"

end
