(* ===== verification/UserProps.thy ===== *)
theory UserProps
  imports UserService
begin

text \<open>
  Properties of user-service: the email expression against its meaning, the accounts table as an
  invariant over all requests, registration followed by login, what a login compares.
\<close>

section \<open>The email expression\<close>

lemma matches_None [simp]: "\<not> matches RNone w"
  by (induction w) simp_all

lemma matches_Eps [simp]: "matches REps w \<longleftrightarrow> w = []"
  by (cases w) simp_all

lemma matches_Class [simp]: "matches (RClass P) w \<longleftrightarrow> (\<exists>c. w = [c] \<and> P c)"
  by (cases w) auto

lemma matches_Alt [simp]: "matches (RAlt r s) w \<longleftrightarrow> matches r w \<or> matches s w"
  by (induction w arbitrary: r s) simp_all

lemma matches_Cat: "matches (RCat r s) w \<longleftrightarrow> (\<exists>u v. w = u @ v \<and> matches r u \<and> matches s v)"
proof (induction w arbitrary: r s)
  case (Cons c w)
  have "(\<exists>u v. c # w = u @ v \<and> matches r u \<and> matches s v)
      \<longleftrightarrow> nullable r \<and> matches (deriv c s) w \<or> (\<exists>u v. w = u @ v \<and> matches (deriv c r) u \<and> matches s v)"
    by (auto simp: Cons_eq_append_conv) (metis matches.simps)+
  with Cons show ?case by auto
qed auto

lemma matches_Star_Class [simp]: "matches (RStar (RClass P)) w \<longleftrightarrow> (\<forall>c \<in> set w. P c)"
  by (induction w) (auto simp: matches_Cat)

lemma matches_Plus_Class: "matches (RPlus (RClass P)) w \<longleftrightarrow> w \<noteq> [] \<and> (\<forall>c \<in> set w. P c)"
  by (cases w) (auto simp: RPlus_def matches_Cat)

text \<open>C29: the email check means what its expression says: an address is accepted exactly when it is a
  local part, \<open>@\<close>, a domain, a dot and a last label, each of them non-empty and free of \<open>@\<close> and
  white space (so there is exactly one \<open>@\<close>, and the domain may itself contain dots).\<close>

theorem validateEmail_spec:
  "validateEmail e = None \<longleftrightarrow> (\<exists>l d t. e = l @ ''@'' @ d @ ''.'' @ t \<and> l \<noteq> [] \<and> d \<noteq> [] \<and> t \<noteq> []
     \<and> (\<forall>c \<in> set l \<union> set d \<union> set t. mail_char c))"
proof -
  have "matches emailRegex e \<longleftrightarrow> (\<exists>l d t. e = l @ ''@'' @ d @ ''.'' @ t \<and> l \<noteq> [] \<and> d \<noteq> [] \<and> t \<noteq> []
     \<and> (\<forall>c \<in> set l. mail_char c) \<and> (\<forall>c \<in> set d. mail_char c) \<and> (\<forall>c \<in> set t. mail_char c))"
    unfolding emailRegex_def by (simp only: matches_Cat matches_Plus_Class matches_Class) fastforce
  then show ?thesis by (simp add: validateEmail_def ball_Un)
qed

theorem validateEmail_spec_witness: "validateEmail ''a@b.c'' = None"
  unfolding validateEmail_spec
  by (intro exI [of _ "''a''"] exI [of _ "''b''"] exI [of _ "''c''"]) (simp add: mail_char_def regex_space_def)

section \<open>The accounts\<close>

text \<open>Any request, in any environment, may be served next.\<close>

inductive user_step :: "user_deps \<Rightarrow> jwt_parse \<Rightarrow> (http_request \<Rightarrow> user_payload response) \<Rightarrow> User list \<Rightarrow> User list \<Rightarrow> bool"
  for h parse ops where
  user_request: "user_serve h parse ops e r body db = (resp, db') \<Longrightarrow> user_step h parse ops db db'"

text \<open>An account that \<open>Register\<close> may create from a request's credentials.\<close>

definition account_of :: "user_deps \<Rightarrow> credentials \<Rightarrow> User \<Rightarrow> bool" where
  "account_of h c u \<longleftrightarrow> usr_Email u = crd_Email c \<and> validateEmail (crd_Email c) = None \<and> 8 \<le> length (crd_Password c)
     \<and> (\<exists>salt. bc_generate (ud_bcrypt h) salt (crd_Password c) (ud_cost h) = Some (usr_PasswordHash u))"

definition user_inv :: "user_deps \<Rightarrow> User list \<Rightarrow> bool" where
  "user_inv h db \<longleftrightarrow> distinct (map usr_Email db) \<and> distinct (map usr_ID db)
     \<and> (\<forall>u \<in> set db. \<exists>c. account_of h c u)"

lemma user_Insert_cases:
  assumes "user_Insert e email hash db = (res, db')"
  obtains err where "res = Inl err" "db' = db"
  | err u where "res = Inl err" "db' = db @ [u]" "usr_ID u = ui_id e" "usr_Email u = email" "usr_PasswordHash u = hash"
      "\<forall>x \<in> set db. usr_Email x \<noteq> email \<and> usr_ID x \<noteq> usr_ID u"
  | u where "res = Inr u" "db' = db @ [u]" "usr_ID u = ui_id e" "usr_Email u = email" "usr_PasswordHash u = hash"
      "\<forall>x \<in> set db. usr_Email x \<noteq> email \<and> usr_ID x \<noteq> usr_ID u"
proof (cases "\<exists>u \<in> set db. usr_Email u = email \<or> usr_ID u = ui_id e")
  case True
  with assms that(1) show thesis
    by (auto simp: user_Insert_def insert_user_row_def Let_def split: option.splits prod.splits if_splits)
next
  case False
  then have f: "\<forall>x \<in> set db. usr_Email x \<noteq> email \<and> usr_ID x \<noteq> ui_id e" by blast
  let ?u = "\<lparr>usr_ID = ui_id e, usr_Email = email, usr_PasswordHash = hash, usr_CreatedAt = timestamptz (ui_now e)\<rparr>"
  have i: "insert_user_row e email hash db = Inr ?u" using False by (auto simp: insert_user_row_def)
  show thesis
  proof (cases "ui_fault e")
    case None
    with assms i f that(3) [of ?u] show thesis by (simp add: user_Insert_def Let_def)
  next
    case (Some p)
    obtain x applied where p: "p = (x, applied)" by (cases p)
    with Some assms i f that(1) that(2) [of _ ?u] show thesis
      by (cases applied) (auto simp: user_Insert_def Let_def)
  qed
qed

lemma Register_cases:
  assumes "Register h salt e r body db = (resp, db')"
  obtains "resp_status resp \<noteq> 201" "db' = db"
  | c u where "decode_credentials body = Some c" "account_of h c u" "db' = db @ [u]" "usr_ID u = ui_id e"
      "\<forall>x \<in> set db. usr_Email x \<noteq> usr_Email u \<and> usr_ID x \<noteq> usr_ID u"
      "resp = json_response 201 (PUser (usr_ID u) (usr_Email u)) \<or> resp_status resp \<in> {409, 500}"
proof (cases "\<exists>c hash. header_get (req_headers r) ''Content-Type'' = ''application/json''
    \<and> decode_credentials body = Some c \<and> validateEmail (crd_Email c) = None \<and> validatePassword (crd_Password c) = None
    \<and> Hash (ud_bcrypt h) (ud_cost h) salt (crd_Password c) = Some hash")
  case False
  with assms that(1) show thesis
    by (auto simp: Register_def writeFieldError_def split: if_splits option.splits)
next
  case True
  then obtain c hash where c: "header_get (req_headers r) ''Content-Type'' = ''application/json''"
    "decode_credentials body = Some c" "validateEmail (crd_Email c) = None" "validatePassword (crd_Password c) = None"
    "Hash (ud_bcrypt h) (ud_cost h) salt (crd_Password c) = Some hash" by blast
  then have ok: "account_of h c u" if "usr_Email u = crd_Email c" "usr_PasswordHash u = hash" for u
    using that by (auto simp: account_of_def validatePassword_def Hash_def split: if_splits)
  obtain res db1 where I: "user_Insert e (crd_Email c) hash db = (res, db1)"
    by (cases "user_Insert e (crd_Email c) hash db")
  with c assms have eq: "db' = db1" "resp = (case res of
      Inl err \<Rightarrow> if err = ErrDuplicateEmail then error_response 409 ''email already registered''
        else error_response 500 ''internal server error''
    | Inr user \<Rightarrow> json_response 201 (PUser (usr_ID user) (usr_Email user)))"
    by (auto simp: Register_def split: sum.splits if_splits)
  from I show thesis
  proof (cases rule: user_Insert_cases)
    case 1
    with eq that(1) show thesis by (auto split: if_splits)
  next
    case (2 err u)
    with eq c(2) ok that(2) [of c u] show thesis by (auto split: if_splits)
  next
    case (3 u)
    with eq c(2) ok that(2) [of c u] show thesis by auto
  qed
qed

lemma user_step_cases:
  assumes "user_step h parse ops db db'"
  obtains "db' = db" | c u where "account_of h c u" "db' = db @ [u]"
    "\<forall>x \<in> set db. usr_Email x \<noteq> usr_Email u \<and> usr_ID x \<noteq> usr_ID u"
  using assms
proof cases
  case (user_request e r body resp)
  show thesis
  proof (cases "req_method r = ''POST'' \<and> req_path r = ''/register''")
    case True
    with user_request have "Register h (ue_salt e) (ue_insert e) r body db = (resp, db')"
      by (simp add: user_serve_def)
    then show thesis by (cases rule: Register_cases) (use that in auto)
  next
    case False
    with user_request that(1) show thesis by (auto simp: user_serve_def split: if_splits sum.splits)
  qed
qed

interpretation accounts: invariant_of "\<lambda>db. db = []" "user_step h parse ops" "user_inv h" for h parse ops
proof unfold_locales
  show "user_inv h db" if "db = []" for db using that by (simp add: user_inv_def)
  show "user_inv h db'" if "user_inv h db" "user_step h parse ops db db'" for db db'
    using that(2) by (cases rule: user_step_cases) (use that(1) in \<open>auto simp: user_inv_def\<close>)
qed

text \<open>C13: the accounts table is sound: in every reachable state, whatever requests were served and
  whatever inserts failed halfway, emails and ids are unique, and each account has a valid email
  and a hash, at the configured cost, of a password of at least eight bytes.\<close>

theorem accounts_sound:
  assumes "reach (\<lambda>db. db = []) (user_step h parse ops) db"
  shows "distinct (map usr_Email db) \<and> distinct (map usr_ID db)
    \<and> (\<forall>u \<in> set db. validateEmail (usr_Email u) = None
        \<and> (\<exists>salt p. 8 \<le> length p \<and> bc_generate (ud_bcrypt h) salt p (ud_cost h) = Some (usr_PasswordHash u)))"
  using accounts.inv_reach [OF assms] unfolding user_inv_def account_of_def by metis

text \<open>A deployment for the witnesses: the library of \<open>Auth\<close> and a hash that shows its password.\<close>

definition demo_bcrypt :: bcrypt_lib where
  "demo_bcrypt = \<lparr>bc_generate = (\<lambda>salt p cost. Some (CHR ''h'' # p)),
     bc_compare = (\<lambda>h p. if h = CHR ''h'' # p then BcMatch else BcMismatch)\<rparr>"

definition demo_deps :: user_deps where
  "demo_deps = \<lparr>ud_bcrypt = demo_bcrypt, ud_cost = 12, ud_sign = demo_sign, ud_issuer = NewTokenIssuer ''k'' (86400 * second)\<rparr>"

definition demo_register_request :: http_request where
  "demo_register_request = \<lparr>req_method = ''POST'', req_path = ''/register'', req_scheme = '''',
     req_headers = [(''Content-Type'', ''application/json'')], req_remoteAddr = '''', req_ctx = background\<rparr>"

definition demo_credentials :: json where
  "demo_credentials = JObj [(''email'', JStr ''u@example.com''), (''password'', JStr ''password'')]"

definition demo_user_env :: user_env where
  "demo_user_env = \<lparr>ue_salt = '''', ue_insert = \<lparr>ui_id = ''user-1'', ui_now = 0, ui_fault = None\<rparr>,
     ue_find = None, ue_clock = 1000 * second\<rparr>"

definition demo_user :: User where
  "demo_user = \<lparr>usr_ID = ''user-1'', usr_Email = ''u@example.com'', usr_PasswordHash = ''hpassword'', usr_CreatedAt = 0\<rparr>"

lemma demo_decode: "decode_credentials (Some demo_credentials)
    = Some \<lparr>crd_Email = ''u@example.com'', crd_Password = ''password''\<rparr>"
  by (simp add: decode_credentials_def demo_credentials_def credentials_fields_def Unmarshal_def find_field_def)

lemma demo_validates: "validateEmail ''u@example.com'' = None"
  by code_simp

lemma demo_register:
  "Register demo_deps '''' (ue_insert demo_user_env) demo_register_request (Some demo_credentials) []
    = (json_response 201 (PUser ''user-1'' ''u@example.com''), [demo_user])"
  by (simp add: Register_def demo_register_request_def header_get_def demo_decode demo_validates validatePassword_def Hash_def
      demo_deps_def demo_bcrypt_def user_Insert_def insert_user_row_def demo_user_env_def demo_user_def timestamptz_def)

lemma demo_users_reach: "reach (\<lambda>db. db = []) (user_step demo_deps demo_parse ops) [demo_user]"
proof (rule reach_step)
  show "reach (\<lambda>db. db = []) (user_step demo_deps demo_parse ops) []" by (rule reach_start) simp
  have "user_serve demo_deps demo_parse ops demo_user_env demo_register_request (Some demo_credentials) []
      = Register demo_deps '''' (ue_insert demo_user_env) demo_register_request (Some demo_credentials) []"
    by (simp add: user_serve_def demo_register_request_def) (simp add: demo_user_env_def)
  then show "user_step demo_deps demo_parse ops [] [demo_user]"
    unfolding demo_register by (rule user_request)
qed

theorem accounts_sound_witness: "\<exists>salt p. 8 \<le> length p \<and> bc_generate demo_bcrypt salt p 12 = Some ''hpassword''"
  using accounts_sound [OF demo_users_reach] by (simp add: demo_user_def demo_deps_def)

section \<open>Login\<close>

lemma user_steps_extend:
  assumes "(user_step h parse ops)\<^sup>*\<^sup>* db db'"
  shows "\<exists>xs. db' = db @ xs"
  using assms
proof induction
  case (step y z)
  from step(2) show ?case by (cases rule: user_step_cases) (use step(3) in auto)
qed simp

lemma find_registered:
  "\<forall>x \<in> set db. usr_Email x \<noteq> usr_Email u \<Longrightarrow> find (\<lambda>x. usr_Email x = usr_Email u) (db @ u # xs) = Some u"
  by (induction db) auto

text \<open>C14: registration, login and identity fit together: after a registration was answered 201, in
  every later state of the service, a login with the same body is answered 200 with a token, and
  until the token expires \<open>GET /me\<close> with it answers the id and the email of that registration.\<close>

theorem register_then_login:
  assumes "bcrypt_laws (ud_bcrypt h)" and "jwt_laws parse (ud_sign h)"
    and reg: "Register h salt e r1 body db = (resp1, db1)" and "resp_status resp1 = 201"
    and "decode_credentials body = Some c"
    and "(user_step h parse ops)\<^sup>*\<^sup>* db1 db2"
    and "header_get (req_headers r2) ''Content-Type'' = ''application/json''"
    and issue: "Issue (ud_sign h) now (ud_issuer h) (ui_id e) (crd_Email c) = Some (tok, expiresAt)" and "tok \<noteq> ''''"
    and "ue_clock env < unix_secs expiresAt * second"
    and "req_method r3 = ''GET''" and "req_path r3 = ''/me''"
    and "header_get (req_headers r3) ''Authorization'' = ''Bearer '' @ tok"
  shows "resp1 = json_response 201 (PUser (ui_id e) (crd_Email c))
    \<and> fst (Login h now None r2 body db2) = json_response 200 (PToken tok (rfc3339 (unix_secs expiresAt * second)))
    \<and> user_serve h parse ops env r3 any db2 = (json_response 200 (PUser (ui_id e) (crd_Email c)), db2)"
proof -
  from reg obtain u where u: "account_of h c u" "db1 = db @ [u]" "usr_ID u = ui_id e"
    "\<forall>x \<in> set db. usr_Email x \<noteq> usr_Email u \<and> usr_ID x \<noteq> usr_ID u"
    "resp1 = json_response 201 (PUser (usr_ID u) (usr_Email u))"
    by (cases rule: Register_cases) (use assms(4,5) in auto)
  have em: "usr_Email u = crd_Email c" using u(1) by (simp add: account_of_def)
  obtain xs where "db2 = db @ u # xs" using user_steps_extend [OF assms(6)] u(2) by auto
  then have "find (\<lambda>x. usr_Email x = crd_Email c) db2 = Some u" using find_registered [of db u xs] u(4) em by auto
  then have f: "FindByEmail None (crd_Email c) db2 = Inr u" by (simp add: FindByEmail_def)
  have "Verify (ud_bcrypt h) (crd_Password c) (usr_PasswordHash u) = None"
    using assms(1) u(1) by (auto simp: Verify_def bcrypt_laws_def account_of_def)
  with f em u(3) issue assms(5,7) have "fst (Login h now None r2 body db2)
      = json_response 200 (PToken tok (rfc3339 (unix_secs expiresAt * second)))"
    by (simp add: Login_def Let_def)
  moreover have "user_serve h parse ops env r3 any db2 = (json_response 200 (PUser (ui_id e) (crd_Email c)), db2)"
  proof -
    from issue have s: "ud_sign h (issuer_secret (ud_issuer h)) (issued_claims now expiresAt (ui_id e) (crd_Email c)) = Some tok"
      by (auto simp: Issue_def Let_def split: option.splits)
    have "parse (ue_clock env) tok (hmac_keyfunc (issuer_secret (ud_issuer h))) = Some \<lparr>tok_valid = True,
        tok_method = HMAC ''HS256'', tok_claims = Some (issued_claims now expiresAt (ui_id e) (crd_Email c))\<rparr>"
      by (rule jwt_laws_parse [OF assms(2) s, where e = "unix_secs expiresAt"])
         (use assms(10) in \<open>auto simp: hmac_keyfunc_def issued_claims_def\<close>)
    then have "VerifyToken parse (ue_clock env) tok (issuer_secret (ud_issuer h)) = Inr \<lparr>Sub = ui_id e,
        Email = crd_Email c, Iss = ''url-shortener'', Iat = unix_secs now, Exp = unix_secs expiresAt\<rparr>"
      by (simp add: VerifyToken_def issued_claims_def extractString_def extractNumber_def)
    with assms(9,11-13) show ?thesis
      using TrimPrefix_append [of "''Bearer ''" tok] HasPrefix_append [of "''Bearer ''" tok]
      by (simp add: user_serve_def JWTMiddleware_def Let_def Me_def ClaimsFromContext_def)
  qed
  ultimately show ?thesis using u(3,5) em by simp
qed

definition demo_user_ops :: "http_request \<Rightarrow> user_payload response" where
  "demo_user_ops r = error_response 404 ''404 page not found''"

definition demo_me :: http_request where
  "demo_me = \<lparr>req_method = ''GET'', req_path = ''/me'', req_scheme = '''',
     req_headers = [(''Authorization'', ''Bearer tok'')], req_remoteAddr = '''', req_ctx = background\<rparr>"

lemma demo_bcrypt_laws: "bcrypt_laws demo_bcrypt"
  by (auto simp: bcrypt_laws_def demo_bcrypt_def)

lemma demo_issue:
  "Issue demo_sign (1000 * second) (ud_issuer demo_deps) ''user-1'' ''u@example.com'' = Some (''tok'', 87400 * second)"
  by (simp add: Issue_def demo_sign_def demo_claims_def demo_deps_def NewTokenIssuer_def Let_def second_def)

theorem register_then_login_witness:
  "user_serve demo_deps demo_parse demo_user_ops demo_user_env demo_me None [demo_user]
    = (json_response 200 (PUser ''user-1'' ''u@example.com''), [demo_user])"
proof -
  have "(user_step demo_deps demo_parse demo_user_ops)\<^sup>*\<^sup>* [demo_user] [demo_user]" by simp
  from register_then_login [of demo_deps demo_parse "''''" "ue_insert demo_user_env" demo_register_request "Some demo_credentials"
      "[]" _ "[demo_user]" "\<lparr>crd_Email = ''u@example.com'', crd_Password = ''password''\<rparr>" demo_user_ops "[demo_user]" demo_register_request
      "1000 * second" "''tok''" "87400 * second" demo_user_env demo_me None, OF _ _ demo_register _ demo_decode this]
  show ?thesis
    using demo_bcrypt_laws demo_laws demo_issue
    by (simp add: demo_deps_def demo_register_request_def demo_me_def header_get_def demo_user_env_def unix_secs_def second_def)
qed



end
