(* ===== verification/Delivery.thy ===== *)
theory Delivery
  imports Prelude
begin

text \<open>
  What the two RabbitMQ consumers (analytics-service and notification-service) share: the outcomes
  of the calls they make, the replies to the broker, and the broker's side of at-least-once
  delivery. The broker delivers a message again when the consumer asks for a requeue; the locale
  \<open>at_least_once\<close> says how often the message has then taken effect.
\<close>

section \<open>Outcomes and replies\<close>

text \<open>A call into the database or the broker works, returns an error, or panics.\<close>

datatype outcome = Works | Fails | Panics

text \<open>How a piece of code ends: with a value, with an error, with a panic.\<close>

datatype 'a ending = Done 'a | Errored | Panicked

datatype reply = Ack | NackRequeue

text \<open>\<open>CommitLost\<close> is a commit whose error reached the consumer although the transaction took
  effect.\<close>

datatype commit_outcome = Committed | CommitFailed | CommitLost | CommitPanics

lemmas call_splits = outcome.splits ending.splits prod.splits commit_outcome.splits

definition truncate :: "string \<Rightarrow> nat \<Rightarrow> string" where
  "truncate s n = (if length s \<le> n then s else take n s @ ''...'')"

section \<open>Rows\<close>

text \<open>How a query of several rows goes: the query may fail, each row may fail to scan, and the iteration
  may end with an error. The \<open>scan\<close> functions of the stores are this loop.\<close>

record rows_env =
  re_query :: bool
  re_scan :: "nat \<Rightarrow> bool"
  re_err :: bool

fun scan_rows :: "rows_env \<Rightarrow> ('a \<Rightarrow> 'b) \<Rightarrow> nat \<Rightarrow> 'a list \<Rightarrow> 'b list option" where
  "scan_rows e f i [] = (if re_err e then None else Some [])"
| "scan_rows e f i (x # xs) = (if re_scan e i then map_option (Cons (f x)) (scan_rows e f (Suc i) xs) else None)"

definition rows_ok :: "rows_env \<Rightarrow> nat \<Rightarrow> bool" where
  "rows_ok e n \<longleftrightarrow> re_query e \<and> (\<forall>i < n. re_scan e i) \<and> \<not> re_err e"

lemma scan_rows_outcome:
  "scan_rows e f i xs = (if (\<forall>j < length xs. re_scan e (i + j)) \<and> \<not> re_err e then Some (map f xs) else None)"
proof (induction xs arbitrary: i)
  case (Cons x xs)
  have "(\<forall>j < Suc (length xs). re_scan e (i + j)) \<longleftrightarrow> re_scan e i \<and> (\<forall>j < length xs. re_scan e (Suc i + j))"
    by (auto simp: less_Suc_eq_0_disj)
  with Cons [of "Suc i"] show ?case by auto
qed simp

section \<open>Redelivery\<close>

text \<open>One message is delivered, with the environments \<open>es\<close> one after the other, until it is
  acknowledged.\<close>

fun redeliver :: "('e \<Rightarrow> 's \<Rightarrow> reply \<times> 's) \<Rightarrow> 'e list \<Rightarrow> 's \<Rightarrow> bool \<times> 's" where
  "redeliver deliver [] s = (False, s)"
| "redeliver deliver (e # es) s =
     (case deliver e s of (Ack, s) \<Rightarrow> (True, s) | (NackRequeue, s) \<Rightarrow> redeliver deliver es s)"

text \<open>\<open>eff n s s'\<close>: the message took effect \<open>n\<close> times between \<open>s\<close> and \<open>s'\<close>. A good
  environment does not panic; only a \<open>lost\<close> one may take effect and still ask for a requeue.\<close>

locale at_least_once =
  fixes deliver :: "'e \<Rightarrow> 's \<Rightarrow> reply \<times> 's"
    and good :: "'e \<Rightarrow> bool"
    and lost :: "'e \<Rightarrow> bool"
    and eff :: "nat \<Rightarrow> 's \<Rightarrow> 's \<Rightarrow> bool"
  assumes eff_0: "eff 0 s s"
    and eff_add: "eff m a b \<Longrightarrow> eff n b c \<Longrightarrow> eff (m + n) a c"
    and acked: "good e \<Longrightarrow> deliver e s = (Ack, s') \<Longrightarrow> eff 1 s s'"
    and requeued: "good e \<Longrightarrow> deliver e s = (NackRequeue, s') \<Longrightarrow> eff (if lost e then 1 else 0) s s' \<or> eff 0 s s'"
begin

lemma requeued_count:
  assumes "good e" and "deliver e s = (NackRequeue, s')"
  obtains n where "n \<le> length (filter lost [e])" "eff n s s'"
  using requeued [OF assms] by (cases "lost e") auto

lemma redeliver_effect:
  assumes "\<And>e. e \<in> set es \<Longrightarrow> good e" and "redeliver deliver es s = (True, s')"
  shows "\<exists>n. 1 \<le> n \<and> n \<le> 1 + length (filter lost es) \<and> eff n s s'"
  using assms
proof (induction es arbitrary: s)
  case (Cons e es)
  obtain rep s1 where d: "deliver e s = (rep, s1)" by (cases "deliver e s")
  show ?case
  proof (cases rep)
    case Ack
    with d Cons.prems acked [of e s s1] show ?thesis by (intro exI [of _ 1]) simp
  next
    case NackRequeue
    with d have "deliver e s = (NackRequeue, s1)" by simp
    from requeued_count [OF _ this] Cons.prems(1) obtain m
      where m: "m \<le> length (filter lost [e])" "eff m s s1" by auto
    from Cons.IH [of s1] Cons.prems d NackRequeue obtain n
      where n: "1 \<le> n" "n \<le> 1 + length (filter lost es)" "eff n s1 s'" by auto
    from eff_add [OF m(2) n(3)] m(1) n(1,2) show ?thesis
      by (intro exI [of _ "m + n"]) (auto split: if_splits)
  qed
qed simp

text \<open>Without panics one good environment that is not lost, and every call of which works, ends
  the redelivery.\<close>

lemma redeliver_stops:
  assumes "e \<in> set es" and "\<And>s. fst (deliver e s) = Ack"
  shows "fst (redeliver deliver es s)"
  using assms(1)
proof (induction es arbitrary: s)
  case (Cons x xs)
  obtain rep s1 where d: "deliver x s = (rep, s1)" by (cases "deliver x s")
  show ?case
  proof (cases rep)
    case NackRequeue
    with assms(2) [of s] d have "x \<noteq> e" by auto
    with Cons d NackRequeue show ?thesis by auto
  qed (use d in simp)
qed simp

end

end
