(* ===== verification/Notification.thy ===== *)
theory Notification
  imports Keyset Events Auth Delivery "HOL-Library.Product_Lexorder"
begin

text \<open>
  notification-service: the consumer (\<open>consumer.go\<close>), the table and its statements
  (\<open>store.go\<close>, \<open>migration.sql\<close>) and the list endpoint (\<open>handler.go\<close>).

  Postgres's readings of a UUID and of a \<open>JSONB\<close> document are the parameters \<open>U\<close> and
  \<open>J\<close> (\<open>J d\<close> is the document as stored, \<open>None\<close> for one that \<open>JSONB\<close> refuses); the UUID parser
  of \<open>google/uuid\<close> is \<open>uuidParse\<close>. The mock mail is a log line: the mails are the list of those
  lines. The other calls have outcomes that the environment chooses (\<open>Delivery\<close>).
\<close>

section \<open>The table\<close>

record Notification =
  nt_ID :: string
  nt_UserID :: string
  nt_EventType :: string
  nt_Payload :: json
  nt_Status :: string
  nt_CreatedAt :: time
  nt_SentAt :: "time option"

record NotificationRecord =
  nr_UserID :: string
  nr_UserEmail :: string
  nr_EventType :: string
  nr_Payload :: json

type_synonym mail = "string \<times> string"

text \<open>One run of the insert transaction: the outcomes, the id and the instant that the server gives
  the row (\<open>gen_random_uuid()\<close>, \<open>now()\<close>), the client's clock at the end.\<close>

record insert_env =
  ie_begin :: outcome
  ie_insert :: outcome
  ie_id :: string
  ie_now :: time
  ie_mark :: outcome
  ie_commit :: commit_outcome
  ie_clock :: time

definition insert_notification :: "uuid_in \<Rightarrow> (json \<Rightarrow> json option) \<Rightarrow> insert_env \<Rightarrow> NotificationRecord
    \<Rightarrow> Notification list \<Rightarrow> Notification list option" where
  "insert_notification U J e rec db =
     (case (U (nr_UserID rec), J (nr_Payload rec)) of
        (Some u, Some p) \<Rightarrow>
          if \<exists>x \<in> set db. nt_ID x = ie_id e then None
          else Some (db @ [\<lparr>nt_ID = ie_id e, nt_UserID = u, nt_EventType = nr_EventType rec, nt_Payload = p,
                 nt_Status = ''pending'', nt_CreatedAt = timestamptz (ie_now e), nt_SentAt = None\<rparr>])
      | _ \<Rightarrow> None)"

definition mark_notification_sent :: "insert_env \<Rightarrow> Notification list \<Rightarrow> Notification list" where
  "mark_notification_sent e = update_where (\<lambda>x. nt_ID x = ie_id e)
     (\<lambda>x. x\<lparr>nt_Status := ''sent'', nt_SentAt := Some (timestamptz (ie_now e))\<rparr>)"

text \<open>\<open>InsertNotification\<close>: how it ends, the table with the deferred rollback done, the mails.\<close>

definition InsertNotification :: "uuid_in \<Rightarrow> (json \<Rightarrow> json option) \<Rightarrow> insert_env \<Rightarrow> NotificationRecord
    \<Rightarrow> Notification list \<Rightarrow> mail list \<Rightarrow> Notification ending \<times> Notification list \<times> mail list" where
  "InsertNotification U J e rec db mails =
     (case ie_begin e of
        Fails \<Rightarrow> (Errored, db, mails)
      | Panics \<Rightarrow> (Panicked, db, mails)
      | Works \<Rightarrow>
         (case ie_insert e of
            Fails \<Rightarrow> (Errored, db, mails)
          | Panics \<Rightarrow> (Panicked, db, mails)
          | Works \<Rightarrow>
             (case insert_notification U J e rec db of
                None \<Rightarrow> (Errored, db, mails)
              | Some db' \<Rightarrow>
                  let mails = mails @ [(nr_UserEmail rec, nr_EventType rec)] in
                  (case ie_mark e of
                     Fails \<Rightarrow> (Errored, db, mails)
                   | Panics \<Rightarrow> (Panicked, db, mails)
                   | Works \<Rightarrow>
                       let db'' = mark_notification_sent e db' in
                       (case ie_commit e of
                          CommitFailed \<Rightarrow> (Errored, db, mails)
                        | CommitLost \<Rightarrow> (Errored, db'', mails)
                        | CommitPanics \<Rightarrow> (Panicked, db, mails)
                        | Committed \<Rightarrow>
                            (Done \<lparr>nt_ID = ie_id e, nt_UserID = nr_UserID rec, nt_EventType = nr_EventType rec,
                               nt_Payload = nr_Payload rec, nt_Status = ''sent'',
                               nt_CreatedAt = timestamptz (ie_now e), nt_SentAt = Some (ie_clock e)\<rparr>,
                             db'', mails))))))"

section \<open>The consumer\<close>

definition parseEventID :: "json option \<Rightarrow> string option" where
  "parseEventID body =
     (case Unmarshal base_fields zero_base body of
        None \<Rightarrow> None
      | Some base \<Rightarrow> if be_EventID base = '''' then None else Some (be_EventID base))"

definition newNotificationRecord :: "string \<Rightarrow> string \<Rightarrow> string \<Rightarrow> json \<Rightarrow> NotificationRecord" where
  "newNotificationRecord userID userEmail eventType body =
     \<lparr>nr_UserID = userID, nr_UserEmail = userEmail, nr_EventType = eventType, nr_Payload = body\<rparr>"

definition notificationFromURLCreated :: "json \<Rightarrow> string \<Rightarrow> NotificationRecord option" where
  "notificationFromURLCreated body eventType =
     (case Unmarshal URLCreated_fields zero_URLCreated (Some body) of
        None \<Rightarrow> None
      | Some evt \<Rightarrow> if uc_UserID evt = '''' \<or> uc_UserEmail evt = '''' then None
          else Some (newNotificationRecord (uc_UserID evt) (uc_UserEmail evt) eventType body))"

definition notificationFromURLDeleted :: "json \<Rightarrow> string \<Rightarrow> NotificationRecord option" where
  "notificationFromURLDeleted body eventType =
     (case Unmarshal URLDeleted_fields zero_URLDeleted (Some body) of
        None \<Rightarrow> None
      | Some evt \<Rightarrow> if ud_UserID evt = '''' \<or> ud_UserEmail evt = '''' then None
          else Some (newNotificationRecord (ud_UserID evt) (ud_UserEmail evt) eventType body))"

definition notificationFromMilestoneReached :: "json \<Rightarrow> string \<Rightarrow> NotificationRecord option" where
  "notificationFromMilestoneReached body eventType =
     (case Unmarshal Milestone_fields zero_Milestone (Some body) of
        None \<Rightarrow> None
      | Some evt \<Rightarrow> if mr_UserID evt = '''' then None
          else if mr_UserEmail evt = '''' then None
          else Some (newNotificationRecord (mr_UserID evt) (mr_UserEmail evt) eventType body))"

record delivery =
  dv_RoutingKey :: string
  dv_Body :: "json option"

text \<open>A message that gives no record has been acknowledged, and so discarded, inside this function.\<close>

definition notificationFromDelivery :: "delivery \<Rightarrow> (NotificationRecord \<times> string) option" where
  "notificationFromDelivery d =
     (case (parseEventID (dv_Body d), dv_Body d) of
        (Some eventID, Some body) \<Rightarrow>
          (let eventType = dv_RoutingKey d;
               rec = (if eventType = event_name EventTypeURLCreated then notificationFromURLCreated body eventType
                      else if eventType = event_name EventTypeURLDeleted then notificationFromURLDeleted body eventType
                      else if eventType = event_name EventTypeMilestoneReached
                        then notificationFromMilestoneReached body eventType
                      else None)
           in case rec of None \<Rightarrow> None | Some rec \<Rightarrow> Some (rec, eventID))
      | _ \<Rightarrow> None)"

definition processDelivery_notification :: "uuid_in \<Rightarrow> (json \<Rightarrow> json option) \<Rightarrow> insert_env \<Rightarrow> delivery
    \<Rightarrow> Notification list \<Rightarrow> mail list \<Rightarrow> reply \<times> Notification list \<times> mail list" where
  "processDelivery_notification U J e d db mails =
     (case notificationFromDelivery d of
        None \<Rightarrow> (Ack, db, mails)
      | Some (rec, eventID) \<Rightarrow>
         (case InsertNotification U J e rec db mails of
            (Errored, db, mails) \<Rightarrow> (NackRequeue, db, mails)
          | (Panicked, db, mails) \<Rightarrow> (Ack, db, mails)
          | (Done n, db, mails) \<Rightarrow> (Ack, db, mails)))"

section \<open>The list endpoint\<close>

definition created_id :: "Notification \<Rightarrow> time \<times> string" where
  "created_id n = (nt_CreatedAt n, nt_ID n)"

text \<open>The two list statements, on UUIDs that Postgres has read; an unknown cursor, or another user's,
  makes the row comparison \<open>NULL\<close> and gives no rows. A negative \<open>LIMIT\<close> is an error.\<close>

definition listNotificationsSQL :: "string \<Rightarrow> int \<Rightarrow> Notification list \<Rightarrow> Notification list" where
  "listNotificationsSQL u limit db =
     take (nat limit) (sort_desc created_id (filter (\<lambda>n. nt_UserID n = u) db))"

definition listNotificationsAfterSQL :: "string \<Rightarrow> string \<Rightarrow> int \<Rightarrow> Notification list \<Rightarrow> Notification list" where
  "listNotificationsAfterSQL u a limit db =
     (case find (\<lambda>n. nt_ID n = a \<and> nt_UserID n = u) db of
        None \<Rightarrow> []
      | Some c \<Rightarrow> take (nat limit) (sort_desc created_id
          (filter (\<lambda>n. nt_UserID n = u \<and> created_id n < created_id c) db)))"

definition queryNotifications :: "uuid_in \<Rightarrow> bool \<Rightarrow> string \<Rightarrow> string \<Rightarrow> int \<Rightarrow> Notification list
    \<Rightarrow> Notification list option" where
  "queryNotifications U ok userID afterID limit db =
     (if \<not> ok \<or> limit < 0 then None
      else if afterID = '''' then
        map_option (\<lambda>u. listNotificationsSQL u limit db) (U userID)
      else
        (case (U userID, U afterID) of
           (Some u, Some a) \<Rightarrow> Some (listNotificationsAfterSQL u a limit db)
         | _ \<Rightarrow> None))"

definition ListByUser :: "uuid_in \<Rightarrow> bool \<Rightarrow> string \<Rightarrow> string \<Rightarrow> int \<Rightarrow> Notification list
    \<Rightarrow> (Notification list \<times> string) option" where
  "ListByUser U ok userID afterID limit db =
     (let limit = (if limit \<le> 0 then 20 else limit) in
      case queryNotifications U ok userID afterID (i64 (limit + 1)) db of
        None \<Rightarrow> None
      | Some ns \<Rightarrow>
          if int (length ns) > limit then Some (take (nat limit) ns, nt_ID (last (take (nat limit) ns)))
          else Some (ns, ''''))"

text \<open>The same row by row: \<open>ok\<close> above stands for the query, every row and the iteration.\<close>

definition scanNotifications :: "rows_env \<Rightarrow> Notification list \<Rightarrow> Notification list option" where
  "scanNotifications e rows = scan_rows e (\<lambda>notification. notification) 0 rows"

definition call_ListByUser :: "rows_env \<Rightarrow> uuid_in \<Rightarrow> string \<Rightarrow> string \<Rightarrow> int \<Rightarrow> Notification list
    \<Rightarrow> (Notification list \<times> string) option" where
  "call_ListByUser e U userID afterID limit db =
     (let limit = (if limit \<le> 0 then 20 else limit) in
      case queryNotifications U (re_query e) userID afterID (i64 (limit + 1)) db of
        None \<Rightarrow> None
      | Some rows \<Rightarrow>
         (case scanNotifications e rows of
            None \<Rightarrow> None
          | Some ns \<Rightarrow>
              if int (length ns) > limit then Some (take (nat limit) ns, nt_ID (last (take (nat limit) ns)))
              else Some (ns, '''')))"

lemma call_ListByUser_all_or_nothing:
  "call_ListByUser e U userID afterID limit db
     = (case queryNotifications U True userID afterID (i64 ((if limit \<le> 0 then 20 else limit) + 1)) db of
          None \<Rightarrow> None
        | Some rows \<Rightarrow> ListByUser U (rows_ok e (length rows)) userID afterID limit db)"
proof -
  define lim where "lim = (if limit \<le> 0 then 20 else limit)"
  have q: "queryNotifications U ok userID afterID l db = (if ok then queryNotifications U True userID afterID l db else None)" for ok l
    by (simp add: queryNotifications_def)
  show ?thesis
  proof (cases "queryNotifications U True userID afterID (i64 (lim + 1)) db")
    case None
    then show ?thesis using q [of "re_query e" "i64 (lim + 1)"]
      unfolding call_ListByUser_def Let_def lim_def [symmetric] by (simp split: if_split)
  next
    case (Some rows)
    then show ?thesis using q [of "re_query e" "i64 (lim + 1)"] q [of "rows_ok e (length rows)" "i64 (lim + 1)"]
      unfolding call_ListByUser_def ListByUser_def Let_def lim_def [symmetric]
      by (cases "re_query e") (simp_all add: scanNotifications_def scan_rows_outcome rows_ok_def)
  qed
qed

definition defaultNotificationLimit :: int where "defaultNotificationLimit = 20"
definition maxNotificationLimit :: int where "maxNotificationLimit = 100"

definition parseNotificationLimit :: "string \<Rightarrow> int option" where
  "parseNotificationLimit raw =
     (if raw = '''' then Some defaultNotificationLimit
      else (case Atoi raw of
              None \<Rightarrow> None
            | Some limit \<Rightarrow> if limit \<le> 0 then None
                else if limit > maxNotificationLimit then Some maxNotificationLimit else Some limit))"

definition parseNotificationCursor :: "(string \<Rightarrow> bool) \<Rightarrow> string \<Rightarrow> string option" where
  "parseNotificationCursor uuidParse raw =
     (if raw = '''' then Some '''' else if \<not> uuidParse raw then None else Some raw)"

definition nullableCursor :: "string \<Rightarrow> string option" where
  "nullableCursor cursor = (if cursor = '''' then None else Some cursor)"

record notificationListResponse =
  nl_Notifications :: "Notification list"
  nl_NextCursor :: "string option"

definition HandleList :: "uuid_in \<Rightarrow> (string \<Rightarrow> bool) \<Rightarrow> bool \<Rightarrow> http_request \<Rightarrow> string \<Rightarrow> string
    \<Rightarrow> Notification list \<Rightarrow> notificationListResponse response" where
  "HandleList U uuidParse ok r limitParam after db =
     (case ClaimsFromContext (req_ctx r) of
        None \<Rightarrow> error_response 401 ''unauthorized''
      | Some claims \<Rightarrow>
          if Sub claims = '''' then error_response 401 ''unauthorized''
          else (case parseNotificationLimit limitParam of
             None \<Rightarrow> error_response 400 ''limit must be a positive integer''
           | Some limit \<Rightarrow>
          (case parseNotificationCursor uuidParse after of
             None \<Rightarrow> error_response 400 ''after must be a valid uuid''
           | Some afterID \<Rightarrow>
          (case ListByUser U ok (Sub claims) afterID limit db of
             None \<Rightarrow> error_response 500 ''failed to list notifications''
           | Some (ns, nextCursor) \<Rightarrow>
               json_response 200 \<lparr>nl_Notifications = ns, nl_NextCursor = nullableCursor nextCursor\<rparr>))))"

text \<open>The route as \<open>main.go\<close> serves it, behind the middleware.\<close>

definition serve_notifications :: "jwt_parse \<Rightarrow> string \<Rightarrow> uuid_in \<Rightarrow> (string \<Rightarrow> bool) \<Rightarrow> bool \<Rightarrow> time
    \<Rightarrow> http_request \<Rightarrow> string \<Rightarrow> string \<Rightarrow> Notification list \<Rightarrow> notificationListResponse response" where
  "serve_notifications parse secret U uuidParse ok now r limitParam after db =
     (case JWTMiddleware parse now secret r of
        Inl resp \<Rightarrow> resp
      | Inr r \<Rightarrow> HandleList U uuidParse ok r limitParam after db)"

definition notification_serve :: "(http_request \<Rightarrow> notificationListResponse response) \<Rightarrow> jwt_parse \<Rightarrow> string \<Rightarrow> uuid_in
    \<Rightarrow> (string \<Rightarrow> bool) \<Rightarrow> bool \<Rightarrow> time \<Rightarrow> http_request \<Rightarrow> string \<Rightarrow> string \<Rightarrow> Notification list \<Rightarrow> notificationListResponse response" where
  "notification_serve ops parse secret U uuidParse ok now r limitParam after db =
     (if req_method r \<in> {''GET'', ''HEAD''} \<and> req_path r = ''/notifications''
      then serve_notifications parse secret U uuidParse ok now r limitParam after db else ops r)"

end
