(* ===== verification/NotificationProps.thy ===== *)
theory NotificationProps
  imports Notification
begin

text \<open>
  Properties of notification-service: what the table holds in every reachable state, how often a
  message is notified under redelivery, and the list endpoint as a keyset listing.
\<close>

section \<open>One delivery\<close>

text \<open>The row \<open>n\<close> is a notification of the message \<open>d\<close>, and its mail.\<close>

definition notifies :: "uuid_in \<Rightarrow> (json \<Rightarrow> json option) \<Rightarrow> delivery \<Rightarrow> Notification \<Rightarrow> bool" where
  "notifies U J d n \<longleftrightarrow> (case notificationFromDelivery d of
     None \<Rightarrow> False
   | Some (rec, i) \<Rightarrow> U (nr_UserID rec) = Some (nt_UserID n) \<and> J (nr_Payload rec) = Some (nt_Payload n)
       \<and> nt_EventType n = nr_EventType rec \<and> nt_Status n = ''sent'' \<and> nt_SentAt n = Some (nt_CreatedAt n))"

definition mail_of :: "delivery \<Rightarrow> mail option" where
  "mail_of d = map_option (\<lambda>(rec, i). (nr_UserEmail rec, nr_EventType rec)) (notificationFromDelivery d)"

lemma InsertNotification_cases:
  assumes "InsertNotification U J e rec db mails = (r, db', mails')"
  obtains "db' = db" "mails' = mails" "\<And>n. r \<noteq> Done n"
  | "db' = db" "mails' = mails @ [(nr_UserEmail rec, nr_EventType rec)]" "\<And>n. r \<noteq> Done n"
  | u p where "U (nr_UserID rec) = Some u" "J (nr_Payload rec) = Some p" "ie_id e \<notin> nt_ID ` set db"
      "db' = db @ [\<lparr>nt_ID = ie_id e, nt_UserID = u, nt_EventType = nr_EventType rec, nt_Payload = p,
         nt_Status = ''sent'', nt_CreatedAt = timestamptz (ie_now e), nt_SentAt = Some (timestamptz (ie_now e))\<rparr>]"
      "mails' = mails @ [(nr_UserEmail rec, nr_EventType rec)]"
      "ie_commit e = CommitLost \<and> r = Errored \<or> ie_commit e = Committed \<and> (\<exists>n. r = Done n)"
proof (cases "\<exists>u p. U (nr_UserID rec) = Some u \<and> J (nr_Payload rec) = Some p \<and> ie_id e \<notin> nt_ID ` set db")
  case True
  then obtain u p where up: "U (nr_UserID rec) = Some u" "J (nr_Payload rec) = Some p"
    and f: "ie_id e \<notin> nt_ID ` set db" by blast
  then have i: "insert_notification U J e rec db = Some (db @ [\<lparr>nt_ID = ie_id e, nt_UserID = u,
      nt_EventType = nr_EventType rec, nt_Payload = p, nt_Status = ''pending'',
      nt_CreatedAt = timestamptz (ie_now e), nt_SentAt = None\<rparr>])"
    by (auto simp: insert_notification_def image_iff)
  have m: "mark_notification_sent e (db @ [x]) = db @ [if nt_ID x = ie_id e
      then x\<lparr>nt_Status := ''sent'', nt_SentAt := Some (timestamptz (ie_now e))\<rparr> else x]" for x
  proof -
    have "update_where (\<lambda>x. nt_ID x = ie_id e) g db = db" for g
      by (rule update_where_id) (use f in \<open>auto simp: image_iff\<close>)
    then show ?thesis by (simp add: mark_notification_sent_def)
  qed
  show thesis
  proof (cases "ie_begin e = Works \<and> ie_insert e = Works")
    case False
    with assms that(1) show thesis
      by (auto simp: InsertNotification_def split: outcome.splits)
  next
    case True
    then have R: "(r, db', mails') = (case ie_mark e of
          Fails \<Rightarrow> (Errored, db, mails @ [(nr_UserEmail rec, nr_EventType rec)])
        | Panics \<Rightarrow> (Panicked, db, mails @ [(nr_UserEmail rec, nr_EventType rec)])
        | Works \<Rightarrow> (case ie_commit e of
            CommitFailed \<Rightarrow> (Errored, db, mails @ [(nr_UserEmail rec, nr_EventType rec)])
          | CommitPanics \<Rightarrow> (Panicked, db, mails @ [(nr_UserEmail rec, nr_EventType rec)])
          | _ \<Rightarrow> (r, db', mails')))"
      using assms by (simp add: InsertNotification_def i Let_def split: outcome.splits commit_outcome.splits)
    show thesis
    proof (cases "ie_mark e = Works \<and> (ie_commit e = CommitLost \<or> ie_commit e = Committed)")
      case False
      with R that(2) show thesis by (cases "ie_mark e"; cases "ie_commit e") simp_all
    next
      case marked: True
      have "r = Errored \<and> ie_commit e = CommitLost \<or> (\<exists>n. r = Done n) \<and> ie_commit e = Committed"
        "db' = mark_notification_sent e (db @ [\<lparr>nt_ID = ie_id e, nt_UserID = u, nt_EventType = nr_EventType rec,
            nt_Payload = p, nt_Status = ''pending'', nt_CreatedAt = timestamptz (ie_now e), nt_SentAt = None\<rparr>])"
        "mails' = mails @ [(nr_UserEmail rec, nr_EventType rec)]"
        using assms True marked by (auto simp: InsertNotification_def i Let_def)
      with that(3) [OF up f] show thesis by (auto simp: m)
    qed
  qed
next
  case False
  then have "insert_notification U J e rec db = None"
    by (auto simp: insert_notification_def image_iff split: option.splits)
  with assms that(1) show thesis
    by (auto simp: InsertNotification_def split: outcome.splits)
qed

lemma process_cases:
  assumes "processDelivery_notification U J e d db mails = (rep, db', mails')"
  obtains "db' = db" "\<exists>ms. mails' = mails @ ms" "rep = Ack \<Longrightarrow> ie_begin e \<noteq> Panics \<Longrightarrow> ie_insert e \<noteq> Panics
      \<Longrightarrow> ie_mark e \<noteq> Panics \<Longrightarrow> ie_commit e \<noteq> CommitPanics \<Longrightarrow> notificationFromDelivery d = None \<and> mails' = mails"
  | n m where "notifies U J d n" "mail_of d = Some m" "nt_ID n = ie_id e" "ie_id e \<notin> nt_ID ` set db"
      "db' = db @ [n]" "mails' = mails @ [m]"
      "rep = Ack \<and> ie_commit e = Committed \<or> rep = NackRequeue \<and> ie_commit e = CommitLost"
proof (cases "notificationFromDelivery d")
  case None
  with assms that(1) show thesis by (auto simp: processDelivery_notification_def)
next
  case (Some x)
  obtain rec i where x: "x = (rec, i)" by (cases x)
  obtain r db1 m1 where I: "InsertNotification U J e rec db mails = (r, db1, m1)"
    by (cases "InsertNotification U J e rec db mails")
  with assms Some x have eq: "db' = db1" "mails' = m1" "rep = (if r = Errored then NackRequeue else Ack)"
    by (auto simp: processDelivery_notification_def split: ending.splits)
  have panic: "r \<noteq> Panicked" if "ie_begin e \<noteq> Panics" "ie_insert e \<noteq> Panics" "ie_mark e \<noteq> Panics"
    "ie_commit e \<noteq> CommitPanics"
    using I that by (auto simp: InsertNotification_def Let_def split: outcome.splits option.splits commit_outcome.splits)
  from I show thesis
  proof (cases rule: InsertNotification_cases)
    case 1
    with that(1) eq panic show thesis by (cases r) auto
  next
    case 2
    with that(1) eq panic show thesis by (cases r) auto
  next
    case (3 u p)
    show thesis
    proof (rule that(2))
      show "db' = db @ [\<lparr>nt_ID = ie_id e, nt_UserID = u, nt_EventType = nr_EventType rec, nt_Payload = p,
         nt_Status = ''sent'', nt_CreatedAt = timestamptz (ie_now e), nt_SentAt = Some (timestamptz (ie_now e))\<rparr>]"
        using 3(4) eq by simp
    qed (use 3 eq Some x in \<open>auto simp: notifies_def mail_of_def\<close>)
  qed
qed

section \<open>The consumer as a transition system\<close>

record ntsys =
  ns_db :: "Notification list"
  ns_mails :: "mail list"
  ns_delivered :: "delivery list"

inductive nt_step :: "uuid_in \<Rightarrow> (json \<Rightarrow> json option) \<Rightarrow> ntsys \<Rightarrow> ntsys \<Rightarrow> bool" for U J where
  nt_deliver: "U (ie_id e) = Some (ie_id e) \<Longrightarrow>
    processDelivery_notification U J e d (ns_db s) (ns_mails s) = (rep, db, mails) \<Longrightarrow>
    nt_step U J s (s\<lparr>ns_db := db, ns_mails := mails, ns_delivered := ns_delivered s @ [d]\<rparr>)"

definition nt_start :: "ntsys \<Rightarrow> bool" where
  "nt_start s \<longleftrightarrow> s = \<lparr>ns_db = [], ns_mails = [], ns_delivered = []\<rparr>"

definition nt_table :: "uuid_in \<Rightarrow> Notification list \<Rightarrow> bool" where
  "nt_table U db \<longleftrightarrow> distinct (map nt_ID db) \<and> (\<forall>n \<in> set db. U (nt_ID n) = Some (nt_ID n))"

definition nt_inv :: "uuid_in \<Rightarrow> (json \<Rightarrow> json option) \<Rightarrow> ntsys \<Rightarrow> bool" where
  "nt_inv U J s \<longleftrightarrow> nt_table U (ns_db s)
     \<and> (\<forall>n \<in> set (ns_db s). \<exists>d \<in> set (ns_delivered s). notifies U J d n
          \<and> (\<exists>m \<in> set (ns_mails s). mail_of d = Some m))
     \<and> length (ns_db s) \<le> length (ns_mails s)"

interpretation notifier: invariant_of nt_start "nt_step U J" "nt_inv U J" for U J
proof unfold_locales
  show "nt_inv U J s" if "nt_start s" for s
    using that by (simp add: nt_start_def nt_inv_def nt_table_def)
  show "nt_inv U J t" if "nt_inv U J s" "nt_step U J s t" for s t
    using that(2)
  proof cases
    case (nt_deliver e d rep db mails)
    from nt_deliver(3) show ?thesis
    proof (cases rule: process_cases)
      case 1
      then obtain ms where ms: "mails = ns_mails s @ ms" by blast
      from that(1) have "\<forall>n \<in> set (ns_db s). \<exists>d' \<in> set (ns_delivered s @ [d]). notifies U J d' n
          \<and> (\<exists>m \<in> set (ns_mails s @ ms). mail_of d' = Some m)"
        unfolding nt_inv_def by fastforce
      with that(1) nt_deliver(1) 1(1) ms show ?thesis by (simp add: nt_inv_def)
    next
      case (2 n m)
      from that(1) have "\<forall>n \<in> set (ns_db s). \<exists>d' \<in> set (ns_delivered s @ [d]). notifies U J d' n
          \<and> (\<exists>m' \<in> set (ns_mails s @ [m]). mail_of d' = Some m')"
        unfolding nt_inv_def by fastforce
      moreover have "notifies U J d n \<and> mail_of d = Some m" using 2 by simp
      moreover have "nt_table U (ns_db s @ [n])"
        using that(1) 2(3,4) nt_deliver(2) by (auto simp: nt_inv_def nt_table_def)
      ultimately show ?thesis using that(1) nt_deliver(1) 2(5,6) by (simp add: nt_inv_def)
    qed
  qed
qed

text \<open>C12: every stored notification was sent: in every reachable state of the consumer, under any
  faults, each row has the status \<open>sent\<close> and its sending time, stems from a delivered message with
  its routing key, holds that message's user and payload, and the mail to the address in the
  message has been written; the rows have distinct ids.\<close>

theorem notifications_sent:
  assumes "reach nt_start (nt_step U J) s"
  shows "distinct (map nt_ID (ns_db s)) \<and> (\<forall>n \<in> set (ns_db s). nt_Status n = ''sent''
    \<and> nt_SentAt n = Some (nt_CreatedAt n)
    \<and> (\<exists>d \<in> set (ns_delivered s). \<exists>rec i. notificationFromDelivery d = Some (rec, i)
         \<and> nt_EventType n = dv_RoutingKey d \<and> U (nr_UserID rec) = Some (nt_UserID n)
         \<and> J (nr_Payload rec) = Some (nt_Payload n) \<and> Some (nr_Payload rec) = dv_Body d
         \<and> (nr_UserEmail rec, dv_RoutingKey d) \<in> set (ns_mails s)))"
proof -
  from notifier.inv_reach [OF assms] have inv: "nt_inv U J s" .
  have rec: "nr_EventType rec = dv_RoutingKey d \<and> Some (nr_Payload rec) = dv_Body d"
    if "notificationFromDelivery d = Some (rec, i)" for d rec i
    using that by (auto simp: notificationFromDelivery_def notificationFromURLCreated_def
        notificationFromURLDeleted_def notificationFromMilestoneReached_def newNotificationRecord_def Let_def
        split: option.splits if_splits)
  have "nt_Status n = ''sent'' \<and> nt_SentAt n = Some (nt_CreatedAt n)
    \<and> (\<exists>d \<in> set (ns_delivered s). \<exists>rec i. notificationFromDelivery d = Some (rec, i)
         \<and> nt_EventType n = dv_RoutingKey d \<and> U (nr_UserID rec) = Some (nt_UserID n)
         \<and> J (nr_Payload rec) = Some (nt_Payload n) \<and> Some (nr_Payload rec) = dv_Body d
         \<and> (nr_UserEmail rec, dv_RoutingKey d) \<in> set (ns_mails s))" if "n \<in> set (ns_db s)" for n
  proof -
    from inv that obtain d m where d: "d \<in> set (ns_delivered s)" "notifies U J d n" "m \<in> set (ns_mails s)"
      "mail_of d = Some m" unfolding nt_inv_def by blast
    from d(2) obtain rec i where f: "notificationFromDelivery d = Some (rec, i)"
      by (auto simp: notifies_def split: option.splits)
    with d(2-4) rec [OF f] show ?thesis
      by (intro conjI bexI [OF _ d(1)] exI [of _ rec] exI [of _ i]) (auto simp: notifies_def mail_of_def)
  qed
  with inv show ?thesis by (simp add: nt_inv_def nt_table_def)
qed

section \<open>Redelivery\<close>

definition nt_deliver_to :: "uuid_in \<Rightarrow> (json \<Rightarrow> json option) \<Rightarrow> delivery \<Rightarrow> insert_env
    \<Rightarrow> Notification list \<times> mail list \<Rightarrow> reply \<times> Notification list \<times> mail list" where
  "nt_deliver_to U J d e = (\<lambda>(db, mails). processDelivery_notification U J e d db mails)"

definition nt_calm :: "insert_env \<Rightarrow> bool" where
  "nt_calm e \<longleftrightarrow> ie_begin e \<noteq> Panics \<and> ie_insert e \<noteq> Panics \<and> ie_mark e \<noteq> Panics \<and> ie_commit e \<noteq> CommitPanics"

definition nt_lost :: "insert_env \<Rightarrow> bool" where
  "nt_lost e \<longleftrightarrow> ie_commit e = CommitLost"

definition nt_eff :: "uuid_in \<Rightarrow> (json \<Rightarrow> json option) \<Rightarrow> delivery \<Rightarrow> nat \<Rightarrow> Notification list \<times> mail list
    \<Rightarrow> Notification list \<times> mail list \<Rightarrow> bool" where
  "nt_eff U J d k s s' \<longleftrightarrow> (if notificationFromDelivery d = None then s' = s
     else \<exists>ns ms. fst s' = fst s @ ns \<and> snd s' = snd s @ ms \<and> length ns = k \<and> k \<le> length ms
       \<and> (\<forall>n \<in> set ns. notifies U J d n))"

lemma notifies_from: "notifies U J d n \<Longrightarrow> notificationFromDelivery d \<noteq> None"
  by (auto simp: notifies_def split: option.splits)

lemma nt_eff_add:
  assumes "nt_eff U J d j a b" and "nt_eff U J d k b c"
  shows "nt_eff U J d (j + k) a c"
proof (cases "notificationFromDelivery d")
  case (Some x)
  with assms obtain n1 m1 n2 m2 where "fst b = fst a @ n1" "snd b = snd a @ m1" "length n1 = j" "j \<le> length m1"
    "\<forall>n \<in> set n1. notifies U J d n" "fst c = fst b @ n2" "snd c = snd b @ m2" "length n2 = k" "k \<le> length m2"
    "\<forall>n \<in> set n2. notifies U J d n" by (auto simp: nt_eff_def)
  with Some show ?thesis
    by (auto simp: nt_eff_def intro!: exI [of _ "n1 @ n2"] exI [of _ "m1 @ m2"])
qed (use assms in \<open>simp add: nt_eff_def\<close>)

interpretation nt_redelivery: at_least_once "nt_deliver_to U J d" nt_calm nt_lost "nt_eff U J d" for U J d
proof unfold_locales
  show "nt_eff U J d 0 s s" for s by (simp add: nt_eff_def)
  show "nt_eff U J d (j + k) a c" if "nt_eff U J d j a b" "nt_eff U J d k b c" for j k a b c
    using nt_eff_add [OF that] .
  fix e and s s' :: "Notification list \<times> mail list"
  obtain db mails db' mails' where s: "s = (db, mails)" "s' = (db', mails')" by (cases s, cases s')
  assume calm: "nt_calm e"
  show "nt_eff U J d 1 s s'" if "nt_deliver_to U J d e s = (Ack, s')"
  proof -
    from that s have "processDelivery_notification U J e d db mails = (Ack, db', mails')"
      by (simp add: nt_deliver_to_def)
    then show ?thesis
      by (cases rule: process_cases) (use calm s in \<open>auto simp: nt_eff_def nt_calm_def dest: notifies_from\<close>)
  qed
  show "nt_eff U J d (if nt_lost e then 1 else 0) s s' \<or> nt_eff U J d 0 s s'"
    if "nt_deliver_to U J d e s = (NackRequeue, s')"
  proof -
    from that s have P: "processDelivery_notification U J e d db mails = (NackRequeue, db', mails')"
      by (simp add: nt_deliver_to_def)
    then have "notificationFromDelivery d \<noteq> None"
      by (cases "notificationFromDelivery d") (auto simp: processDelivery_notification_def)
    with P show ?thesis
      by (cases rule: process_cases) (use s in \<open>auto simp: nt_eff_def nt_lost_def\<close>)
  qed
qed

text \<open>A message and an environment for the witnesses.\<close>

definition demo_created :: delivery where
  "demo_created = \<lparr>dv_RoutingKey = ''url.created'', dv_Body = Some (json_URLCreated
     (zero_URLCreated\<lparr>be_EventID := ''1'', uc_UserID := ''u'', uc_UserEmail := ''u@x.y''\<rparr>))\<rparr>"

definition demo_insert :: "string \<Rightarrow> insert_env" where
  "demo_insert i = \<lparr>ie_begin = Works, ie_insert = Works, ie_id = i, ie_now = 0, ie_mark = Works,
     ie_commit = Committed, ie_clock = 0\<rparr>"

definition demo_uuids :: uuid_in where
  "demo_uuids s = (if s \<in> {''u'', ''a'', ''b'', ''c''} then Some s else None)"

lemma demo_uuid_laws: "uuid_laws demo_uuids"
  by (simp add: uuid_laws_def demo_uuids_def)

definition demo_ns :: ntsys where
  "demo_ns = (case processDelivery_notification demo_uuids Some (demo_insert ''a'') demo_created [] [] of
     (_, db, mails) \<Rightarrow> \<lparr>ns_db = db, ns_mails = mails, ns_delivered = [demo_created]\<rparr>)"

lemma demo_ns_reach: "reach nt_start (nt_step demo_uuids Some) demo_ns"
proof (rule reach_step)
  let ?s = "\<lparr>ns_db = [], ns_mails = [], ns_delivered = []\<rparr>"
  show "reach nt_start (nt_step demo_uuids Some) ?s" by (rule reach_start) (simp add: nt_start_def)
  obtain rep db mails where P: "processDelivery_notification demo_uuids Some (demo_insert ''a'') demo_created [] []
      = (rep, db, mails)" by (metis prod_cases3)
  with nt_deliver [of demo_uuids "demo_insert ''a''" Some demo_created ?s rep db mails]
  show "nt_step demo_uuids Some ?s demo_ns" by (simp add: demo_ns_def demo_uuids_def demo_insert_def)
qed

theorem notifications_sent_witness:
  "map nt_Status (ns_db demo_ns) = [''sent'']"
proof -
  have "length (ns_db demo_ns) = 1" by code_simp
  then obtain n where "ns_db demo_ns = [n]" by (auto simp: length_Suc_conv)
  with notifications_sent [OF demo_ns_reach] show ?thesis by simp
qed

text \<open>C33: at least once, and not more often than commits got lost: when a message that asks for a
  notification is delivered until it is acknowledged, through any errors, between one and one plus
  the number of lost commits rows have been added, each a sent notification of that message, and
  at least as many mails. The event's id is required but never compared, so nothing removes the
  repetitions.\<close>

theorem redelivery_repeats_notification:
  assumes "\<And>e. e \<in> set es \<Longrightarrow> nt_calm e" and "notificationFromDelivery d \<noteq> None"
    and "redeliver (nt_deliver_to U J d) es (db, mails) = (True, db', mails')"
  shows "\<exists>ns ms. db' = db @ ns \<and> mails' = mails @ ms \<and> 1 \<le> length ns
    \<and> length ns \<le> 1 + length (filter nt_lost es) \<and> length ns \<le> length ms
    \<and> (\<forall>n \<in> set ns. notifies U J d n)"
  using nt_redelivery.redeliver_effect [OF assms(1,3)] assms(2) by (auto simp: nt_eff_def)

theorem redelivery_repeats_notification_witness:
  "\<exists>ns. fst (snd (redeliver (nt_deliver_to demo_uuids Some demo_created)
      [(demo_insert ''a'')\<lparr>ie_commit := CommitLost\<rparr>, demo_insert ''b''] ([], []))) = ns
    \<and> length ns = 2 \<and> (\<forall>n \<in> set ns. notifies demo_uuids Some demo_created n)"
proof -
  let ?es = "[(demo_insert ''a'')\<lparr>ie_commit := CommitLost\<rparr>, demo_insert ''b'']"
  let ?r = "redeliver (nt_deliver_to demo_uuids Some demo_created) ?es ([], [])"
  have f: "fst ?r" and l: "length (fst (snd ?r)) = 2" by code_simp+
  from f obtain db' mails' where R: "?r = (True, db', mails')" by (cases ?r) auto
  have "nt_calm e" if "e \<in> set ?es" for e using that by (auto simp: nt_calm_def demo_insert_def)
  moreover have "notificationFromDelivery demo_created \<noteq> None" by code_simp
  ultimately obtain ns where "db' = [] @ ns" "\<forall>n \<in> set ns. notifies demo_uuids Some demo_created n"
    using redelivery_repeats_notification [OF _ _ R] by blast
  with l show ?thesis unfolding R by simp
qed

section \<open>The list\<close>

record nt_query =
  nq_U :: uuid_in
  nq_parse :: "string \<Rightarrow> bool"
  nq_req :: http_request
  nq_limit :: string
  nq_db :: "Notification list"

definition nq_user :: "nt_query \<Rightarrow> string" where
  "nq_user s = (case ctx_claims (req_ctx (nq_req s)) of None \<Rightarrow> '''' | Some c \<Rightarrow> Sub c)"

text \<open>A request with a UUID as subject and an acceptable limit, on a table that satisfies its
  invariant; \<open>uuid.Parse\<close> takes the canonical texts.\<close>

definition nq_valid :: "nt_query \<Rightarrow> bool" where
  "nq_valid s \<longleftrightarrow> uuid_laws (nq_U s) \<and> (\<forall>i c. nq_U s i = Some c \<longrightarrow> nq_parse s c)
     \<and> nt_table (nq_U s) (nq_db s) \<and> nq_U s (nq_user s) \<noteq> None
     \<and> parseNotificationLimit (nq_limit s) \<noteq> None"

definition nq_lim :: "nt_query \<Rightarrow> nat" where
  "nq_lim s = nat (the (parseNotificationLimit (nq_limit s)))"

definition nq_all :: "nt_query \<Rightarrow> Notification list" where
  "nq_all s = sort_desc created_id (filter (\<lambda>n. nt_UserID n = the (nq_U s (nq_user s))) (nq_db s))"

definition nq_below :: "nt_query \<Rightarrow> string \<Rightarrow> Notification list" where
  "nq_below s a = (case find (\<lambda>n. nt_ID n = a \<and> nt_UserID n = the (nq_U s (nq_user s))) (nq_db s) of
     None \<Rightarrow> [] | Some c \<Rightarrow> filter (\<lambda>n. created_id n < created_id c) (nq_all s))"

text \<open>One page as the HTTP client sees it.\<close>

definition nq_page :: "nt_query \<Rightarrow> string option \<Rightarrow> Notification list \<times> string option" where
  "nq_page s c =
     (case resp_body (HandleList (nq_U s) (nq_parse s) True (nq_req s) (nq_limit s)
             (case c of None \<Rightarrow> '''' | Some a \<Rightarrow> a) (nq_db s)) of
        JsonBody l \<Rightarrow> (nl_Notifications l, nl_NextCursor l)
      | _ \<Rightarrow> ([], None))"

lemma limit_range: "parseNotificationLimit raw = Some n \<Longrightarrow> 1 \<le> n \<and> n \<le> 100"
  by (auto simp: parseNotificationLimit_def defaultNotificationLimit_def maxNotificationLimit_def
      split: if_splits option.splits)

lemma in_nq_all: "n \<in> set (nq_all s) \<Longrightarrow> n \<in> set (nq_db s) \<and> nt_UserID n = the (nq_U s (nq_user s))"
  by (simp add: nq_all_def)

lemma nq_below_cursor:
  assumes "nq_valid s" and "z \<in> set (nq_all s)"
  shows "nq_below s (nt_ID z) = filter (\<lambda>n. created_id n < created_id z) (nq_all s)"
proof -
  from assms have d: "distinct (map nt_ID (nq_db s))" by (simp add: nq_valid_def nt_table_def)
  have "find (\<lambda>n. nt_ID n = nt_ID z \<and> nt_UserID n = the (nq_U s (nq_user s))) (nq_db s) = Some z"
  proof (cases "find (\<lambda>n. nt_ID n = nt_ID z \<and> nt_UserID n = the (nq_U s (nq_user s))) (nq_db s)")
    case None
    with in_nq_all [OF assms(2)] show ?thesis by (auto simp: find_None_iff_all)
  next
    case (Some y)
    from find_SomeD [OF this] in_nq_all [OF assms(2)] distinct_map_unique [OF d, of y z] Some show ?thesis by simp
  qed
  then show ?thesis by (simp add: nq_below_def)
qed

lemma ListByUser_page:
  assumes "queryNotifications U True uid after (i64 (lim + 1)) db = Some (take (nat (i64 (lim + 1))) rest)"
    and "1 \<le> lim" and "lim \<le> 100"
  shows "ListByUser U True uid after lim db = Some
    (if length rest > nat lim then (take (nat lim) rest, nt_ID (last (take (nat lim) rest))) else (rest, ''''))"
proof -
  have n: "nat (i64 (lim + 1)) = Suc (nat lim)" using assms(2,3) by (simp add: i64_id in_i64_def)
  show ?thesis
  proof (cases "length rest > nat lim")
    case True
    then have "int (length (take (Suc (nat lim)) rest)) > lim" using assms(2) by simp
    with True assms(1,2) n show ?thesis by (auto simp: ListByUser_def Let_def min_def)
  next
    case False
    with assms(1,2) n show ?thesis by (auto simp: ListByUser_def Let_def)
  qed
qed

lemma nq_query:
  assumes v: "nq_valid s" and c: "\<And>x. c = Some x \<Longrightarrow> x \<in> nt_ID ` set (nq_all s)" and k: "0 \<le> k"
  shows "queryNotifications (nq_U s) True (nq_user s) (case c of None \<Rightarrow> '''' | Some a \<Rightarrow> a) k (nq_db s)
    = Some (take (nat k) (case c of None \<Rightarrow> nq_all s | Some a \<Rightarrow> nq_below s a))"
proof -
  from v obtain u where u: "nq_U s (nq_user s) = Some u" by (auto simp: nq_valid_def)
  show ?thesis
  proof (cases c)
    case None
    with u k show ?thesis by (simp add: queryNotifications_def listNotificationsSQL_def listNotificationsAfterSQL_def nq_all_def)
  next
    case (Some a)
    then obtain n where "n \<in> set (nq_db s)" "a = nt_ID n" using c in_nq_all by blast
    then have a: "nq_U s a = Some a" using v by (auto simp: nq_valid_def nt_table_def)
    then have "a \<noteq> ''''" using v by (auto simp: nq_valid_def uuid_laws_def)
    with Some u a k show ?thesis
      by (simp add: queryNotifications_def listNotificationsSQL_def listNotificationsAfterSQL_def nq_below_def nq_all_def filter_sort_desc conj_commute split: option.split)
  qed
qed

lemma nq_page_eq:
  assumes v: "nq_valid s" and c: "\<And>x. c = Some x \<Longrightarrow> x \<in> nt_ID ` set (nq_all s)"
  shows "nq_page s c = (let rest = (case c of None \<Rightarrow> nq_all s | Some a \<Rightarrow> nq_below s a) in
    if length rest > nq_lim s then (take (nq_lim s) rest, Some (nt_ID (last (take (nq_lim s) rest)))) else (rest, None))"
proof -
  let ?rest = "case c of None \<Rightarrow> nq_all s | Some a \<Rightarrow> nq_below s a"
  from v obtain lim where L: "parseNotificationLimit (nq_limit s) = Some lim" by (auto simp: nq_valid_def)
  note lim = limit_range [OF L]
  have ne: "nq_user s \<noteq> ''''" using v by (auto simp: nq_valid_def uuid_laws_def)
  then obtain cl where cl: "ctx_claims (req_ctx (nq_req s)) = Some cl" "Sub cl = nq_user s"
    by (auto simp: nq_user_def split: option.splits)
  have cur: "parseNotificationCursor (nq_parse s) (case c of None \<Rightarrow> '''' | Some a \<Rightarrow> a)
      = Some (case c of None \<Rightarrow> '''' | Some a \<Rightarrow> a)"
  proof (cases c)
    case (Some a)
    then obtain n where "n \<in> set (nq_db s)" "a = nt_ID n" using c in_nq_all by blast
    then have "nq_U s a = Some a" using v by (auto simp: nq_valid_def nt_table_def)
    with v have "nq_parse s a" unfolding nq_valid_def by blast
    with Some show ?thesis by (simp add: parseNotificationCursor_def)
  qed (simp add: parseNotificationCursor_def)
  have "0 \<le> i64 (lim + 1)" using lim by (simp add: i64_id in_i64_def)
  from ListByUser_page [OF nq_query [OF v c this]] lim
  have P: "ListByUser (nq_U s) True (nq_user s) (case c of None \<Rightarrow> '''' | Some a \<Rightarrow> a) lim (nq_db s)
    = Some (if length ?rest > nat lim then (take (nat lim) ?rest, nt_ID (last (take (nat lim) ?rest))) else (?rest, ''''))"
    by simp
  have id: "nt_ID (last (take (nat lim) ?rest)) \<noteq> ''''" if "length ?rest > nat lim"
  proof -
    from that lim have "take (nat lim) ?rest \<noteq> []" by auto
    then have "last (take (nat lim) ?rest) \<in> set ?rest" by (metis in_set_takeD last_in_set)
    moreover have "set ?rest \<subseteq> set (nq_db s)"
      by (auto simp: nq_all_def nq_below_def split: option.splits)
    ultimately have "nq_U s (nt_ID (last (take (nat lim) ?rest))) \<noteq> None"
      using v by (auto simp: nq_valid_def nt_table_def)
    then show ?thesis using v by (auto simp: nq_valid_def uuid_laws_def)
  qed
  show ?thesis
  proof (cases "length ?rest > nat lim")
    case True
    with P id [OF True] cur cl ne L show ?thesis
      by (simp add: nq_page_def HandleList_def ClaimsFromContext_def nullableCursor_def nq_lim_def Let_def)
  next
    case False
    with P cur cl ne L show ?thesis
      by (simp add: nq_page_def HandleList_def ClaimsFromContext_def nullableCursor_def nq_lim_def Let_def)
  qed
qed

interpretation nt_listing: keyset_listing nq_valid created_id nq_all nt_ID nq_lim nq_page nq_below
proof unfold_locales
  fix s :: nt_query assume v: "nq_valid s"
  then have d: "distinct (map nt_ID (nq_db s))" by (simp add: nq_valid_def nt_table_def)
  show "sorted_wrt (\<lambda>x y. created_id y < created_id x) (nq_all s)"
    unfolding nq_all_def
  proof (rule sort_desc_descending)
    show "inj_on created_id (set (filter (\<lambda>n. nt_UserID n = the (nq_U s (nq_user s))) (nq_db s)))"
      by (rule inj_onI) (use distinct_map_unique [OF d] in \<open>auto simp: created_id_def\<close>)
  qed (use d in \<open>simp add: distinct_map\<close>)
  show "1 \<le> nq_lim s" using v limit_range [of "nq_limit s"] by (auto simp: nq_valid_def nq_lim_def)
  show "nq_below s (nt_ID z) = filter (\<lambda>r. created_id r < created_id z) (nq_all s)" if "z \<in> set (nq_all s)" for z
    by (rule nq_below_cursor [OF v that])
  show "nq_page s c = (let rest = (case c of None \<Rightarrow> nq_all s | Some c \<Rightarrow> nq_below s c) in
      if nq_lim s < length rest
      then (take (nq_lim s) rest, Some (nt_ID (last (take (nq_lim s) rest)))) else (rest, None))"
    if "\<And>x. c = Some x \<Longrightarrow> x \<in> nt_ID ` set (nq_all s)" for c
    by (rule nq_page_eq [OF v that])
qed

text \<open>C23: pagination of \<open>GET /notifications\<close> is complete: following \<open>next_cursor\<close> from the first page
  lists every notification of the authenticated user exactly once and nobody else's, newest first,
  in pages of at most the parsed limit (1 to 100), and stops.\<close>

theorem notification_pages_complete:
  assumes "nq_valid s"
  shows "concat (walk (nq_page s) (Suc (length (nq_db s))) None) = nq_all s
    \<and> distinct (nq_all s) \<and> sorted_wrt (\<lambda>x y. created_id y < created_id x) (nq_all s)
    \<and> set (nq_all s) = {n \<in> set (nq_db s). nt_UserID n = the (nq_U s (nq_user s))}
    \<and> (\<forall>p \<in> set (walk (nq_page s) (Suc (length (nq_db s))) None). length p \<le> nq_lim s) \<and> nq_lim s \<le> 100"
proof -
  have "length (nq_all s) \<le> Suc (length (nq_db s))" by (simp add: nq_all_def le_SucI)
  from nt_listing.walk_all [OF assms this] nt_listing.descending [OF assms]
  have "concat (walk (nq_page s) (Suc (length (nq_db s))) None) = nq_all s"
    "\<forall>p \<in> set (walk (nq_page s) (Suc (length (nq_db s))) None). length p \<le> nq_lim s"
    "sorted_wrt (\<lambda>x y. created_id y < created_id x) (nq_all s)" by simp_all
  moreover have "distinct (nq_all s)" using assms by (simp add: nq_all_def nq_valid_def nt_table_def distinct_map)
  moreover have "set (nq_all s) = {n \<in> set (nq_db s). nt_UserID n = the (nq_U s (nq_user s))}"
    by (auto simp: nq_all_def)
  moreover have "nq_lim s \<le> 100" using assms limit_range [of "nq_limit s"] by (auto simp: nq_valid_def nq_lim_def)
  ultimately show ?thesis by blast
qed

definition demo_notification :: "string \<Rightarrow> time \<Rightarrow> Notification" where
  "demo_notification i t = \<lparr>nt_ID = i, nt_UserID = ''u'', nt_EventType = ''url.created'', nt_Payload = JNull,
     nt_Status = ''sent'', nt_CreatedAt = t, nt_SentAt = Some t\<rparr>"

definition demo_nt_query :: nt_query where
  "demo_nt_query = \<lparr>nq_U = demo_uuids, nq_parse = (\<lambda>_. True),
     nq_req = \<lparr>req_method = ''GET'', req_path = ''/notifications'', req_scheme = '''', req_headers = [],
       req_remoteAddr = '''', req_ctx = background\<lparr>ctx_claims :=
         Some \<lparr>Sub = ''u'', Email = '''', Iss = '''', Iat = 0, Exp = 0\<rparr>\<rparr>\<rparr>,
     nq_limit = ''2'', nq_db = [demo_notification ''b'' 5, demo_notification ''c'' 7, demo_notification ''a'' 7]\<rparr>"

theorem notification_pages_complete_witness:
  "map nt_ID (concat (walk (nq_page demo_nt_query) 4 None)) = [''c'', ''a'', ''b'']"
proof -
  have "parseNotificationLimit ''2'' \<noteq> None" by code_simp
  then have "nq_valid demo_nt_query" using demo_uuid_laws
    by (auto simp: nq_valid_def demo_nt_query_def nt_table_def demo_notification_def nq_user_def demo_uuids_def)
  moreover have "map nt_ID (nq_all demo_nt_query) = [''c'', ''a'', ''b'']" by code_simp
  ultimately show ?thesis
    using notification_pages_complete [of demo_nt_query] by (simp add: demo_nt_query_def eval_nat_numeral)
qed

end
