(* ===== verification/Analytics.thy ===== *)
theory Analytics
  imports Keyset Events Http Delivery
begin

text \<open>
  analytics-service: the consumer of click events (\<open>consumer.go\<close>), milestones
  (\<open>milestone.go\<close>, \<open>publisher.go\<close>), the stores (\<open>store.go\<close>, \<open>migrations.sql\<close>) and the
  statistics endpoints (\<open>handler.go\<close>).

  Each call into the database or the broker has an outcome that the environment chooses
  (\<open>Delivery\<close>). A delivery runs in one transaction; the consumer answers the broker with an
  acknowledgement or a request to requeue.
\<close>

section \<open>Tables\<close>

record click_row =
  cr_ShortCode :: string
  cr_ClickedAt :: time
  cr_IPHash :: string
  cr_UserAgent :: string
  cr_Referer :: "string option"

record anadb =
  clicks :: "click_row list"
  milestones :: "(string \<times> int) list"
  processed_events :: "string list"

definition empty_anadb :: anadb where
  "empty_anadb = \<lparr>clicks = [], milestones = [], processed_events = []\<rparr>"

definition nullString :: "string \<Rightarrow> string option" where
  "nullString value = (if value = '''' then None else Some value)"

definition clickRecordFromEvent :: "URLClickedEvent \<Rightarrow> click_row" where
  "clickRecordFromEvent evt =
     \<lparr>cr_ShortCode = ck_ShortCode evt, cr_ClickedAt = timestamptz (ck_ClickedAt evt), cr_IPHash = ck_IPHash evt,
      cr_UserAgent = ck_UserAgent evt, cr_Referer = nullString (ck_Referer evt)\<rparr>"

definition insert_click :: "click_row \<Rightarrow> anadb \<Rightarrow> anadb" where
  "insert_click c db = db\<lparr>clicks := clicks db @ [c]\<rparr>"

text \<open>\<open>ON CONFLICT DO NOTHING\<close>: a row that exists is left alone, without an error.\<close>

definition insert_processed :: "string \<Rightarrow> anadb \<Rightarrow> anadb" where
  "insert_processed i db =
     (if i \<in> set (processed_events db) then db else db\<lparr>processed_events := processed_events db @ [i]\<rparr>)"

definition insert_milestone :: "string \<Rightarrow> int \<Rightarrow> anadb \<Rightarrow> anadb" where
  "insert_milestone code m db =
     (if (code, m) \<in> set (milestones db) then db else db\<lparr>milestones := milestones db @ [(code, m)]\<rparr>)"

definition CountByCode :: "string \<Rightarrow> anadb \<Rightarrow> int" where
  "CountByCode code db = int (length (filter (\<lambda>c. cr_ShortCode c = code) (clicks db)))"

section \<open>Milestones\<close>

definition MilestoneThresholds :: "int list" where
  "MilestoneThresholds = [10, 100, 1000]"

record milestone_env =
  me_has :: outcome
  me_insert :: outcome
  me_publish :: outcome
  me_eventID :: string
  me_time :: time

definition newMilestoneReachedEvent :: "milestone_env \<Rightarrow> string \<Rightarrow> string \<Rightarrow> string \<Rightarrow> string \<Rightarrow> int \<Rightarrow> int
    \<Rightarrow> MilestoneReachedEvent" where
  "newMilestoneReachedEvent e shortCode userID userEmail corrID threshold totalClicks =
     BaseEvent.extend (NewBaseEvent (me_time e) (me_eventID e) EventTypeMilestoneReached corrID)
       (MilestoneReachedEvent.fields shortCode userID userEmail threshold totalClicks)"

definition HasMilestone :: "string \<Rightarrow> int \<Rightarrow> anadb \<Rightarrow> bool" where
  [simp]: "HasMilestone shortCode milestone db \<longleftrightarrow> (shortCode, milestone) \<in> set (milestones db)"

text \<open>\<open>PublishMilestone\<close> sends the event's JSON; the log of what the broker accepted is \<open>sent\<close>.
  An error is only logged.\<close>

definition publishIfNewMilestone :: "milestone_env \<Rightarrow> string \<Rightarrow> string \<Rightarrow> string \<Rightarrow> string \<Rightarrow> int \<Rightarrow> int
    \<Rightarrow> anadb \<Rightarrow> MilestoneReachedEvent list \<Rightarrow> anadb ending \<times> MilestoneReachedEvent list" where
  "publishIfNewMilestone e shortCode userID userEmail corrID threshold totalClicks db sent =
     (case me_has e of
        Fails \<Rightarrow> (Errored, sent)
      | Panics \<Rightarrow> (Panicked, sent)
      | Works \<Rightarrow>
          if HasMilestone shortCode threshold db then (Done db, sent)
          else (case me_insert e of
                  Fails \<Rightarrow> (Errored, sent)
                | Panics \<Rightarrow> (Panicked, sent)
                | Works \<Rightarrow>
                    let db = insert_milestone shortCode threshold db;
                        evt = newMilestoneReachedEvent e shortCode userID userEmail corrID threshold totalClicks
                    in (case me_publish e of
                          Works \<Rightarrow> (Done db, sent @ [evt])
                        | Fails \<Rightarrow> (Done db, sent)
                        | Panics \<Rightarrow> (Panicked, sent))))"

fun check_loop :: "(int \<Rightarrow> milestone_env) \<Rightarrow> string \<Rightarrow> string \<Rightarrow> string \<Rightarrow> string \<Rightarrow> int \<Rightarrow> int list
    \<Rightarrow> anadb \<Rightarrow> MilestoneReachedEvent list \<Rightarrow> anadb ending \<times> MilestoneReachedEvent list" where
  "check_loop me shortCode userID userEmail corrID totalClicks [] db sent = (Done db, sent)"
| "check_loop me shortCode userID userEmail corrID totalClicks (threshold # ts) db sent =
     (if totalClicks < threshold then check_loop me shortCode userID userEmail corrID totalClicks ts db sent
      else (case publishIfNewMilestone (me threshold) shortCode userID userEmail corrID threshold totalClicks db sent of
              (Done db, sent) \<Rightarrow> check_loop me shortCode userID userEmail corrID totalClicks ts db sent
            | (Errored, sent) \<Rightarrow> (Errored, sent)
            | (Panicked, sent) \<Rightarrow> (Panicked, sent)))"

definition CheckAndPublish :: "outcome \<Rightarrow> (int \<Rightarrow> milestone_env) \<Rightarrow> string \<Rightarrow> string \<Rightarrow> string \<Rightarrow> string
    \<Rightarrow> anadb \<Rightarrow> MilestoneReachedEvent list \<Rightarrow> anadb ending \<times> MilestoneReachedEvent list" where
  "CheckAndPublish count me shortCode userID userEmail corrID db sent =
     (case count of
        Fails \<Rightarrow> (Errored, sent)
      | Panics \<Rightarrow> (Panicked, sent)
      | Works \<Rightarrow> check_loop me shortCode userID userEmail corrID (CountByCode shortCode db)
                  MilestoneThresholds db sent)"

section \<open>One delivery\<close>

record delivery_env =
  dl_begin :: outcome
  dl_exists :: outcome
  dl_dedup :: outcome
  dl_click :: outcome
  dl_count :: outcome
  dl_milestone :: "int \<Rightarrow> milestone_env"
  dl_commit :: commit_outcome

definition Exists :: "string \<Rightarrow> anadb \<Rightarrow> bool" where
  [simp]: "Exists eventID db \<longleftrightarrow> eventID \<in> set (processed_events db)"

definition parseDelivery :: "json option \<Rightarrow> URLClickedEvent option" where
  "parseDelivery body =
     (case Unmarshal URLClicked_fields zero_URLClicked body of
        None \<Rightarrow> None
      | Some evt \<Rightarrow> if be_EventID evt = '''' \<or> ck_ShortCode evt = '''' then None else Some evt)"

text \<open>
  The transaction's body up to the commit. Its first query sees the committed tables of that
  moment, \<open>seen\<close>; the writes apply to the tables \<open>db\<close> as they are once the insert into
  \<open>processed_events\<close> has got its row lock. With one consumer the two are the same.
\<close>

definition click_tx :: "delivery_env \<Rightarrow> URLClickedEvent \<Rightarrow> anadb \<Rightarrow> anadb \<Rightarrow> MilestoneReachedEvent list
    \<Rightarrow> anadb option ending \<times> MilestoneReachedEvent list" where
  "click_tx e evt seen db sent =
     (case dl_exists e of
        Fails \<Rightarrow> (Errored, sent)
      | Panics \<Rightarrow> (Panicked, sent)
      | Works \<Rightarrow>
          if Exists (be_EventID evt) seen then (Done None, sent)
          else (case dl_dedup e of
                  Fails \<Rightarrow> (Errored, sent)
                | Panics \<Rightarrow> (Panicked, sent)
                | Works \<Rightarrow>
                   (case dl_click e of
                      Fails \<Rightarrow> (Errored, sent)
                    | Panics \<Rightarrow> (Panicked, sent)
                    | Works \<Rightarrow>
                        let db = insert_click (clickRecordFromEvent evt) (insert_processed (be_EventID evt) db)
                        in (case CheckAndPublish (dl_count e) (dl_milestone e) (ck_ShortCode evt) (ck_UserID evt)
                                  (ck_UserEmail evt) (be_CorrelationID evt) db sent of
                              (Done db, sent) \<Rightarrow> (Done (Some db), sent)
                            | (Errored, sent) \<Rightarrow> (Errored, sent)
                            | (Panicked, sent) \<Rightarrow> (Panicked, sent)))))"

text \<open>\<open>processDelivery\<close>, the deferred rollback and the recovery from panics included: the reply,
  the tables, the messages sent.\<close>

definition processDelivery :: "delivery_env \<Rightarrow> json option \<Rightarrow> anadb \<Rightarrow> anadb \<Rightarrow> MilestoneReachedEvent list
    \<Rightarrow> reply \<times> anadb \<times> MilestoneReachedEvent list" where
  "processDelivery e body seen db sent =
     (case parseDelivery body of
        None \<Rightarrow> (Ack, db, sent)
      | Some evt \<Rightarrow>
         (case dl_begin e of
            Fails \<Rightarrow> (NackRequeue, db, sent)
          | Panics \<Rightarrow> (Ack, db, sent)
          | Works \<Rightarrow>
             (case click_tx e evt seen db sent of
                (Errored, sent) \<Rightarrow> (NackRequeue, db, sent)
              | (Panicked, sent) \<Rightarrow> (Ack, db, sent)
              | (Done None, sent) \<Rightarrow> (Ack, db, sent)
              | (Done (Some db'), sent) \<Rightarrow>
                 (case dl_commit e of
                    Committed \<Rightarrow> (Ack, db', sent)
                  | CommitFailed \<Rightarrow> (NackRequeue, db, sent)
                  | CommitLost \<Rightarrow> (NackRequeue, db', sent)
                  | CommitPanics \<Rightarrow> (Ack, db, sent)))))"

section \<open>Statistics\<close>

definition CountByCodeSince :: "string \<Rightarrow> time \<Rightarrow> anadb \<Rightarrow> int" where
  "CountByCodeSince code since db =
     int (length (filter (\<lambda>c. cr_ShortCode c = code \<and> cr_ClickedAt c \<ge> timestamptz since) (clicks db)))"

definition referers :: "string \<Rightarrow> anadb \<Rightarrow> string list" where
  "referers code db = List.map_filter cr_Referer (filter (\<lambda>c. cr_ShortCode c = code) (clicks db))"

text \<open>Groups in descending order of their count; the order of equal counts is open in SQL.\<close>

definition TopReferers :: "string \<Rightarrow> nat \<Rightarrow> anadb \<Rightarrow> (string \<times> int) list" where
  "TopReferers code n db =
     (let rs = referers code db
      in take n (sort_desc snd (map (\<lambda>r. (r, int (count_list rs r))) (remdups rs))))"

definition date_trunc :: "string \<Rightarrow> time \<Rightarrow> time" where
  "date_trunc u t = (let w = (if u = ''day'' then 24 * hour else hour) in t - t mod w)"

definition TimeLineBuckets :: "string \<Rightarrow> string \<Rightarrow> anadb \<Rightarrow> (string \<times> int) list" where
  "TimeLineBuckets code truncUnit db =
     (let ps = map (\<lambda>c. date_trunc truncUnit (cr_ClickedAt c)) (filter (\<lambda>c. cr_ShortCode c = code) (clicks db))
      in map (\<lambda>p. (rfc3339 p, int (count_list ps p))) (sort (remdups ps)))"

text \<open>The two calls row by row. \<open>TopReferers\<close> and \<open>TimeLineBuckets\<close> are what they return when nothing fails; the queries'
  rows are those lists, a period being an instant still.\<close>

definition scanRefererCounts :: "rows_env \<Rightarrow> (string \<times> int) list \<Rightarrow> (string \<times> int) list option" where
  "scanRefererCounts e rows = scan_rows e (\<lambda>(referer, count). (referer, count)) 0 rows"

definition scanTimeLinePoints :: "rows_env \<Rightarrow> (time \<times> int) list \<Rightarrow> (string \<times> int) list option" where
  "scanTimeLinePoints e rows = scan_rows e (\<lambda>(period, clicks). (rfc3339 period, clicks)) 0 rows"

definition timelineBucketsSQL :: "string \<Rightarrow> string \<Rightarrow> anadb \<Rightarrow> (time \<times> int) list" where
  "timelineBucketsSQL truncUnit code db =
     (let ps = map (\<lambda>c. date_trunc truncUnit (cr_ClickedAt c)) (filter (\<lambda>c. cr_ShortCode c = code) (clicks db))
      in map (\<lambda>p. (p, int (count_list ps p))) (sort (remdups ps)))"

definition call_TopReferers :: "rows_env \<Rightarrow> string \<Rightarrow> nat \<Rightarrow> anadb \<Rightarrow> (string \<times> int) list option" where
  "call_TopReferers e code n db = (if re_query e then scanRefererCounts e (TopReferers code n db) else None)"

definition call_TimeLineBuckets :: "rows_env \<Rightarrow> string \<Rightarrow> string \<Rightarrow> anadb \<Rightarrow> (string \<times> int) list option" where
  "call_TimeLineBuckets e code truncUnit db =
     (if re_query e then scanTimeLinePoints e (timelineBucketsSQL truncUnit code db) else None)"

text \<open>No failure gives a partial list: a call returns all of it or an error, which is the handlers' \<open>ok\<close>.\<close>

lemma calls_all_or_nothing:
  "call_TopReferers e code n db = (if rows_ok e (length (TopReferers code n db)) then Some (TopReferers code n db) else None)"
  "call_TimeLineBuckets e code u db
     = (if rows_ok e (length (TimeLineBuckets code u db)) then Some (TimeLineBuckets code u db) else None)"
  by (auto simp: call_TopReferers_def call_TimeLineBuckets_def scanRefererCounts_def scanTimeLinePoints_def timelineBucketsSQL_def
      TimeLineBuckets_def scan_rows_outcome rows_ok_def Let_def comp_def)

record statsResponse =
  st_ShortCode :: string
  st_TotalClicks :: int
  st_ClicksLast24h :: int
  st_ClicksLast7d :: int
  st_TopReferers :: "(string \<times> int) list"

record timeLineResponse =
  tl_ShortCode :: string
  tl_Interval :: string
  tl_Points :: "(string \<times> int) list"

datatype stats_payload = PStats statsResponse | PTimeLine timeLineResponse

definition statsTopReferersLimit :: nat where "statsTopReferersLimit = 5"
definition oneDay :: duration where "oneDay = 24 * hour"

text \<open>The four queries run concurrently, so each has its own view of the tables and may fail on
  its own; the group fails if any does.\<close>

definition loadStats :: "(nat \<Rightarrow> bool) \<Rightarrow> (nat \<Rightarrow> anadb) \<Rightarrow> time \<Rightarrow> string \<Rightarrow> statsResponse option" where
  "loadStats ok db now shortCode =
     (if ok 0 \<and> ok 1 \<and> ok 2 \<and> ok 3 then
        Some \<lparr>st_ShortCode = shortCode, st_TotalClicks = CountByCode shortCode (db 0),
              st_ClicksLast24h = CountByCodeSince shortCode (now - oneDay) (db 1),
              st_ClicksLast7d = CountByCodeSince shortCode (now - 7 * oneDay) (db 2),
              st_TopReferers = TopReferers shortCode statsTopReferersLimit (db 3)\<rparr>
      else None)"

definition Stats :: "(nat \<Rightarrow> bool) \<Rightarrow> (nat \<Rightarrow> anadb) \<Rightarrow> time \<Rightarrow> string \<Rightarrow> stats_payload response" where
  "Stats ok db now shortCode =
     (if shortCode = '''' then error_response 400 ''short_code is required''
      else (case loadStats ok db now shortCode of
              None \<Rightarrow> error_response 500 ''failed to load stats''
            | Some stats \<Rightarrow> json_response 200 (PStats stats)))"

definition isValidTimeLineInterval :: "string \<Rightarrow> bool" where
  "isValidTimeLineInterval interval \<longleftrightarrow> interval = ''day'' \<or> interval = ''hour''"

definition TimeLine :: "bool \<Rightarrow> string \<Rightarrow> string \<Rightarrow> anadb \<Rightarrow> stats_payload response" where
  "TimeLine ok shortCode interval db =
     (if shortCode = '''' then error_response 400 ''short_code is required''
      else if \<not> isValidTimeLineInterval interval then error_response 400 ''interval must be day or hour''
      else if \<not> ok then error_response 500 ''failed to load timeline''
      else json_response 200 (PTimeLine \<lparr>tl_ShortCode = shortCode, tl_Interval = interval,
             tl_Points = TimeLineBuckets shortCode interval db\<rparr>))"

text \<open>The mux of \<open>main.go\<close>; \<open>ops\<close> is the reply to every request that the two routes do not take: health,
  metrics, the mux's 404 and 405.\<close>

definition analytics_serve :: "(http_request \<Rightarrow> stats_payload response) \<Rightarrow> (nat \<Rightarrow> bool) \<Rightarrow> (nat \<Rightarrow> anadb) \<Rightarrow> bool \<Rightarrow> anadb
    \<Rightarrow> time \<Rightarrow> http_request \<Rightarrow> string \<Rightarrow> stats_payload response" where
  "analytics_serve ops stats_ok stats_db line_ok line_db now r interval =
     (if req_method r \<in> {''GET'', ''HEAD''} then
        (case path_segments (req_path r) of
           [a, code] \<Rightarrow> if a = ''stats'' \<and> code \<noteq> '''' then Stats stats_ok stats_db now code else ops r
         | [a, code, b] \<Rightarrow> if a = ''stats'' \<and> code \<noteq> '''' \<and> b = ''timeline'' then TimeLine line_ok code interval line_db else ops r
         | _ \<Rightarrow> ops r)
      else ops r)"

end
