(* ===== verification/AnalyticsProps.thy ===== *)
theory AnalyticsProps
  imports Analytics "HOL-Library.Multiset"
begin

text \<open>
  Properties of analytics-service: each click event is counted once however often it is delivered,
  the milestone rows agree with the counts, two behaviours under concurrency and broker failures,
  and the statistics.
\<close>

section \<open>The milestone loop\<close>

lemma check_loop_Done:
  assumes "check_loop me code uid email corr tot ts db sent = (Done db', sent')"
  shows "clicks db' = clicks db \<and> processed_events db' = processed_events db
    \<and> set (milestones db') = set (milestones db) \<union> (\<lambda>t. (code, t)) ` {t \<in> set ts. t \<le> tot}"
  using assms
proof (induction ts arbitrary: db sent)
  case (Cons t ts)
  show ?case
  proof (cases "tot < t")
    case True
    with Cons show ?thesis by auto
  next
    case False
    with Cons.prems obtain db1 s1 where
      p: "publishIfNewMilestone (me t) code uid email corr t tot db sent = (Done db1, s1)"
      and l: "check_loop me code uid email corr tot ts db1 s1 = (Done db', sent')"
      by (auto split: prod.splits ending.splits)
    from p have "clicks db1 = clicks db \<and> processed_events db1 = processed_events db
        \<and> set (milestones db1) = insert (code, t) (set (milestones db))"
      by (auto simp: publishIfNewMilestone_def insert_milestone_def Let_def split: outcome.splits if_splits)
    with Cons.IH [OF l] False show ?thesis by auto
  qed
qed simp

lemma count_insert_processed [simp]: "CountByCode code (insert_processed i db) = CountByCode code db"
  by (simp add: CountByCode_def insert_processed_def)

lemma count_insert_click [simp]:
  "CountByCode code (insert_click c db) = CountByCode code db + (if cr_ShortCode c = code then 1 else 0)"
  by (simp add: CountByCode_def insert_click_def)

lemma CheckAndPublish_Done:
  assumes "CheckAndPublish cnt me code uid email corr db sent = (Done db', sent')"
  shows "clicks db' = clicks db \<and> processed_events db' = processed_events db
    \<and> set (milestones db') = set (milestones db) \<union>
        (\<lambda>t. (code, t)) ` {t \<in> set MilestoneThresholds. t \<le> CountByCode code db}"
  using assms check_loop_Done by (auto simp: CheckAndPublish_def split: outcome.splits)

text \<open>What a committed transaction does.\<close>

lemma click_tx_Done:
  assumes "click_tx e evt seen db sent = (Done (Some db'), sent')"
  shows "be_EventID evt \<notin> set (processed_events seen)
    \<and> clicks db' = clicks db @ [clickRecordFromEvent evt]
    \<and> processed_events db' = processed_events (insert_processed (be_EventID evt) db)
    \<and> set (milestones db') = set (milestones db) \<union>
        (\<lambda>t. (ck_ShortCode evt, t)) ` {t \<in> set MilestoneThresholds. t \<le> CountByCode (ck_ShortCode evt) db + 1}"
proof -
  let ?db = "insert_click (clickRecordFromEvent evt) (insert_processed (be_EventID evt) db)"
  from assms have c: "CheckAndPublish (dl_count e) (dl_milestone e) (ck_ShortCode evt) (ck_UserID evt)
      (ck_UserEmail evt) (be_CorrelationID evt) ?db sent = (Done db', sent')"
    and n: "be_EventID evt \<notin> set (processed_events seen)"
    by (auto simp: click_tx_def Let_def split: if_splits call_splits)
  have "CountByCode (ck_ShortCode evt) ?db = CountByCode (ck_ShortCode evt) db + 1"
    by (simp add: clickRecordFromEvent_def)
  moreover have "clicks ?db = clicks db @ [clickRecordFromEvent evt]" "milestones ?db = milestones db"
    "processed_events ?db = processed_events (insert_processed (be_EventID evt) db)"
    by (simp_all add: insert_click_def insert_processed_def)
  ultimately show ?thesis using CheckAndPublish_Done [OF c] n by simp
qed

text \<open>A delivery either leaves the tables alone or applies the whole transaction.\<close>

lemma processDelivery_cases:
  assumes "processDelivery e body seen db sent = (rep, db', sent')"
  obtains "db' = db"
  | evt s where "parseDelivery body = Some evt" "click_tx e evt seen db sent = (Done (Some db'), s)"
  using assms unfolding processDelivery_def
  by (auto split: option.splits call_splits)

section \<open>The consumer as a transition system\<close>

record ansys =
  an_db :: anadb
  an_sent :: "MilestoneReachedEvent list"
  an_delivered :: "json option list"

inductive an_step :: "ansys \<Rightarrow> ansys \<Rightarrow> bool" where
  an_deliver: "processDelivery e body (an_db s) (an_db s) (an_sent s) = (rep, db, sent) \<Longrightarrow>
    an_step s (s\<lparr>an_db := db, an_sent := sent, an_delivered := an_delivered s @ [body]\<rparr>)"

definition an_start :: "ansys \<Rightarrow> bool" where
  "an_start s \<longleftrightarrow> s = \<lparr>an_db = empty_anadb, an_sent = [], an_delivered = []\<rparr>"

definition counted :: "URLClickedEvent list \<Rightarrow> anadb \<Rightarrow> bool" where
  "counted evs db \<longleftrightarrow> processed_events db = map be_EventID evs \<and> clicks db = map clickRecordFromEvent evs
     \<and> distinct (map be_EventID evs)"

definition milestones_ok :: "anadb \<Rightarrow> bool" where
  "milestones_ok db \<longleftrightarrow> (\<forall>code t. (code, t) \<in> set (milestones db) \<longleftrightarrow>
     t \<in> set MilestoneThresholds \<and> t \<le> CountByCode code db)"

definition an_inv :: "ansys \<Rightarrow> bool" where
  "an_inv s \<longleftrightarrow> milestones_ok (an_db s)
     \<and> (\<exists>evs. counted evs (an_db s) \<and> (\<forall>x \<in> set evs. Some x \<in> parseDelivery ` set (an_delivered s)))"

lemma click_tx_inv:
  assumes "click_tx e evt db db sent = (Done (Some db'), s)" and "counted evs db" and "milestones_ok db"
  shows "counted (evs @ [evt]) db' \<and> milestones_ok db'"
proof
  from click_tx_Done [OF assms(1)] have n: "be_EventID evt \<notin> set (processed_events db)"
    and c: "clicks db' = clicks db @ [clickRecordFromEvent evt]"
    and p: "processed_events db' = processed_events db @ [be_EventID evt]"
    and m: "set (milestones db') = set (milestones db) \<union>
        (\<lambda>t. (ck_ShortCode evt, t)) ` {t \<in> set MilestoneThresholds. t \<le> CountByCode (ck_ShortCode evt) db + 1}"
    by (auto simp: insert_processed_def)
  show "counted (evs @ [evt]) db'" using assms(2) n c p by (simp add: counted_def)
  have cnt: "CountByCode code db' = CountByCode code db + (if code = ck_ShortCode evt then 1 else 0)" for code
    using c by (simp add: CountByCode_def clickRecordFromEvent_def)
  show "milestones_ok db'"
    unfolding milestones_ok_def
  proof (intro allI)
    fix code t
    show "(code, t) \<in> set (milestones db') \<longleftrightarrow> t \<in> set MilestoneThresholds \<and> t \<le> CountByCode code db'"
      using assms(3) by (cases "code = ck_ShortCode evt") (auto simp: m cnt milestones_ok_def)
  qed
qed

interpretation consumer: invariant_of an_start an_step an_inv
proof unfold_locales
  show "an_inv s" if "an_start s" for s
    using that by (auto simp: an_start_def an_inv_def milestones_ok_def counted_def empty_anadb_def
        CountByCode_def MilestoneThresholds_def)
  show "an_inv t" if "an_inv s" "an_step s t" for s t
    using that(2)
  proof cases
    case (an_deliver e body rep db sent)
    from that(1) obtain evs where evs: "counted evs (an_db s)" "milestones_ok (an_db s)"
      "(\<forall>x \<in> set evs. Some x \<in> parseDelivery ` set (an_delivered s))" by (auto simp: an_inv_def)
    from an_deliver(2) show ?thesis
    proof (cases rule: processDelivery_cases)
      case 1
      with an_deliver(1) evs show ?thesis by (auto simp: an_inv_def)
    next
      case (2 evt s')
      from click_tx_inv [OF 2(2) evs(1,2)] an_deliver(1) evs(3) 2(1) show ?thesis
        by (auto simp: an_inv_def intro!: exI [of _ "evs @ [evt]"])
    qed
  qed
qed

section \<open>Counting\<close>

text \<open>C8: clicks are counted at most once and milestones exactly when due: in every reachable state of
  the consumer, under redeliveries and faults of every call, the click rows and the processed ids
  are those of a list of delivered events with distinct ids, and a milestone row exists for a code
  exactly for the thresholds 10, 100 and 1000 that its click count has reached.\<close>

theorem clicks_counted_once:
  assumes "reach an_start an_step s"
  shows "(\<exists>evs. distinct (map be_EventID evs) \<and> processed_events (an_db s) = map be_EventID evs
      \<and> clicks (an_db s) = map clickRecordFromEvent evs
      \<and> (\<forall>evt \<in> set evs. \<exists>body \<in> set (an_delivered s). parseDelivery body = Some evt))
    \<and> (\<forall>code t. (code, t) \<in> set (milestones (an_db s)) \<longleftrightarrow>
         t \<in> {10, 100, 1000} \<and> t \<le> CountByCode code (an_db s))"
proof -
  from consumer.inv_reach [OF assms] obtain evs where e: "counted evs (an_db s)" "milestones_ok (an_db s)"
    "\<forall>x \<in> set evs. Some x \<in> parseDelivery ` set (an_delivered s)" by (auto simp: an_inv_def)
  from e(3) have "\<forall>evt \<in> set evs. \<exists>body \<in> set (an_delivered s). parseDelivery body = Some evt"
    by (metis imageE)
  with e(1,2) show ?thesis by (auto simp: counted_def milestones_ok_def MilestoneThresholds_def)
qed

definition good_milestone :: milestone_env where
  "good_milestone = \<lparr>me_has = Works, me_insert = Works, me_publish = Works, me_eventID = ''m'', me_time = 0\<rparr>"

definition good_delivery :: delivery_env where
  "good_delivery = \<lparr>dl_begin = Works, dl_exists = Works, dl_dedup = Works, dl_click = Works, dl_count = Works,
     dl_milestone = (\<lambda>_. good_milestone), dl_commit = Committed\<rparr>"

definition demo_click :: "string \<Rightarrow> URLClickedEvent" where
  "demo_click i = zero_URLClicked\<lparr>be_EventID := i, ck_ShortCode := ''abcdefg''\<rparr>"

lemma parse_demo_click [simp]: "i \<noteq> '''' \<Longrightarrow> parseDelivery (Some (json_URLClicked (demo_click i))) = Some (demo_click i)"
  by (simp add: parseDelivery_def URLClicked_decode) (simp add: demo_click_def)

definition demo_an :: ansys where
  "demo_an = (case processDelivery good_delivery (Some (json_URLClicked (demo_click ''1''))) empty_anadb empty_anadb [] of
     (_, db, sent) \<Rightarrow> \<lparr>an_db = db, an_sent = sent, an_delivered = [Some (json_URLClicked (demo_click ''1''))]\<rparr>)"

lemma demo_an_reach: "reach an_start an_step demo_an"
proof (rule reach_step)
  let ?s = "\<lparr>an_db = empty_anadb, an_sent = [], an_delivered = []\<rparr>"
  show "reach an_start an_step ?s" by (rule reach_start) (simp add: an_start_def)
  obtain rep db sent where P: "processDelivery good_delivery (Some (json_URLClicked (demo_click ''1''))) empty_anadb empty_anadb []
      = (rep, db, sent)" by (metis prod_cases3)
  with an_deliver [of good_delivery "Some (json_URLClicked (demo_click ''1''))" ?s rep db sent]
  show "an_step ?s demo_an" by (simp add: demo_an_def)
qed

theorem clicks_counted_once_witness:
  "length (clicks (an_db demo_an)) = 1 \<and> distinct (processed_events (an_db demo_an))"
proof -
  have "length (clicks (an_db demo_an)) = 1" by code_simp
  with clicks_counted_once [OF demo_an_reach] show ?thesis by auto
qed


definition calm :: "delivery_env \<Rightarrow> bool" where
  "calm e \<longleftrightarrow> dl_begin e \<noteq> Panics \<and> dl_exists e \<noteq> Panics \<and> dl_dedup e \<noteq> Panics \<and> dl_click e \<noteq> Panics
     \<and> dl_count e \<noteq> Panics \<and> dl_commit e \<noteq> CommitPanics
     \<and> (\<forall>t. me_has (dl_milestone e t) \<noteq> Panics \<and> me_insert (dl_milestone e t) \<noteq> Panics
          \<and> me_publish (dl_milestone e t) \<noteq> Panics)"

lemma check_loop_calm:
  assumes "\<forall>t. me_has (me t) \<noteq> Panics \<and> me_insert (me t) \<noteq> Panics \<and> me_publish (me t) \<noteq> Panics"
  shows "fst (check_loop me code uid email corr tot ts db sent) \<noteq> Panicked"
proof (induction ts arbitrary: db sent)
  case (Cons t ts)
  have "fst (publishIfNewMilestone (me t) code uid email corr t tot db sent) \<noteq> Panicked" for db sent
    using assms by (auto simp: publishIfNewMilestone_def Let_def split: outcome.splits)
  with Cons show ?case by (auto split: prod.splits ending.splits) (metis fst_conv)+
qed simp

lemma click_tx_calm: "calm e \<Longrightarrow> fst (click_tx e evt seen db sent) \<noteq> Panicked"
  using check_loop_calm [of "dl_milestone e"]
  by (auto simp: click_tx_def calm_def CheckAndPublish_def Let_def split: call_splits)
     (metis fst_conv)+

definition click_effect :: "URLClickedEvent \<Rightarrow> anadb \<Rightarrow> anadb \<Rightarrow> bool" where
  "click_effect evt db db' \<longleftrightarrow> (if be_EventID evt \<in> set (processed_events db) then db' = db
     else clicks db' = clicks db @ [clickRecordFromEvent evt]
       \<and> processed_events db' = processed_events db @ [be_EventID evt])"

lemma processDelivery_calm:
  assumes "calm e" and "parseDelivery body = Some evt"
    and "processDelivery e body db db sent = (rep, db', sent')"
  shows "(rep = Ack \<longrightarrow> click_effect evt db db') \<and> (rep = NackRequeue \<longrightarrow> db' = db \<or> click_effect evt db db')"
proof (cases "dl_begin e")
  case Works
  obtain en s where t: "click_tx e evt db db sent = (en, s)" by (cases "click_tx e evt db db sent")
  with click_tx_calm [OF assms(1), of evt db db sent] have np: "en \<noteq> Panicked" by auto
  show ?thesis
  proof (cases en)
    case (Done r)
    show ?thesis
    proof (cases r)
      case None
      with t Done have "be_EventID evt \<in> set (processed_events db)"
        by (auto simp: click_tx_def Let_def split: if_splits call_splits)
      with None Done t Works assms(2,3) show ?thesis by (auto simp: processDelivery_def click_effect_def)
    next
      case (Some d)
      from click_tx_Done [OF t [unfolded Done Some]] have "click_effect evt db d"
        by (auto simp: click_effect_def insert_processed_def)
      with Some Done t Works assms show ?thesis
        by (auto simp: processDelivery_def calm_def split: commit_outcome.splits)
    qed
  qed (use t np Works assms(2,3) in \<open>auto simp: processDelivery_def\<close>)
qed (use assms in \<open>auto simp: processDelivery_def calm_def\<close>)

lemma click_effect_trans: "click_effect evt a b \<Longrightarrow> click_effect evt b c \<Longrightarrow> click_effect evt a c"
  by (auto simp: click_effect_def split: if_splits)

text \<open>The consumer as the broker sees it, for one message.\<close>

definition click_deliver :: "json option \<Rightarrow> delivery_env \<Rightarrow> anadb \<times> MilestoneReachedEvent list
    \<Rightarrow> reply \<times> anadb \<times> MilestoneReachedEvent list" where
  "click_deliver body e = (\<lambda>(db, sent). processDelivery e body db db sent)"

definition click_eff :: "json option \<Rightarrow> nat \<Rightarrow> anadb \<times> MilestoneReachedEvent list
    \<Rightarrow> anadb \<times> MilestoneReachedEvent list \<Rightarrow> bool" where
  "click_eff body n s s' \<longleftrightarrow> (case parseDelivery body of
     None \<Rightarrow> fst s' = fst s
   | Some evt \<Rightarrow> if n = 0 then fst s' = fst s else click_effect evt (fst s) (fst s'))"

definition commit_lost :: "delivery_env \<Rightarrow> bool" where
  "commit_lost e \<longleftrightarrow> dl_commit e = CommitLost"

lemma processDelivery_not_lost:
  "dl_commit e \<noteq> CommitLost \<Longrightarrow> processDelivery e body seen db sent = (NackRequeue, db', sent') \<Longrightarrow> db' = db"
  by (auto simp: processDelivery_def split: option.splits call_splits)

interpretation click_redelivery: at_least_once "click_deliver body" calm commit_lost "click_eff body" for body
proof unfold_locales
  show "click_eff body 0 s s" for s by (simp add: click_eff_def split: option.split)
  show "click_eff body (m + n) a c" if "click_eff body m a b" "click_eff body n b c" for m n a b c
    using that by (auto simp: click_eff_def split: option.splits if_splits intro: click_effect_trans)
  show "click_eff body 1 s s'" if "calm e" "click_deliver body e s = (Ack, s')" for e s s'
  proof (cases "parseDelivery body")
    case None
    with that show ?thesis by (cases s) (auto simp: click_eff_def click_deliver_def processDelivery_def)
  next
    case (Some evt)
    with that processDelivery_calm [OF that(1) Some, of "fst s" "snd s" Ack "fst s'" "snd s'"] show ?thesis
      by (cases s) (auto simp: click_eff_def click_deliver_def)
  qed
  show "click_eff body (if commit_lost e then 1 else 0) s s' \<or> click_eff body 0 s s'"
    if "calm e" "click_deliver body e s = (NackRequeue, s')" for e s s'
  proof (cases "commit_lost e")
    case False
    with that(2) processDelivery_not_lost [of e body "fst s" "fst s" "snd s" "fst s'" "snd s'"] show ?thesis
      by (cases s) (auto simp: click_eff_def click_deliver_def commit_lost_def split: option.split)
  next
    case True
    show ?thesis
    proof (cases "parseDelivery body")
      case None
      with that(2) show ?thesis by (cases s) (auto simp: click_deliver_def processDelivery_def)
    next
      case (Some evt)
      with that processDelivery_calm [OF that(1) Some, of "fst s" "snd s" NackRequeue "fst s'" "snd s'"] True
      show ?thesis by (cases s) (auto simp: click_eff_def click_deliver_def)
    qed
  qed
qed



section \<open>Concurrency and lost messages\<close>

text \<open>An environment in which every call works.\<close>

definition all_works :: "delivery_env \<Rightarrow> bool" where
  "all_works e \<longleftrightarrow> dl_begin e = Works \<and> dl_exists e = Works \<and> dl_dedup e = Works \<and> dl_click e = Works
     \<and> dl_count e = Works \<and> dl_commit e = Committed
     \<and> (\<forall>t. me_has (dl_milestone e t) = Works \<and> me_insert (dl_milestone e t) = Works
          \<and> me_publish (dl_milestone e t) = Works)"

lemma check_loop_works:
  assumes "\<forall>t. me_has (me t) = Works \<and> me_insert (me t) = Works \<and> me_publish (me t) \<noteq> Panics"
  shows "\<exists>db'. fst (check_loop me code uid email corr tot ts db sent) = Done db'"
proof (induction ts arbitrary: db sent)
  case (Cons t ts)
  have "\<exists>db1 s1. publishIfNewMilestone (me t) code uid email corr t tot db sent = (Done db1, s1)"
    using assms by (cases "me_publish (me t)") (auto simp: publishIfNewMilestone_def Let_def)
  with Cons show ?case by auto
qed simp

lemma click_tx_works:
  assumes "all_works e" and "be_EventID evt \<notin> set (processed_events seen)"
  obtains db' where "click_tx e evt seen db sent = (Done (Some db'), snd (check_loop (dl_milestone e) (ck_ShortCode evt)
      (ck_UserID evt) (ck_UserEmail evt) (be_CorrelationID evt) (CountByCode (ck_ShortCode evt) db + 1) MilestoneThresholds
      (insert_click (clickRecordFromEvent evt) (insert_processed (be_EventID evt) db)) sent))"
proof -
  let ?db = "insert_click (clickRecordFromEvent evt) (insert_processed (be_EventID evt) db)"
  let ?l = "check_loop (dl_milestone e) (ck_ShortCode evt) (ck_UserID evt) (ck_UserEmail evt) (be_CorrelationID evt)
      (CountByCode (ck_ShortCode evt) db + 1) MilestoneThresholds ?db sent"
  from assms(1) obtain db' where "fst ?l = Done db'"
    using check_loop_works [of "dl_milestone e"] by (fastforce simp: all_works_def)
  then have l: "?l = (Done db', snd ?l)" by (metis prod.collapse)
  have "CountByCode (ck_ShortCode evt) ?db = CountByCode (ck_ShortCode evt) db + 1"
    by (simp add: clickRecordFromEvent_def)
  then have "CheckAndPublish (dl_count e) (dl_milestone e) (ck_ShortCode evt) (ck_UserID evt) (ck_UserEmail evt)
      (be_CorrelationID evt) ?db sent = (Done db', snd ?l)"
    using assms(1) l by (simp add: CheckAndPublish_def all_works_def)
  then have "click_tx e evt seen db sent = (Done (Some db'), snd ?l)"
    using assms by (simp add: click_tx_def all_works_def Let_def)
  then show thesis by (rule that)
qed

lemma processDelivery_works:
  assumes "all_works e" and "parseDelivery body = Some evt" and "be_EventID evt \<notin> set (processed_events seen)"
  shows "\<exists>db' sent'. processDelivery e body seen db sent = (Ack, db', sent')
    \<and> clicks db' = clicks db @ [clickRecordFromEvent evt]
    \<and> processed_events db' = processed_events (insert_processed (be_EventID evt) db)"
proof -
  obtain db' s where t: "click_tx e evt seen db sent = (Done (Some db'), s)"
    by (rule click_tx_works [OF assms(1,3)])
  with click_tx_Done [OF t] assms show ?thesis by (simp add: processDelivery_def all_works_def)
qed

text \<open>C34: two consumers count a duplicate twice: when two transactions check the same event before
  either commits, the second insert into \<open>processed_events\<close> does nothing, silently, because its row
  count is not looked at, and its click is added all the same; both are acknowledged.\<close>

theorem concurrent_duplicate_counted_twice:
  assumes "all_works e1" and "all_works e2" and "parseDelivery body = Some evt"
    and "be_EventID evt \<notin> set (processed_events db)"
    and "processDelivery e1 body db db sent = (r1, db1, sent1)"
    and "processDelivery e2 body db db1 sent1 = (r2, db2, sent2)"
  shows "r1 = Ack \<and> r2 = Ack \<and> processed_events db2 = processed_events db @ [be_EventID evt]
    \<and> CountByCode (ck_ShortCode evt) db2 = CountByCode (ck_ShortCode evt) db + 2"
  using processDelivery_works [OF assms(1,3,4), of db sent] processDelivery_works [OF assms(2,3,4), of db1 sent1]
    assms(4-6)
  by (auto simp: insert_processed_def CountByCode_def clickRecordFromEvent_def)

theorem concurrent_duplicate_counted_twice_witness:
  "let body = Some (json_URLClicked (demo_click ''1''));
       (_, db1, s1) = processDelivery good_delivery body empty_anadb empty_anadb [];
       (_, db2, _) = processDelivery good_delivery body empty_anadb db1 s1
   in processed_events db2 = [''1''] \<and> CountByCode ''abcdefg'' db2 = 2"
proof -
  let ?b = "Some (json_URLClicked (demo_click ''1''))"
  obtain r1 db1 s1 where 1: "processDelivery good_delivery ?b empty_anadb empty_anadb [] = (r1, db1, s1)"
    by (metis prod_cases3)
  obtain r2 db2 s2 where 2: "processDelivery good_delivery ?b empty_anadb db1 s1 = (r2, db2, s2)"
    by (metis prod_cases3)
  have w: "all_works good_delivery" by (simp add: all_works_def good_delivery_def good_milestone_def)
  have "parseDelivery ?b = Some (demo_click ''1'')" by simp
  from concurrent_duplicate_counted_twice [OF w w this _ 1 2]
  have "processed_events db2 = [''1''] \<and> CountByCode ''abcdefg'' db2 = 2"
    by (simp add: empty_anadb_def demo_click_def CountByCode_def)
  then show ?thesis by (simp add: 1 2)
qed

text \<open>Messages of one milestone.\<close>

definition for_milestone :: "string \<Rightarrow> int \<Rightarrow> MilestoneReachedEvent \<Rightarrow> bool" where
  "for_milestone code t m \<longleftrightarrow> mr_ShortCode m = code \<and> mr_MilestoneN m = t"

lemma publish_recorded:
  assumes "(code, t) \<in> set (milestones db)"
  shows "filter (for_milestone code t) (snd (publishIfNewMilestone e c uid email corr t' tot db sent))
    = filter (for_milestone code t) sent"
  using assms
  by (auto simp: publishIfNewMilestone_def Let_def newMilestoneReachedEvent_def MilestoneReachedEvent.defs
      for_milestone_def BaseEvent.defs split: outcome.splits)

lemma publish_keeps_rows:
  "fst (publishIfNewMilestone e c uid email corr t' tot db sent) = Done db' \<Longrightarrow>
   set (milestones db) \<subseteq> set (milestones db')"
  by (auto simp: publishIfNewMilestone_def Let_def insert_milestone_def split: outcome.splits if_splits)

lemma check_loop_recorded:
  assumes "(code, t) \<in> set (milestones db)"
  shows "filter (for_milestone code t) (snd (check_loop me c uid email corr tot ts db sent))
    = filter (for_milestone code t) sent"
  using assms
proof (induction ts arbitrary: db sent)
  case (Cons x ts)
  obtain en s1 where p: "publishIfNewMilestone (me x) c uid email corr x tot db sent = (en, s1)"
    by (cases "publishIfNewMilestone (me x) c uid email corr x tot db sent")
  have s1: "filter (for_milestone code t) s1 = filter (for_milestone code t) sent"
    using publish_recorded [OF Cons.prems, of "me x" c uid email corr x tot sent] p by simp
  show ?case
  proof (cases en)
    case (Done db1)
    with publish_keeps_rows [of "me x" c uid email corr x tot db sent db1] p Cons.prems
    have "(code, t) \<in> set (milestones db1)" by auto
    from Cons.IH [OF this, of s1] Cons.IH [OF Cons.prems, of sent] s1 p Done show ?thesis by simp
  qed (use Cons s1 p in auto)
qed simp

lemma processDelivery_sent:
  assumes "processDelivery e body seen db sent = (rep, db', sent')"
  shows "sent' = sent \<or> (\<exists>evt. sent' = snd (click_tx e evt seen db sent))"
proof (cases "parseDelivery body")
  case (Some evt)
  obtain en s where "click_tx e evt seen db sent = (en, s)" by (cases "click_tx e evt seen db sent")
  with Some assms have "sent' = sent \<or> sent' = snd (click_tx e evt seen db sent)"
    by (cases en) (auto simp: processDelivery_def split: outcome.splits option.splits commit_outcome.splits)
  then show ?thesis by blast
qed (use assms in \<open>simp add: processDelivery_def\<close>)

lemma step_recorded:
  assumes "an_step s s'" and "(code, t) \<in> set (milestones (an_db s))"
  shows "(code, t) \<in> set (milestones (an_db s'))
    \<and> filter (for_milestone code t) (an_sent s') = filter (for_milestone code t) (an_sent s)"
  using assms(1)
proof cases
  case (an_deliver e body rep db sent)
  have "filter (for_milestone code t) (snd (click_tx e evt (an_db s) (an_db s) (an_sent s)))
      = filter (for_milestone code t) (an_sent s)" for evt
  proof -
    let ?db = "insert_click (clickRecordFromEvent evt) (insert_processed (be_EventID evt) (an_db s))"
    have "(code, t) \<in> set (milestones ?db)" using assms(2) by (simp add: insert_click_def insert_processed_def)
    from check_loop_recorded [OF this] show ?thesis
      by (auto simp: click_tx_def CheckAndPublish_def Let_def split: call_splits)
         (metis snd_conv)+
  qed
  note F = this
  from processDelivery_sent [OF an_deliver(2)] F
  have "filter (for_milestone code t) sent = filter (for_milestone code t) (an_sent s)" by auto
  moreover have "(code, t) \<in> set (milestones db)"
    using an_deliver(2)
  proof (cases rule: processDelivery_cases)
    case (2 evt x)
    from click_tx_Done [OF 2(2)] assms(2) show ?thesis by auto
  qed (use assms(2) in simp)
  ultimately show ?thesis using an_deliver(1) by simp
qed

text \<open>a milestone whose publication fails is lost: the error is only logged, the row is committed
  with the click, and once the row exists no later delivery, whatever its environment, ever
  publishes that milestone again.\<close>

theorem failed_publish_loses_milestone:
  assumes "me_has m = Works" and "me_insert m = Works" and "me_publish m = Fails"
    and "publishIfNewMilestone m code uid email corr t tot db sent = (res, sent')"
    and "an_step\<^sup>*\<^sup>* s s'" and "res = Done (an_db s)"
  shows "sent' = sent \<and> (code, t) \<in> set (milestones (an_db s))
    \<and> filter (for_milestone code t) (an_sent s') = filter (for_milestone code t) (an_sent s)"
proof -
  have 1: "sent' = sent \<and> (code, t) \<in> set (milestones (an_db s))"
  proof -
    have "res = Done (insert_milestone code t db) \<and> sent' = sent"
      using assms(1-4) by (auto simp: publishIfNewMilestone_def insert_milestone_def Let_def split: if_splits)
    with assms(6) have "an_db s = insert_milestone code t db" "sent' = sent" by simp_all
    then show ?thesis by (simp add: insert_milestone_def)
  qed
  from assms(5) have "(code, t) \<in> set (milestones (an_db s'))
      \<and> filter (for_milestone code t) (an_sent s') = filter (for_milestone code t) (an_sent s)"
  proof (induction rule: rtranclp_induct)
    case (step x y)
    with step_recorded [OF step(2), of code t] show ?case by simp
  qed (use 1 in simp)
  with 1 show ?thesis by simp
qed

theorem failed_publish_loses_milestone_witness:
  "snd (publishIfNewMilestone (good_milestone\<lparr>me_publish := Fails\<rparr>) ''c'' '''' '''' '''' 10 10 empty_anadb []) = []
   \<and> (''c'', 10) \<in> set (milestones (insert_milestone ''c'' 10 empty_anadb))"
proof -
  let ?m = "good_milestone\<lparr>me_publish := Fails\<rparr>"
  let ?s = "\<lparr>an_db = insert_milestone ''c'' 10 empty_anadb, an_sent = [], an_delivered = []\<rparr>"
  have "publishIfNewMilestone ?m ''c'' '''' '''' '''' 10 10 empty_anadb [] = (Done (an_db ?s), [])"
    by (simp add: publishIfNewMilestone_def good_milestone_def empty_anadb_def)
  moreover from failed_publish_loses_milestone [OF _ _ _ this, of ?s ?s]
  have "(''c'', 10) \<in> set (milestones (an_db ?s))" by (simp add: good_milestone_def)
  ultimately show ?thesis by simp
qed

section \<open>Statistics\<close>

lemma count_list_sum: "(\<Sum>p\<leftarrow>remdups ps. int (count_list ps p)) = int (length ps)"
proof -
  have "(\<Sum>p\<leftarrow>remdups ps. int (count_list ps p)) = (\<Sum>p\<in>set ps. int (count_list ps p))"
    by (simp add: sum_list_distinct_conv_sum_set)
  also have "\<dots> = int (length ps)" by (metis of_nat_sum sum_count_set finite_set subset_refl)
  finally show ?thesis .
qed


lemma timeline_labels:
  assumes "\<forall>c \<in> set (clicks db). text_range (date_trunc u (cr_ClickedAt c))"
  shows "\<exists>ps. map (\<lambda>b. parse_rfc3339 (fst b)) (TimeLineBuckets code u db) = map Some ps
    \<and> sorted_wrt (<) ps \<and> set ps = {date_trunc u (cr_ClickedAt c) |c. c \<in> set (clicks db) \<and> cr_ShortCode c = code}"
proof -
  let ?ps = "map (\<lambda>c. date_trunc u (cr_ClickedAt c)) (filter (\<lambda>c. cr_ShortCode c = code) (clicks db))"
  let ?ss = "sort (remdups ?ps)"
  have "\<forall>p \<in> set ?ss. parse_rfc3339 (rfc3339 p) = Some p"
    using assms by (auto simp: rfc3339_roundtrip)
  then have "map (\<lambda>b. parse_rfc3339 (fst b)) (TimeLineBuckets code u db) = map Some ?ss"
    by (simp add: TimeLineBuckets_def Let_def)
  moreover have "sorted_wrt (<) ?ss" by (simp add: strict_sorted_iff)
  moreover have "set ?ss = {date_trunc u (cr_ClickedAt c) |c. c \<in> set (clicks db) \<and> cr_ShortCode c = code}" by auto
  ultimately show ?thesis by blast
qed


definition demo_stats :: anadb where
  "demo_stats = empty_anadb\<lparr>clicks := [clickRecordFromEvent (demo_click ''1''\<lparr>ck_ClickedAt := 0\<rparr>)]\<rparr>"


end
