(* ===== verification/Replies.thy ===== *)
theory Replies
  imports UrlProps UserProps NotificationProps AnalyticsProps
begin

text \<open>
  The reply protocol that the four services share: what a client can read off the status.
\<close>

definition success_reply :: "int set \<Rightarrow> 'b response \<Rightarrow> bool" where
  "success_reply codes resp \<longleftrightarrow> (\<exists>v. resp_status resp \<in> codes \<and> resp = json_response (resp_status resp) v)"

definition error_reply :: "int set \<Rightarrow> 'b response \<Rightarrow> bool" where
  "error_reply codes resp \<longleftrightarrow> (\<exists>msg. resp_status resp \<in> codes \<and> resp = error_response (resp_status resp) msg)"

lemma reply_intros [simp]:
  "success_reply codes (json_response st v) \<longleftrightarrow> st \<in> codes"
  "error_reply codes (error_response st msg) \<longleftrightarrow> st \<in> codes"
  by (auto simp: success_reply_def error_reply_def)

definition url_reply :: "http_request \<Rightarrow> us_payload response \<Rightarrow> bool" where
  "url_reply r resp \<longleftrightarrow> success_reply {200, 201} resp \<or> error_reply {400, 401, 403, 409, 410, 500} resp
     \<or> (\<exists>url. resp = http_Redirect r url) \<or> resp = \<lparr>resp_status = 204, resp_headers = [], resp_body = NoBody\<rparr>"

lemma do_shorten_reply:
  "do_shorten L base se body uid email st = (Ret resp, sl, st') \<Longrightarrow> url_reply r resp"
  by (auto simp: do_shorten_def ShortenURL_def write_http_error_def url_reply_def Let_def
      split: option.splits loop_result.splits prod.splits)

lemma FindByCode_no_NoRows: "FindByCode fault code db = Inl e \<Longrightarrow> e \<noteq> NoRows"
  by (auto simp: FindByCode_def split: option.splits dberr.splits)

lemma HandleRedirect_reply:
  "HandleRedirect L fault now r code st = (Ret resp, st') \<Longrightarrow> url_reply r resp"
  using FindByCode_no_NoRows
  by (fastforce simp: HandleRedirect_def RedirectToURL_def http_err_def write_http_error_def url_reply_def
      split: option.splits sum.splits go.splits if_splits prod.splits)

lemma HandleGetUrls_reply:
  assumes "fault \<noteq> Some NoRows" and "HandleGetUrls L fault dbnow r after lim st = Ret resp"
  shows "url_reply r resp"
proof -
  have "FindByUserID U fault now uid aft l db = Inl e \<Longrightarrow> e \<noteq> NoRows" for U now uid aft l db e
    using assms(1) by (auto simp: FindByUserID_def dberr_defs Let_def split: option.splits if_splits)
  with assms(2) show ?thesis
    by (auto simp: HandleGetUrls_def GetUserUrls_def http_err_def write_http_error_def url_reply_def Let_def
        split: option.splits sum.splits go.splits if_splits)
qed

lemma HandleDeactivateUrl_reply:
  "HandleDeactivateUrl L d r code st = (resp, st') \<Longrightarrow> url_reply r resp"
  by (auto simp: HandleDeactivateUrl_def DeactivateURL_def write_http_error_def url_reply_def
      split: option.splits prod.splits if_splits)

lemma http_Redirect_ctx: "http_Redirect (r\<lparr>req_ctx := c\<rparr>) url = http_Redirect r url"
  by (simp add: http_Redirect_def)

lemma url_reply_ctx: "url_reply (r\<lparr>req_ctx := c\<rparr>) resp = url_reply r resp"
  by (simp add: url_reply_def http_Redirect_ctx)

lemma JWTMiddleware_cases:
  "(\<exists>msg. (JWTMiddleware parse now secret r :: 'b response + http_request) = Inl (error_response 401 msg)) \<or>
   (\<exists>c. (JWTMiddleware parse now secret r :: 'b response + http_request) = Inr (r\<lparr>req_ctx := c\<rparr>))"
  by (auto simp: JWTMiddleware_def Let_def split: sum.splits)

lemma HandleShorten_reply:
  "HandleShorten L base se r body st = (Ret resp, sl, st') \<Longrightarrow> url_reply r resp"
  by (auto simp: HandleShorten_def split: option.splits if_splits dest: do_shorten_reply) (simp_all add: url_reply_def)

lemma HandleShortenAnon_reply:
  "HandleShortenAnon L base se body st = (Ret resp, sl, st') \<Longrightarrow> url_reply r resp"
  by (auto simp: HandleShortenAnon_def dest: do_shorten_reply)

lemma us_dispatch_reply:
  assumes "ue_fault env \<noteq> Some NoRows" and "route \<notin> {ToHealth, ToMetrics, Unrouted}"
    and "us_dispatch L base ops env route q r st = (Ret resp, st')"
  shows "url_reply r resp"
  using assms
  by (cases route)
     (auto simp: us_dispatch_def HandleRedirectAnon_def split: prod.splits intro: HandleShorten_reply
       HandleShortenAnon_reply HandleRedirect_reply HandleGetUrls_reply HandleDeactivateUrl_reply)

lemma us_serve_reply:
  assumes "ue_fault env \<noteq> Some NoRows"
    and "us_mux (req_method (ur_http q)) (path_segments (req_path (ur_http q))) \<notin> {ToHealth, ToMetrics, Unrouted}"
    and "us_serve L parse secret base ops env q st = (Ret resp, st')"
  shows "url_reply (ur_http q) resp"
proof (cases "us_authenticated (us_mux (req_method (ur_http q)) (path_segments (req_path (ur_http q))))")
  case True
  from JWTMiddleware_cases [of parse "ue_now env" secret "ur_http q", where ?'b = us_payload] show ?thesis
  proof (elim disjE exE)
    fix msg assume "(JWTMiddleware parse (ue_now env) secret (ur_http q) :: us_payload response + _) = Inl (error_response 401 msg)"
    with True assms(3) show ?thesis by (auto simp: us_serve_def url_reply_def Let_def)
  next
    fix c assume "(JWTMiddleware parse (ue_now env) secret (ur_http q) :: us_payload response + _) = Inr ((ur_http q)\<lparr>req_ctx := c\<rparr>)"
    with True assms(3) us_dispatch_reply [OF assms(1,2)] url_reply_ctx show ?thesis
      by (fastforce simp: us_serve_def Let_def)
  qed
next
  case False
  with assms(3) us_dispatch_reply [OF assms(1,2)] show ?thesis by (fastforce simp: us_serve_def Let_def)
qed

lemma validation_reply [simp]: "error_reply codes (writeFieldError st m f) \<longleftrightarrow> False"
  by (auto simp: error_reply_def writeFieldError_def json_response_def error_response_def)

definition user_reply :: "user_payload response \<Rightarrow> bool" where
  "user_reply resp \<longleftrightarrow> success_reply {200, 201} resp \<or> error_reply {400, 401, 409, 415, 500} resp
     \<or> (\<exists>m f. resp = writeFieldError 400 m f)"

lemma user_replies:
  "user_reply (fst (Register h salt e r body db))" "user_reply (fst (Login h now fault r body db))" "user_reply (Me r)"
  by (auto simp: Register_def Login_def Me_def user_reply_def Let_def split: option.splits prod.splits sum.splits)

lemma user_serve_reply:
  assumes "req_method r = ''POST'' \<and> req_path r \<in> {''/register'', ''/login''} \<or> req_method r = ''GET'' \<and> req_path r = ''/me''"
  shows "user_reply (fst (user_serve h parse ops e r body db))"
  using assms user_replies JWTMiddleware_cases [of parse "ue_clock e" "issuer_secret (ud_issuer h)" r, where ?'b = user_payload]
  by (auto simp: user_serve_def) (simp_all add: user_reply_def)

definition notification_reply :: "notificationListResponse response \<Rightarrow> bool" where
  "notification_reply resp \<longleftrightarrow> success_reply {200} resp \<or> error_reply {400, 401, 500} resp"

lemma serve_notifications_reply:
  "notification_reply (serve_notifications parse secret U up ok now r lim aft db)"
proof -
  have H: "success_reply {200} (HandleList U up ok r' lim aft db) \<or> error_reply {400, 401, 500} (HandleList U up ok r' lim aft db)" for r'
    by (auto simp: HandleList_def split: option.splits)
  from JWTMiddleware_cases [of parse now secret r, where ?'b = notificationListResponse] show ?thesis
    by (elim disjE exE) (simp_all add: serve_notifications_def notification_reply_def H)
qed

definition stats_reply :: "stats_payload response \<Rightarrow> bool" where
  "stats_reply resp \<longleftrightarrow> success_reply {200} resp \<or> error_reply {400, 500} resp"

definition stats_path :: "string \<Rightarrow> bool" where
  "stats_path path \<longleftrightarrow> (\<exists>code. code \<noteq> '''' \<and> path_segments path \<in> {[''stats'', code], [''stats'', code, ''timeline'']})"

lemma analytics_serve_reply:
  assumes "req_method r = ''GET''" and "stats_path (req_path r)"
  shows "stats_reply (analytics_serve ops sok sdb tok tdb now r interval)"
  using assms
  by (auto simp: analytics_serve_def stats_path_def stats_reply_def Stats_def TimeLine_def split: option.splits)



end
