(* ===== verification/Outbox.thy ===== *)
theory Outbox
  imports UrlStore
begin

text \<open>
  The outbox coordinator, \<open>outbox.go\<close>, with the publisher it calls, \<open>publisher.go\<close>: a poller
  claims up to 50 unpublished events and hands them over a channel of capacity 50 to three
  workers, each of which publishes an event to the exchange and then marks it published.

  The broker is a log of the messages it has accepted, as routing key and body; whether it accepts
  one is decided by the environment. A coordinator is stopped, or its process crashes, at any
  moment, losing what it holds; several coordinators (replicas) share the tables and the broker.
\<close>

definition outboxBatchSize :: nat where "outboxBatchSize = 50"
definition outboxWorkerCount :: nat where "outboxWorkerCount = 3"

type_synonym message = "string \<times> json"

definition message_of :: "OutboxRecord \<Rightarrow> message" where
  "message_of b = (ob_EventType b, ob_Payload b)"

section \<open>Publishing one record\<close>

text \<open>\<open>amqpPublisher.Publish\<close>: the routing key is the event type, the body the payload;
  \<open>ok\<close> is the broker's answer.\<close>

definition Publish :: "bool \<Rightarrow> string \<Rightarrow> json \<Rightarrow> message list \<Rightarrow> bool \<times> message list" where
  "Publish ok routingKey body sent = (if ok then (True, sent @ [(routingKey, body)]) else (False, sent))"

definition publish :: "uuid_in \<Rightarrow> bool \<Rightarrow> dberr option \<Rightarrow> time \<Rightarrow> OutboxRecord
    \<Rightarrow> urldb \<times> message list \<Rightarrow> urldb \<times> message list" where
  "publish U ok fault dbnow record s =
     (case s of (db, sent) \<Rightarrow>
        (case Publish ok (ob_EventType record) (ob_Payload record) sent of
           (False, sent) \<Rightarrow> (db, sent)
         | (True, sent) \<Rightarrow> (snd (MarkPublished U fault dbnow (ob_ID record) db), sent)))"

section \<open>The coordinators as a transition system\<close>

text \<open>A worker is idle, holds a record, or has published it and not yet marked it.\<close>

datatype worker = Idle | Holding OutboxRecord | Marking OutboxRecord

record coordinator =
  co_polled :: "OutboxRecord list"
  co_jobs :: "OutboxRecord list"
  co_workers :: "nat \<Rightarrow> worker"

record obsys =
  os_db :: urldb
  os_sent :: "message list"
  os_coords :: "nat \<Rightarrow> coordinator"

definition fresh_coordinator :: coordinator where
  "fresh_coordinator = \<lparr>co_polled = [], co_jobs = [], co_workers = (\<lambda>_. Idle)\<rparr>"

definition set_coord :: "nat \<Rightarrow> coordinator \<Rightarrow> obsys \<Rightarrow> obsys" where
  "set_coord i c s = s\<lparr>os_coords := (os_coords s)(i := c)\<rparr>"

definition set_worker :: "nat \<Rightarrow> worker \<Rightarrow> coordinator \<Rightarrow> coordinator" where
  "set_worker w x c = c\<lparr>co_workers := (co_workers c)(w := x)\<rparr>"

inductive ob_step :: "uuid_in \<Rightarrow> obsys \<Rightarrow> obsys \<Rightarrow> bool" for U where
  ob_insert: "InsertEvent U fault b (os_db s) = Inr db \<Longrightarrow> ob_step U s (s\<lparr>os_db := db\<rparr>)"
| ob_poll: "co_polled (os_coords s i) = [] \<Longrightarrow>
    FetchUnpublished fault dbnow locked outboxBatchSize (os_db s) = (Inr records, db) \<Longrightarrow>
    ob_step U s (set_coord i ((os_coords s i)\<lparr>co_polled := records\<rparr>) (s\<lparr>os_db := db\<rparr>))"
| ob_enqueue: "co_polled (os_coords s i) = record # rest \<Longrightarrow> length (co_jobs (os_coords s i)) < outboxBatchSize \<Longrightarrow>
    ob_step U s (set_coord i ((os_coords s i)\<lparr>co_polled := rest, co_jobs := co_jobs (os_coords s i) @ [record]\<rparr>) s)"
| ob_take: "co_jobs (os_coords s i) = record # rest \<Longrightarrow> w < outboxWorkerCount \<Longrightarrow> co_workers (os_coords s i) w = Idle \<Longrightarrow>
    ob_step U s (set_coord i (set_worker w (Holding record) ((os_coords s i)\<lparr>co_jobs := rest\<rparr>)) s)"
| ob_publish: "co_workers (os_coords s i) w = Holding record \<Longrightarrow>
    Publish ok (ob_EventType record) (ob_Payload record) (os_sent s) = (res, sent) \<Longrightarrow>
    ob_step U s (set_coord i (set_worker w (if res then Marking record else Idle) (os_coords s i)) (s\<lparr>os_sent := sent\<rparr>))"
| ob_mark: "co_workers (os_coords s i) w = Marking record \<Longrightarrow>
    ob_step U s (set_coord i (set_worker w Idle (os_coords s i))
      (s\<lparr>os_db := snd (MarkPublished U fault dbnow (ob_ID record) (os_db s))\<rparr>))"
| ob_crash: "ob_step U s (set_coord i fresh_coordinator s)"

definition ob_start :: "uuid_in \<Rightarrow> obsys \<Rightarrow> bool" where
  "ob_start U s \<longleftrightarrow> table_inv U (os_db s) \<and> (\<forall>b \<in> set (outbox (os_db s)). ob_PublishedAt b = None)
     \<and> os_sent s = [] \<and> os_coords s = (\<lambda>_. fresh_coordinator)"

text \<open>What a coordinator holds are images of rows: same id, type and payload.\<close>

definition image_of :: "OutboxRecord \<Rightarrow> string \<times> message" where
  "image_of b = (ob_ID b, message_of b)"

definition images :: "urldb \<Rightarrow> (string \<times> message) list" where
  "images db = map image_of (outbox db)"

definition row_of :: "urldb \<Rightarrow> OutboxRecord \<Rightarrow> bool" where
  "row_of db b \<longleftrightarrow> image_of b \<in> set (images db)"

fun worker_ok :: "obsys \<Rightarrow> worker \<Rightarrow> bool" where
  "worker_ok s Idle = True"
| "worker_ok s (Holding b) = row_of (os_db s) b"
| "worker_ok s (Marking b) \<longleftrightarrow> row_of (os_db s) b \<and> message_of b \<in> set (os_sent s)"

definition coord_ok :: "obsys \<Rightarrow> coordinator \<Rightarrow> bool" where
  "coord_ok s c \<longleftrightarrow> (\<forall>b \<in> set (co_polled c) \<union> set (co_jobs c). row_of (os_db s) b)
     \<and> (\<forall>w. worker_ok s (co_workers c w)) \<and> length (co_jobs c) \<le> outboxBatchSize"

definition published_sent :: "obsys \<Rightarrow> bool" where
  "published_sent s \<longleftrightarrow>
     (\<forall>b \<in> set (outbox (os_db s)). ob_PublishedAt b \<noteq> None \<longrightarrow> message_of b \<in> set (os_sent s))"

definition only_rows :: "obsys \<Rightarrow> bool" where
  "only_rows s \<longleftrightarrow> set (os_sent s) \<subseteq> snd ` set (images (os_db s))"

definition ob_inv :: "uuid_in \<Rightarrow> obsys \<Rightarrow> bool" where
  "ob_inv U s \<longleftrightarrow> table_inv U (os_db s) \<and> published_sent s \<and> only_rows s
     \<and> (\<forall>i. coord_ok s (os_coords s i))"

lemma only_rows_db:
  "only_rows s \<Longrightarrow> set (images (os_db s)) \<subseteq> set (images db) \<Longrightarrow> only_rows (s\<lparr>os_db := db\<rparr>)"
  unfolding only_rows_def by simp (meson image_mono subset_trans)

lemma only_rows_send:
  assumes "only_rows s" and "row_of (os_db s) b"
  shows "only_rows (s\<lparr>os_sent := os_sent s @ [message_of b]\<rparr>)"
proof -
  have "message_of b = snd (image_of b)" by (simp add: image_of_def)
  with assms show ?thesis unfolding only_rows_def row_of_def by (simp add: rev_image_eqI)
qed

text \<open>The images stay as the tables change, and the log only grows.\<close>

lemma worker_ok_mono:
  "worker_ok s x \<Longrightarrow> set (images (os_db s)) \<subseteq> set (images (os_db t)) \<Longrightarrow> set (os_sent s) \<subseteq> set (os_sent t)
   \<Longrightarrow> worker_ok t x"
  by (cases x) (auto simp: row_of_def)

lemma coord_ok_mono:
  assumes "coord_ok s c" and "set (images (os_db s)) \<subseteq> set (images (os_db t))"
    and "set (os_sent s) \<subseteq> set (os_sent t)"
  shows "coord_ok t c"
  using assms worker_ok_mono [OF _ assms(2,3)] by (auto simp: coord_ok_def row_of_def)

lemma image_of_update [simp]:
  "image_of (b\<lparr>ob_LockedUntil := l\<rparr>) = image_of b" "image_of (b\<lparr>ob_PublishedAt := p\<rparr>) = image_of b"
  by (simp_all add: image_of_def message_of_def)

lemma images_fetch [simp]: "images (snd (FetchUnpublished fault dbnow locked limit db)) = images db"
  by (simp add: images_def FetchUnpublished_def Let_def row_simps split: option.splits)

lemma images_mark [simp]: "images (snd (MarkPublished U fault dbnow i db)) = images db"
  by (simp add: images_def MarkPublished_def row_simps split: option.splits)

lemma fetched_images:
  assumes "FetchUnpublished fault dbnow locked limit db = (Inr bs, db')" and "b \<in> set bs"
  shows "row_of db b"
  using assms
  by (auto simp: FetchUnpublished_def Let_def claimed_rows_def row_of_def images_def
      split: option.splits dest!: in_set_takeD)

text \<open>A mark concerns one row, whose message has been sent.\<close>

lemma published_after_mark:
  assumes "published_sent s" and "table_inv U (os_db s)" and "row_of (os_db s) b"
    and "message_of b \<in> set (os_sent s)"
  shows "published_sent (s\<lparr>os_db := snd (MarkPublished U fault dbnow (ob_ID b) (os_db s))\<rparr>)"
proof -
  from assms(3) obtain r where r: "r \<in> set (outbox (os_db s))" "ob_ID r = ob_ID b" "message_of r = message_of b"
    by (auto simp: row_of_def images_def image_of_def)
  then have U: "U (ob_ID b) = Some (ob_ID b)" using assms(2) by (auto simp: table_inv_def)
  have "x = r" if "x \<in> set (outbox (os_db s))" "open_row (ob_ID b) x" for x
    using that r distinct_map_unique [of ob_ID "outbox (os_db s)"] assms(2)
    by (auto simp: open_row_def table_inv_def)
  with assms(1,4) r U show ?thesis
    by (auto simp: published_sent_def MarkPublished_def set_update_where message_of_def split: option.splits)
qed

lemma published_after_fetch:
  "published_sent s \<Longrightarrow>
   published_sent (s\<lparr>os_db := snd (FetchUnpublished fault dbnow locked limit (os_db s))\<rparr>)"
  by (auto simp: published_sent_def FetchUnpublished_def Let_def row_simps message_of_def
      split: option.splits)

lemma ob_inv_coord:
  assumes "ob_inv U s" and "coord_ok s c"
  shows "ob_inv U (set_coord i c s)"
proof -
  have "coord_ok (set_coord i c s) d = coord_ok s d" for d
  proof -
    have "worker_ok (set_coord i c s) x = worker_ok s x" for x by (cases x) (simp_all add: set_coord_def)
    then show ?thesis by (simp add: coord_ok_def) (simp add: set_coord_def)
  qed
  with assms show ?thesis by (auto simp: ob_inv_def published_sent_def only_rows_def set_coord_def)
qed

lemma coord_ok_worker:
  "coord_ok s c \<Longrightarrow> worker_ok s x \<Longrightarrow> coord_ok s (set_worker w x c)"
  by (simp add: coord_ok_def set_worker_def)

lemma ob_inv_db:
  assumes "ob_inv U s" and "table_inv U db" and "published_sent (s\<lparr>os_db := db\<rparr>)"
    and "set (images (os_db s)) \<subseteq> set (images db)"
  shows "ob_inv U (s\<lparr>os_db := db\<rparr>)"
  using assms coord_ok_mono [of s _ "s\<lparr>os_db := db\<rparr>"] by (auto simp: ob_inv_def intro: only_rows_db)

lemma ob_step_inv:
  assumes U: "uuid_laws U" and "ob_step U s t" and inv: "ob_inv U s"
  shows "ob_inv U t"
  using assms(2)
proof cases
  case (ob_insert fault b db)
  have "table_inv U db" using InsertEvent_table_inv [OF U _ ob_insert(2)] inv by (simp add: ob_inv_def)
  moreover from ob_insert(2) have "published_sent (s\<lparr>os_db := db\<rparr>)" "set (images (os_db s)) \<subseteq> set (images db)"
    using inv by (auto simp: ob_inv_def published_sent_def images_def elim!: InsertEvent_Inr)
  ultimately show ?thesis using ob_insert(1) inv by (simp add: ob_inv_db)
next
  case (ob_poll i fault dbnow locked records db)
  then have db: "db = snd (FetchUnpublished fault dbnow locked outboxBatchSize (os_db s))" by simp
  then have I: "ob_inv U (s\<lparr>os_db := db\<rparr>)"
    using inv by (auto intro!: ob_inv_db published_after_fetch FetchUnpublished_table_inv simp: ob_inv_def [of _ s])
  have "coord_ok (s\<lparr>os_db := db\<rparr>) ((os_coords s i)\<lparr>co_polled := records\<rparr>)"
    using I fetched_images [OF ob_poll(3)] by (auto simp: ob_inv_def coord_ok_def row_of_def db)
  with I ob_poll(1) show ?thesis by (simp add: ob_inv_coord)
next
  case (ob_enqueue i rc rest)
  have "coord_ok s (os_coords s i)" using inv by (simp add: ob_inv_def)
  with ob_enqueue show ?thesis by (auto intro!: ob_inv_coord inv simp: coord_ok_def)
next
  case (ob_take i rc rest w)
  have "coord_ok s (os_coords s i)" using inv by (simp add: ob_inv_def)
  with ob_take show ?thesis
    by (auto intro!: ob_inv_coord inv coord_ok_worker) (auto simp: coord_ok_def)
next
  case (ob_publish i w rc ok res sent)
  have c: "coord_ok s (os_coords s i)" using inv by (simp add: ob_inv_def)
  then have r: "row_of (os_db s) rc" using ob_publish(2) by (auto simp: coord_ok_def) (metis worker_ok.simps(2))
  let ?s = "s\<lparr>os_sent := sent\<rparr>"
  have sub: "set (os_sent s) \<subseteq> set sent" "only_rows ?s" "res \<Longrightarrow> message_of rc \<in> set sent"
    using ob_publish(3) inv only_rows_send [OF _ r]
    by (auto simp: Publish_def ob_inv_def message_of_def split: if_splits)
  have I: "ob_inv U ?s"
    using inv sub coord_ok_mono [of s _ ?s] by (auto simp: ob_inv_def published_sent_def)
  have "coord_ok ?s (set_worker w (if res then Marking rc else Idle) (os_coords s i))"
    using I r sub(3) by (intro coord_ok_worker) (auto simp: ob_inv_def)
  with I ob_publish(1) show ?thesis by (simp add: ob_inv_coord)
next
  case (ob_mark i w rc fault dbnow)
  have c: "coord_ok s (os_coords s i)" using inv by (simp add: ob_inv_def)
  then have r: "worker_ok s (Marking rc)" using ob_mark(2) unfolding coord_ok_def by metis
  let ?s = "s\<lparr>os_db := snd (MarkPublished U fault dbnow (ob_ID rc) (os_db s))\<rparr>"
  have I: "ob_inv U ?s"
    using inv r by (intro ob_inv_db published_after_mark MarkPublished_table_inv) (auto simp: ob_inv_def)
  then have "coord_ok ?s (set_worker w Idle (os_coords s i))"
    by (intro coord_ok_worker) (auto simp: ob_inv_def)
  with I ob_mark(1) show ?thesis by (simp add: ob_inv_coord)
next
  case (ob_crash i)
  then show ?thesis
    by (auto intro!: ob_inv_coord inv) (auto simp: coord_ok_def fresh_coordinator_def)
qed

definition ob_run :: "uuid_in \<Rightarrow> obsys \<Rightarrow> obsys \<Rightarrow> bool" where
  "ob_run U s t \<longleftrightarrow> uuid_laws U \<and> ob_step U s t"

interpretation outbox_coord: invariant_of "ob_start U" "ob_run U" "ob_inv U"
proof unfold_locales
  show "ob_inv U s" if "ob_start U s" for s
    using that by (auto simp: ob_start_def ob_inv_def published_sent_def only_rows_def coord_ok_def fresh_coordinator_def)
  show "ob_inv U t" if "ob_inv U s" "ob_run U s t" for s t
    using that ob_step_inv by (auto simp: ob_run_def)
qed

end
