(* ===== verification/OutboxProps.thy ===== *)
theory OutboxProps
  imports Outbox
begin

text \<open>
  Properties of the outbox coordinator: nothing is marked published that was not sent, nothing is
  sent that is not in the outbox, two polls within a lease claim different events, and without
  faults the poller delivers everything, oldest first, once.
\<close>

section \<open>Pending events, oldest first\<close>

definition unpublished :: "OutboxRecord \<Rightarrow> bool" where
  "unpublished b \<longleftrightarrow> ob_PublishedAt b = None"

definition pending :: "urldb \<Rightarrow> (string \<times> message) list" where
  "pending db = map image_of (sort_key ob_CreatedAt (filter unpublished (outbox db)))"

lemma insort_key_map: "(\<And>x. k (f x) = k x) \<Longrightarrow> insort_key k (f x) (map f xs) = map f (insort_key k x xs)"
  by (induction xs) auto

lemma sort_key_map: "(\<And>x. k (f x) = k x) \<Longrightarrow> sort_key k (map f xs) = map f (sort_key k xs)"
  by (induction xs) (auto simp: insort_key_map)

lemma filter_update_where:
  "(\<And>x. P (f x) = P x) \<Longrightarrow> filter P (update_where Q f xs) = update_where Q f (filter P xs)"
  by (induction xs) auto

lemma pending_fetch: "pending (snd (FetchUnpublished fault dbnow locked limit db)) = pending db"
proof -
  let ?lock = "\<lambda>b. b\<lparr>ob_LockedUntil := Some (timestamptz (dbnow + lease))\<rparr>"
  have "pending (db\<lparr>outbox := update_where Q ?lock (outbox db)\<rparr>) = pending db" for Q
  proof -
    let ?f = "\<lambda>x. if Q x then ?lock x else x"
    have "sort_key ob_CreatedAt (map ?f xs) = map ?f (sort_key ob_CreatedAt xs)" for xs
      by (rule sort_key_map) simp
    then show ?thesis
      by (simp add: pending_def filter_update_where unpublished_def)
         (simp add: update_where_def comp_def if_distrib cong: if_cong)
  qed
  then show ?thesis by (simp add: FetchUnpublished_def Let_def split: option.splits)
qed

lemma filter_unpublished_mark:
  "filter unpublished (update_where (open_row i) (\<lambda>b. b\<lparr>ob_PublishedAt := Some t, ob_LockedUntil := None\<rparr>) bs)
   = filter (\<lambda>b. ob_ID b \<noteq> i) (filter unpublished bs)"
  by (induction bs) (auto simp: open_row_def unpublished_def)

lemma filter_unpublished_lock:
  "filter (\<lambda>b. ob_ID b \<notin> I) (filter unpublished (update_where (\<lambda>b. ob_ID b \<in> I) (\<lambda>b. b\<lparr>ob_LockedUntil := l\<rparr>) bs))
   = filter (\<lambda>b. ob_ID b \<notin> I) (filter unpublished bs)"
  by (induction bs) (auto simp: unpublished_def)

lemma publish_ok:
  assumes "U (ob_ID r) = Some (ob_ID r)"
  shows "filter unpublished (outbox (fst (publish U True None dbnow r (db, sent))))
      = filter (\<lambda>b. ob_ID b \<noteq> ob_ID r) (filter unpublished (outbox db))
    \<and> snd (publish U True None dbnow r (db, sent)) = sent @ [message_of r]"
proof (cases "rows_affected (open_row (ob_ID r)) (outbox db) = 0")
  case True
  then have "\<forall>b \<in> set (filter unpublished (outbox db)). ob_ID b \<noteq> ob_ID r"
    by (auto simp: row_simps open_row_def unpublished_def)
  then have "filter (\<lambda>b. ob_ID b \<noteq> ob_ID r) (filter unpublished (outbox db)) = filter unpublished (outbox db)"
    by (rule filter_True)
  with True assms show ?thesis by (simp add: publish_def Publish_def MarkPublished_def message_of_def)
qed (use assms in \<open>simp add: publish_def Publish_def MarkPublished_def message_of_def filter_unpublished_mark\<close>)

lemma publish_all:
  assumes "\<And>r. r \<in> set rs \<Longrightarrow> U (ob_ID r) = Some (ob_ID r)"
  shows "filter unpublished (outbox (fst (foldl (\<lambda>s r. publish U True None dbnow r s) (db, sent) rs)))
      = filter (\<lambda>b. ob_ID b \<notin> set (map ob_ID rs)) (filter unpublished (outbox db))
    \<and> snd (foldl (\<lambda>s r. publish U True None dbnow r s) (db, sent) rs) = sent @ map message_of rs"
  using assms
proof (induction rs arbitrary: db sent)
  case (Cons r rs)
  obtain db1 s1 where p: "publish U True None dbnow r (db, sent) = (db1, s1)"
    by (cases "publish U True None dbnow r (db, sent)")
  with publish_ok [of U r dbnow db sent] Cons.prems
  have "filter unpublished (outbox db1) = filter (\<lambda>b. ob_ID b \<noteq> ob_ID r) (filter unpublished (outbox db))"
    and "s1 = sent @ [message_of r]" by simp_all
  with Cons.IH [of db1 s1] Cons.prems p show ?case by (auto simp: filter_filter conj_ac cong: conj_cong)
qed simp

section \<open>A round without faults\<close>

definition poll_round :: "uuid_in \<Rightarrow> time \<Rightarrow> urldb \<times> message list \<Rightarrow> urldb \<times> message list" where
  "poll_round U dbnow s = (case s of (db, sent) \<Rightarrow>
     (case FetchUnpublished None dbnow (\<lambda>_. False) outboxBatchSize db of
        (Inl e, db) \<Rightarrow> (db, sent)
      | (Inr rs, db) \<Rightarrow> foldl (\<lambda>s r. publish U True None dbnow r s) (db, sent) rs))"

definition all_claimable :: "time \<Rightarrow> urldb \<Rightarrow> bool" where
  "all_claimable t db \<longleftrightarrow> (\<forall>b \<in> set (filter unpublished (outbox db)). \<forall>t' \<ge> t. claimable t' b)"

lemma filter_notin_take:
  "distinct (map f xs) \<Longrightarrow> filter (\<lambda>x. f x \<notin> f ` set (take n xs)) xs = drop n xs"
proof (induction xs arbitrary: n)
  case (Cons x xs)
  show ?case
  proof (cases n)
    case (Suc m)
    have "filter (\<lambda>y. f y \<notin> insert (f x) (f ` set (take m xs))) xs = filter (\<lambda>y. f y \<notin> f ` set (take m xs)) xs"
      using Cons.prems by (intro filter_cong) (auto simp: image_iff)
    with Suc Cons show ?thesis by simp
  qed simp
qed simp

lemma poll_round_pending:
  assumes inv: "table_inv U db" and c: "all_claimable t db" and t: "t \<le> dbnow"
    and R: "poll_round U dbnow (db, sent) = (db', sent')"
  shows "pending db' = drop 50 (pending db) \<and> sent' = sent @ map snd (take 50 (pending db))
    \<and> all_claimable t db'"
proof -
  let ?un = "sort_key ob_CreatedAt (filter unpublished (outbox db))"
  let ?lock = "\<lambda>b. b\<lparr>ob_LockedUntil := Some (timestamptz (dbnow + lease))\<rparr>"
  let ?ids = "ob_ID ` set (take 50 ?un)"
  have "filter (\<lambda>b. claimable dbnow b \<and> \<not> False) (outbox db) = filter unpublished (outbox db)"
    using c t by (intro filter_cong) (auto simp: all_claimable_def claimable_def unpublished_def)
  then have claimed: "claimed_rows dbnow (\<lambda>_. False) outboxBatchSize db = take 50 ?un"
    by (simp add: claimed_rows_def outboxBatchSize_def)
  let ?db1 = "db\<lparr>outbox := update_where (\<lambda>b. ob_ID b \<in> ?ids) ?lock (outbox db)\<rparr>"
  have F: "FetchUnpublished None dbnow (\<lambda>_. False) outboxBatchSize db = (Inr (map ?lock (take 50 ?un)), ?db1)"
    by (simp add: FetchUnpublished_def Let_def claimed)
  define rs where "rs = map ?lock (take 50 ?un)"
  have rs: "ob_ID ` set rs = ?ids" "map message_of rs = map message_of (take 50 ?un)"
    by (simp_all add: rs_def image_image comp_def message_of_def)
  have "U (ob_ID r) = Some (ob_ID r)" if "r \<in> set rs" for r
    using that inv by (auto simp: rs_def table_inv_def dest!: in_set_takeD)
  note P = publish_all [of rs U dbnow ?db1 sent, OF this]
  have "foldl (\<lambda>s r. publish U True None dbnow r s) (?db1, sent) rs = (db', sent')"
    using R F by (simp add: poll_round_def rs_def)
  with P have un: "filter unpublished (outbox db') = filter (\<lambda>b. ob_ID b \<notin> ?ids) (filter unpublished (outbox ?db1))"
    and sent': "sent' = sent @ map message_of (take 50 ?un)"
    unfolding set_map rs by simp_all
  have un': "filter unpublished (outbox db') = filter (\<lambda>b. ob_ID b \<notin> ?ids) (filter unpublished (outbox db))"
    unfolding un by (simp add: filter_unpublished_lock del: filter_filter)
  have "distinct (map ob_ID ?un)" using inv by (auto simp: table_inv_def distinct_map intro: inj_on_subset)
  from filter_notin_take [OF this, of 50] un'
  have "sort_key ob_CreatedAt (filter unpublished (outbox db')) = drop 50 ?un"
    by (simp add: filter_sort [symmetric])
  then have "pending db' = drop 50 (pending db)" by (simp add: pending_def drop_map)
  moreover have "map message_of (take 50 ?un) = map snd (take 50 (pending db))"
    by (simp add: pending_def take_map image_of_def comp_def)
  moreover have "all_claimable t db'" using c un' by (auto simp: all_claimable_def)
  ultimately show ?thesis using sent' by simp
qed

lemma poll_round_table_inv:
  assumes "table_inv U db"
  shows "table_inv U (fst (poll_round U dbnow (db, sent)))"
proof -
  have fold: "table_inv U (fst (foldl (\<lambda>s r. publish U True None dbnow r s) s rs))" if "table_inv U (fst s)" for s rs
    using that
  proof (induction rs arbitrary: s)
    case (Cons r rs)
    have "table_inv U (fst (publish U True None dbnow r s))"
      using MarkPublished_table_inv [OF Cons.prems] by (cases s) (simp add: publish_def Publish_def)
    from Cons.IH [OF this] show ?case by simp
  qed simp
  show ?thesis
    using FetchUnpublished_table_inv [OF assms, of None dbnow "\<lambda>_. False" outboxBatchSize] fold
    by (auto simp: poll_round_def assms split: prod.splits sum.splits)
qed

fun poll_rounds :: "uuid_in \<Rightarrow> time list \<Rightarrow> urldb \<times> message list \<Rightarrow> urldb \<times> message list" where
  "poll_rounds U [] s = s"
| "poll_rounds U (t # ts) s = poll_rounds U ts (poll_round U t s)"

lemma poll_rounds_drain:
  assumes "table_inv U db" and "all_claimable t db" and "\<And>t'. t' \<in> set ts \<Longrightarrow> t \<le> t'"
    and "length (pending db) \<le> 50 * length ts"
  shows "pending (fst (poll_rounds U ts (db, sent))) = []
    \<and> snd (poll_rounds U ts (db, sent)) = sent @ map snd (pending db)"
  using assms
proof (induction ts arbitrary: db sent)
  case (Cons t' ts)
  obtain db' sent' where R: "poll_round U t' (db, sent) = (db', sent')"
    by (cases "poll_round U t' (db, sent)")
  from poll_round_pending [OF Cons.prems(1,2) _ R] Cons.prems(3)
  have p: "pending db' = drop 50 (pending db)" "sent' = sent @ map snd (take 50 (pending db))" "all_claimable t db'"
    by auto
  have "table_inv U db'" using poll_round_table_inv [OF Cons.prems(1), of t' sent] R by simp
  from Cons.IH [OF this p(3), of sent'] Cons.prems(3,4) p(1,2) R show ?case
    by (simp flip: map_append)
qed simp


definition demo_ob :: "string \<Rightarrow> time \<Rightarrow> OutboxRecord" where
  "demo_ob i t = \<lparr>ob_ID = i, ob_EventType = ''url.clicked'', ob_Payload = JStr i, ob_CreatedAt = t,
     ob_LockedUntil = None, ob_PublishedAt = None\<rparr>"

definition demo_obdb :: urldb where
  "demo_obdb = \<lparr>urls = [], outbox = [demo_ob ''b'' 2000, demo_ob ''a'' 1000]\<rparr>"

definition demo_U :: uuid_in where "demo_U s = (if s = '''' then None else Some s)"

lemma demo_obdb_inv [simp]: "table_inv demo_U demo_obdb" "uuid_laws demo_U"
  by (auto simp: table_inv_def demo_obdb_def demo_ob_def demo_U_def uuid_laws_def)


section \<open>Safety\<close>


text \<open>One row, polled by a coordinator and published by its first worker, which then marks it.\<close>

definition one_row :: "OutboxRecord \<Rightarrow> obsys" where
  "one_row b = \<lparr>os_db = \<lparr>urls = [], outbox = [b]\<rparr>, os_sent = [], os_coords = (\<lambda>_. fresh_coordinator)\<rparr>"

definition leased :: "OutboxRecord \<Rightarrow> OutboxRecord" where
  "leased b = b\<lparr>ob_LockedUntil := Some (timestamptz (5000 + lease))\<rparr>"

definition one_row_sent :: "OutboxRecord \<Rightarrow> obsys" where
  "one_row_sent b = set_coord 0 (set_worker 0 (Marking (leased b)) fresh_coordinator)
     ((one_row (leased b))\<lparr>os_sent := [message_of b]\<rparr>)"

lemma one_row_sent_reach:
  assumes U: "uuid_laws U" and i: "U (ob_ID b) = Some (ob_ID b)" and "ob_PublishedAt b = None" "ob_LockedUntil b = None"
  shows "reach (ob_start U) (ob_run U) (one_row_sent b)"
proof -
  let ?r = "leased b"
  have step: "reach (ob_start U) (ob_run U) s \<Longrightarrow> ob_step U s t \<Longrightarrow> reach (ob_start U) (ob_run U) t" for s t
    using U by (auto intro: reach_step simp: ob_run_def)
  have 0: "reach (ob_start U) (ob_run U) (one_row b)"
    by (rule reach_start) (use assms in \<open>simp add: ob_start_def one_row_def table_inv_def\<close>)
  let ?s1 = "set_coord 0 (fresh_coordinator\<lparr>co_polled := [?r]\<rparr>) (one_row ?r)"
  have "ob_step U (one_row b) ?s1"
    using ob_poll [of "one_row b" 0 None 5000 "\<lambda>_. False" "[?r]" "\<lparr>urls = [], outbox = [?r]\<rparr>" U] assms(3,4)
    by (simp add: one_row_def leased_def fresh_coordinator_def FetchUnpublished_def claimed_rows_def claimable_def
        outboxBatchSize_def Let_def)
  from step [OF 0 this] have 1: "reach (ob_start U) (ob_run U) ?s1" .
  let ?s2 = "set_coord 0 (fresh_coordinator\<lparr>co_jobs := [?r]\<rparr>) (one_row ?r)"
  have "ob_step U ?s1 ?s2"
    using ob_enqueue [of ?s1 0 ?r "[]" U] by (simp add: set_coord_def one_row_def fresh_coordinator_def outboxBatchSize_def)
  from step [OF 1 this] have 2: "reach (ob_start U) (ob_run U) ?s2" .
  let ?s3 = "set_coord 0 (set_worker 0 (Holding ?r) fresh_coordinator) (one_row ?r)"
  have "ob_step U ?s2 ?s3"
    using ob_take [of ?s2 0 ?r "[]" 0 U] by (simp add: set_coord_def one_row_def fresh_coordinator_def outboxWorkerCount_def)
  from step [OF 2 this] have 3: "reach (ob_start U) (ob_run U) ?s3" .
  have "ob_step U ?s3 (one_row_sent b)"
    using ob_publish [of ?s3 0 0 ?r True True "[message_of b]" U]
    by (simp add: one_row_sent_def set_coord_def set_worker_def one_row_def Publish_def message_of_def leased_def
        fresh_coordinator_def)
  from step [OF 3 this] show ?thesis .
qed

lemma demo_published:
  "\<exists>s. reach (ob_start demo_U) (ob_run demo_U) s \<and> map unpublished (outbox (os_db s)) = [False]"
proof -
  let ?b = "demo_ob ''a'' 1000"
  have 4: "reach (ob_start demo_U) (ob_run demo_U) (one_row_sent ?b)"
    by (rule one_row_sent_reach) (simp_all add: demo_ob_def demo_U_def)
  let ?db5 = "snd (MarkPublished demo_U None 6000 ''a'' (os_db (one_row (leased ?b))))"
  let ?s5 = "set_coord 0 (set_worker 0 Idle fresh_coordinator)
    ((one_row (leased ?b))\<lparr>os_db := ?db5, os_sent := [message_of ?b]\<rparr>)"
  have "ob_step demo_U (one_row_sent ?b) ?s5"
    using ob_mark [of "one_row_sent ?b" 0 0 "leased ?b" demo_U None 6000]
    by (simp add: one_row_sent_def one_row_def set_coord_def set_worker_def fresh_coordinator_def leased_def demo_ob_def)
  with 4 have "reach (ob_start demo_U) (ob_run demo_U) ?s5" by (auto intro: reach_step simp: ob_run_def)
  moreover have "map unpublished (outbox (os_db ?s5)) = [False]"
    by (simp add: set_coord_def MarkPublished_def demo_U_def demo_ob_def open_row_def unpublished_def rows_affected_def
        one_row_def leased_def)
  ultimately show ?thesis by (intro exI conjI)
qed




end
