(* ===== verification/Config.thy ===== *)
theory Config
  imports RateLimit UserProps
begin

text \<open>
  The configuration of the five processes: \<open>config.go\<close> of the gateway and of each service. The
  process environment is a function from names to values, \<open>None\<close> for a variable that is not set;
  an error names the variable that is required.
\<close>

type_synonym environ = "string \<Rightarrow> string option"

definition Getenv :: "environ \<Rightarrow> string \<Rightarrow> string" where
  "Getenv env key = (case env key of None \<Rightarrow> '''' | Some v \<Rightarrow> v)"

text \<open>The services' \<open>envOrDefault\<close> takes the default for a variable that is set but empty; the
  gateway's does not.\<close>

definition envOrDefault :: "environ \<Rightarrow> string \<Rightarrow> string \<Rightarrow> string" where
  "envOrDefault env key def = (if Getenv env key \<noteq> '''' then Getenv env key else def)"

definition gw_envOrDefault :: "environ \<Rightarrow> string \<Rightarrow> string \<Rightarrow> string" where
  "gw_envOrDefault env key fallback = (case env key of Some v \<Rightarrow> v | None \<Rightarrow> fallback)"

section \<open>The gateway\<close>

record CircuitBreakerConfig =
  cbc_MaxFailures :: int
  cbc_OpenTimeoutSecs :: int
  cbc_FailureWindowSecs :: int

record gateway_config =
  gwc_URLServiceURL :: string
  gwc_AnalyticsServiceURL :: string
  gwc_UserServiceURL :: string
  gwc_NotificationServiceURL :: string
  gwc_RedisURL :: string
  gwc_JWTSecret :: string
  gwc_ShortenRateLimit :: RateLimitConfig
  gwc_RedirectRateLimit :: RateLimitConfig
  gwc_CircuitBreaker :: CircuitBreakerConfig
  gwc_Port :: string
  gwc_ServiceName :: string

definition gw_required :: "string list" where
  "gw_required = [''URL_SERVICE_URL'', ''ANALYTICS_SERVICE_URL'', ''USER_SERVICE_URL'',
     ''NOTIFICATION_SERVICE_URL'', ''REDIS_URL'', ''JWT_SECRET'']"

text \<open>Go visits a map in an arbitrary order: \<open>order\<close> is the one of this run.\<close>

definition gw_loadConfig :: "string list \<Rightarrow> environ \<Rightarrow> string + gateway_config" where
  "gw_loadConfig order env =
     (let num = (\<lambda>key fallback d. parseInt (gw_envOrDefault env key fallback) d) in
      case find (\<lambda>k. Getenv env k = '''') order of
        Some k \<Rightarrow> Inl k
      | None \<Rightarrow> Inr
          \<lparr>gwc_URLServiceURL = Getenv env ''URL_SERVICE_URL'',
           gwc_AnalyticsServiceURL = Getenv env ''ANALYTICS_SERVICE_URL'',
           gwc_UserServiceURL = Getenv env ''USER_SERVICE_URL'',
           gwc_NotificationServiceURL = Getenv env ''NOTIFICATION_SERVICE_URL'',
           gwc_RedisURL = Getenv env ''REDIS_URL'', gwc_JWTSecret = Getenv env ''JWT_SECRET'',
           gwc_ShortenRateLimit = \<lparr>Limit = num ''SHORTEN_RATE_LIMIT'' ''10'' 10, WindowSecs = 60\<rparr>,
           gwc_RedirectRateLimit = \<lparr>Limit = num ''REDIRECT_RATE_LIMIT'' ''300'' 300, WindowSecs = 60\<rparr>,
           gwc_CircuitBreaker =
             \<lparr>cbc_MaxFailures = num ''CB_MAX_FAILURES'' ''5'' 5,
              cbc_OpenTimeoutSecs = num ''CB_OPEN_TIMEOUT_SECS'' ''30'' 30,
              cbc_FailureWindowSecs = num ''CB_FAILURE_WINDOW_SECS'' ''10'' 10\<rparr>,
           gwc_Port = gw_envOrDefault env ''PORT'' ''8080'', gwc_ServiceName = ''gateway''\<rparr>)"

section \<open>The services\<close>

record url_config =
  urc_DatabaseURL :: string
  urc_RedisURL :: string
  urc_RabbitMQURL :: string
  urc_JWTSecret :: string
  urc_ShortURLBase :: string
  urc_IPHashSalt :: string
  urc_Port :: string
  urc_ServiceName :: string

definition url_LoadConfig :: "environ \<Rightarrow> string + url_config" where
  "url_LoadConfig env =
     (let cfg = \<lparr>urc_DatabaseURL = Getenv env ''DATABASE_URL'', urc_RedisURL = Getenv env ''REDIS_URL'',
            urc_RabbitMQURL = Getenv env ''RABBITMQ_URL'', urc_JWTSecret = Getenv env ''JWT_SECRET'',
            urc_ShortURLBase = envOrDefault env ''SHORT_URL_BASE'' ''http://localhost:8080'',
            urc_IPHashSalt = envOrDefault env ''IP_HASH_SALT'' ''default-salt'',
            urc_Port = envOrDefault env ''PORT'' ''8080'', urc_ServiceName = ''url-service''\<rparr>
      in if urc_DatabaseURL cfg = '''' then Inl ''DATABASE_URL''
         else if urc_RabbitMQURL cfg = '''' then Inl ''RABBITMQ_URL''
         else if urc_RedisURL cfg = '''' then Inl ''REDIS_URL''
         else if urc_JWTSecret cfg = '''' then Inl ''JWT_SECRET''
         else Inr cfg)"

record analytics_config =
  anc_DatabaseURL :: string
  anc_RabbitMQURL :: string
  anc_Port :: string
  anc_ServiceName :: string
  anc_IPHashSalt :: string
  anc_AMQPPrefetchCount :: int

definition analytics_LoadConfig :: "environ \<Rightarrow> string + analytics_config" where
  "analytics_LoadConfig env =
     (let cfg = \<lparr>anc_DatabaseURL = Getenv env ''DATABASE_URL'', anc_RabbitMQURL = Getenv env ''RABBITMQ_URL'',
            anc_Port = envOrDefault env ''PORT'' ''8080'', anc_ServiceName = ''analytics-service'', anc_IPHashSalt = Getenv env ''IP_HASH_SALT'',
            anc_AMQPPrefetchCount = 1\<rparr>
      in if anc_DatabaseURL cfg = '''' then Inl ''DATABASE_URL''
         else if anc_RabbitMQURL cfg = '''' then Inl ''RABBITMQ_URL''
         else Inr cfg)"

record notification_config =
  ntc_DatabaseURL :: string
  ntc_RabbitMQURL :: string
  ntc_JWTSecret :: string
  ntc_Port :: string
  ntc_ServiceName :: string
  ntc_AMQPPrefetchCount :: int

definition notification_LoadConfig :: "environ \<Rightarrow> string + notification_config" where
  "notification_LoadConfig env =
     (let cfg = \<lparr>ntc_DatabaseURL = Getenv env ''DATABASE_URL'', ntc_RabbitMQURL = Getenv env ''RABBITMQ_URL'',
            ntc_JWTSecret = Getenv env ''JWT_SECRET'', ntc_Port = envOrDefault env ''PORT'' ''8080'',
            ntc_ServiceName = ''notification-service'',
            ntc_AMQPPrefetchCount = 1\<rparr>
      in if ntc_DatabaseURL cfg = '''' then Inl ''DATABASE_URL''
         else if ntc_RabbitMQURL cfg = '''' then Inl ''RABBITMQ_URL''
         else if ntc_JWTSecret cfg = '''' then Inl ''JWT_SECRET''
         else Inr cfg)"

record user_config =
  usc_DatabaseURL :: string
  usc_JWTSecret :: string
  usc_BCryptCost :: int
  usc_TokenTTL :: duration
  usc_Port :: string
  usc_ServiceName :: string

text \<open>The duration \<open>time.Duration(n) * time.Hour\<close> is an \<open>int64\<close> product.\<close>

definition user_loadConfig :: "environ \<Rightarrow> string + user_config" where
  "user_loadConfig env =
     (let bcryptCost = (let v = Getenv env ''BCRYPT_COST'' in
            if v \<noteq> '''' then (case Atoi v of None \<Rightarrow> 12 | Some n \<Rightarrow> if n \<ge> 4 \<and> n \<le> 12 then n else 12) else 12);
          tokenTTL = (let v = Getenv env ''TOKEN_TTL_HOURS'' in
            if v \<noteq> '''' then (case Atoi v of None \<Rightarrow> 24 * hour | Some n \<Rightarrow> if n > 0 then i64 (n * hour) else 24 * hour)
            else 24 * hour);
          cfg = \<lparr>usc_DatabaseURL = Getenv env ''DATABASE_URL'', usc_JWTSecret = Getenv env ''JWT_SECRET'',
            usc_BCryptCost = bcryptCost, usc_TokenTTL = tokenTTL, usc_Port = envOrDefault env ''PORT'' ''8080'',
            usc_ServiceName = ''user-service''\<rparr>
      in if usc_DatabaseURL cfg = '''' then Inl ''DATABASE_URL''
         else if usc_JWTSecret cfg = '''' then Inl ''JWT_SECRET''
         else Inr cfg)"

text \<open>What \<open>main.go\<close> of user-service makes of it.\<close>

definition user_deps_of :: "bcrypt_lib \<Rightarrow> jwt_sign \<Rightarrow> user_config \<Rightarrow> user_deps" where
  "user_deps_of B sign cfg = \<lparr>ud_bcrypt = B, ud_cost = NewPasswordHasher (usc_BCryptCost cfg), ud_sign = sign,
     ud_issuer = NewTokenIssuer (usc_JWTSecret cfg) (usc_TokenTTL cfg)\<rparr>"

section \<open>Properties\<close>

lemma i64_hours:
  assumes "0 < n"
  shows "n \<le> 2562047 \<Longrightarrow> i64 (n * hour) = n * hour"
    and "2562048 \<le> n \<Longrightarrow> n \<le> 5124095 \<Longrightarrow> i64 (n * hour) < 0"
proof -
  show "i64 (n * hour) = n * hour" if "n \<le> 2562047"
    using assms that by (intro i64_id) (simp add: in_i64_def hour_def second_def)
  show "i64 (n * hour) < 0" if "2562048 \<le> n" "n \<le> 5124095"
  proof -
    have "(n * hour + 2 ^ 63) mod 2 ^ 64 = (n * hour + 2 ^ 63 - 2 ^ 64) mod 2 ^ 64"
      by (rule mod_pos_geq) (use that in \<open>simp_all add: hour_def second_def\<close>)
    also have "\<dots> = n * hour + 2 ^ 63 - 2 ^ 64"
      by (rule mod_pos_pos_trivial) (use that in \<open>simp_all add: hour_def second_def\<close>)
    finally have "(n * hour + 2 ^ 63) mod 2 ^ 64 = n * hour + 2 ^ 63 - 2 ^ 64" .
    then show ?thesis using that by (simp add: i64_def hour_def second_def)
  qed
qed

lemma user_loadConfig_Inr:
  assumes "user_loadConfig env = Inr cfg"
  shows "4 \<le> usc_BCryptCost cfg \<and> usc_BCryptCost cfg \<le> 12
    \<and> usc_JWTSecret cfg = Getenv env ''JWT_SECRET'' \<and> usc_JWTSecret cfg \<noteq> '''' \<and> usc_DatabaseURL cfg \<noteq> ''''
    \<and> (Atoi (Getenv env ''TOKEN_TTL_HOURS'') = Some n \<and> 0 < n \<longrightarrow> usc_TokenTTL cfg = i64 (n * hour))"
proof -
  have "Atoi '''' = None" by (simp add: Atoi_def)
  with assms show ?thesis
    by (auto simp: user_loadConfig_def Let_def split: if_splits option.splits)
qed

text \<open>the token lifetime of user-service overflows: a configuration that is accepted has a cost
  between 4 and 12 that \<open>NewPasswordHasher\<close> keeps, and with \<open>TOKEN_TTL_HOURS\<close> a positive number
  tokens expire after exactly that many hours as long as it is at most 2562047; from 2562048 up to
  5124095 hours the product wraps and every token that is issued has already expired.\<close>

theorem token_ttl_overflow:
  assumes "user_loadConfig env = Inr cfg" and "Atoi (Getenv env ''TOKEN_TTL_HOURS'') = Some n" and "0 < n"
    and "Issue sign now (ud_issuer (user_deps_of B sign cfg)) uid email = Some (tok, expiresAt)"
  shows "4 \<le> usc_BCryptCost cfg \<and> usc_BCryptCost cfg \<le> 12 \<and> ud_cost (user_deps_of B sign cfg) = usc_BCryptCost cfg
    \<and> (if n \<le> 2562047 then expiresAt = now + n * hour else 5124095 < n \<or> expiresAt < now)"
proof -
  note c = user_loadConfig_Inr [OF assms(1), of n]
  from assms(4) have "expiresAt = now + usc_TokenTTL cfg"
    by (auto simp: Issue_def user_deps_of_def NewTokenIssuer_def Let_def split: option.splits)
  with c assms(2,3) i64_hours [OF assms(3)] show ?thesis
    by (cases "n \<le> 5124095") (auto simp: user_deps_of_def NewPasswordHasher_def Let_def)
qed

definition demo_environ :: environ where
  "demo_environ = map_of [(''DATABASE_URL'', ''postgres://db''), (''JWT_SECRET'', ''k''), (''TOKEN_TTL_HOURS'', ''2562048'')]"

definition any_sign :: jwt_sign where "any_sign key c = Some ''tok''"

theorem token_ttl_overflow_witness:
  "snd (the (Issue any_sign 0 (ud_issuer (user_deps_of demo_bcrypt any_sign (projr (user_loadConfig demo_environ)))) ''u'' ''e'')) < 0"
proof -
  have n: "Atoi (Getenv demo_environ ''TOKEN_TTL_HOURS'') = Some 2562048" by code_simp
  obtain cfg where c: "user_loadConfig demo_environ = Inr cfg"
    by (auto simp: user_loadConfig_def demo_environ_def Getenv_def Let_def)
  obtain e where i: "Issue any_sign 0 (ud_issuer (user_deps_of demo_bcrypt any_sign cfg)) ''u'' ''e'' = Some (''tok'', e)"
    by (simp add: Issue_def any_sign_def Let_def)
  from token_ttl_overflow [OF c n _ i] c i show ?thesis by simp
qed

text \<open>the gateway starts exactly when its six addresses and secrets are set and not empty, in whatever
  order it looks at them; its numbers are the variables' values where they are decimal integers
  and 10, 300, 5, 30 and 10 where they are not set or not numbers.\<close>

theorem gateway_starts:
  assumes "set order = set gw_required"
  shows "(\<exists>cfg. gw_loadConfig order env = Inr cfg) \<longleftrightarrow> (\<forall>k \<in> set gw_required. Getenv env k \<noteq> '''')"
    and "gw_loadConfig order env = Inr cfg \<Longrightarrow> Limit (gwc_ShortenRateLimit cfg) =
      (case env ''SHORTEN_RATE_LIMIT'' of None \<Rightarrow> 10 | Some v \<Rightarrow> (case Atoi v of None \<Rightarrow> 10 | Some n \<Rightarrow> n))"
proof -
  show "(\<exists>cfg. gw_loadConfig order env = Inr cfg) \<longleftrightarrow> (\<forall>k \<in> set gw_required. Getenv env k \<noteq> '''')"
    using assms find_None_iff_all [of "\<lambda>k. Getenv env k = ''''" order]
    by (auto simp: gw_loadConfig_def Let_def split: option.splits dest: find_SomeD)
  have "Atoi ''10'' = Some 10" by code_simp
  then show "Limit (gwc_ShortenRateLimit cfg) =
      (case env ''SHORTEN_RATE_LIMIT'' of None \<Rightarrow> 10 | Some v \<Rightarrow> (case Atoi v of None \<Rightarrow> 10 | Some n \<Rightarrow> n))"
    if "gw_loadConfig order env = Inr cfg"
  proof -
    have "gwc_ShortenRateLimit cfg
        = \<lparr>Limit = parseInt (gw_envOrDefault env ''SHORTEN_RATE_LIMIT'' ''10'') 10, WindowSecs = 60\<rparr>"
      using that by (cases "find (\<lambda>k. Getenv env k = '''') order") (simp_all add: gw_loadConfig_def Let_def, clarify, simp)
    with \<open>Atoi ''10'' = Some 10\<close> show ?thesis
      by (simp add: parseInt_def gw_envOrDefault_def split: option.split)
  qed
qed

end
