(* ===== verification/Startup.thy ===== *)
theory Startup
  imports Config Events
begin

text \<open>
  How the three services that use RabbitMQ get their connection: \<open>rabbitmq.go\<close> of url-service,
  analytics-service and notification-service, called from their \<open>main.go\<close> with ten attempts and a
  deadline, and the queues the two consumers declare.

  The broker is an environment: for each attempt whether dialling, opening the channel and declaring
  the exchange work and how long the attempt takes. Waiting is a race between the timer and the
  context's deadline; when both are due at the same instant \<open>de_tie\<close> decides.
\<close>

section \<open>The connection loop\<close>

record dial_env =
  de_dial :: "nat \<Rightarrow> bool"
  de_channel :: "nat \<Rightarrow> bool"
  de_exchange :: bool
  de_takes :: "nat \<Rightarrow> duration"
  de_tie :: "nat \<Rightarrow> bool"

datatype mq_result = MissingURL | Connected nat | ChannelFailed | ExchangeFailed | Cancelled | Unreachable
  | NilConnection

definition rabbitMQInitialBackoff :: duration where "rabbitMQInitialBackoff = second"
definition rabbitMQMaxBackoff :: duration where "rabbitMQMaxBackoff = 30 * second"

definition next_backoff :: "duration \<Rightarrow> duration" where
  "next_backoff backoff = (if backoff * 2 > rabbitMQMaxBackoff then rabbitMQMaxBackoff else backoff * 2)"

text \<open>Whether the \<open>select\<close> after a failed attempt takes the timer, with the clock at \<open>now\<close>.\<close>

definition timer_wins :: "dial_env \<Rightarrow> nat \<Rightarrow> time \<Rightarrow> time \<Rightarrow> duration \<Rightarrow> bool" where
  "timer_wins e attempt deadline now backoff \<longleftrightarrow>
     now + backoff < deadline \<or> now + backoff = deadline \<and> de_tie e attempt"

text \<open>In analytics- and notification-service a channel that cannot be opened counts as a failed dial.\<close>

definition dialRabbitMQ :: "dial_env \<Rightarrow> nat \<Rightarrow> bool" where
  "dialRabbitMQ e attempt \<longleftrightarrow> de_dial e attempt \<and> de_channel e attempt"

text \<open>Their loop from \<open>attempt\<close> on, with \<open>left\<close> attempts to go: the result, the instants at which it
  dialled, the instant it ends.\<close>

fun dial_loop :: "dial_env \<Rightarrow> time \<Rightarrow> nat \<Rightarrow> nat \<Rightarrow> duration \<Rightarrow> time \<Rightarrow> mq_result \<times> time list \<times> time" where
  "dial_loop e deadline 0 attempt backoff now = (Unreachable, [], now)"
| "dial_loop e deadline (Suc left) attempt backoff now =
     (let done = now + de_takes e attempt in
      if dialRabbitMQ e attempt then
        (if de_exchange e then (Connected attempt, [now], done) else (ExchangeFailed, [now], done))
      else if timer_wins e attempt deadline done backoff then
        (case dial_loop e deadline left (Suc attempt) (next_backoff backoff) (done + backoff) of
           (res, ts, t) \<Rightarrow> (res, now # ts, t))
      else (Cancelled, [now], max done deadline))"

definition NewRabbitMQConn :: "dial_env \<Rightarrow> string \<Rightarrow> time \<Rightarrow> nat \<Rightarrow> time \<Rightarrow> mq_result \<times> time list \<times> time" where
  "NewRabbitMQConn e url deadline maxAttempts now =
     (if url = '''' then (MissingURL, [], now)
      else dial_loop e deadline maxAttempts 1 rabbitMQInitialBackoff now)"

text \<open>url-service's loop retries the dial only: a channel that cannot be opened is an error at once.
  With no attempts at all it would use a nil connection.\<close>

fun dial_loop_url :: "dial_env \<Rightarrow> time \<Rightarrow> nat \<Rightarrow> nat \<Rightarrow> duration \<Rightarrow> time \<Rightarrow> mq_result \<times> time list \<times> time" where
  "dial_loop_url e deadline 0 attempt backoff now = (Unreachable, [], now)"
| "dial_loop_url e deadline (Suc left) attempt backoff now =
     (let done = now + de_takes e attempt in
      if de_dial e attempt then
        (if \<not> de_channel e attempt then (ChannelFailed, [now], done)
         else if \<not> de_exchange e then (ExchangeFailed, [now], done)
         else (Connected attempt, [now], done))
      else if timer_wins e attempt deadline done backoff then
        (case dial_loop_url e deadline left (Suc attempt) (min (backoff * 2) (30 * second)) (done + backoff) of
           (res, ts, t) \<Rightarrow> (res, now # ts, t))
      else (Cancelled, [now], max done deadline))"

definition NewRabbitMQConn_url :: "dial_env \<Rightarrow> time \<Rightarrow> nat \<Rightarrow> time \<Rightarrow> mq_result \<times> time list \<times> time" where
  "NewRabbitMQConn_url e deadline maxAttempts now =
     (if maxAttempts = 0 then (NilConnection, [], now) else dial_loop_url e deadline maxAttempts 1 second now)"

section \<open>The constants of the calls in main\<close>

definition rabbitMQStartupTimeout :: duration where "rabbitMQStartupTimeout = 120 * second"
definition rabbitMQAttempts :: nat where "rabbitMQAttempts = 10"


section \<open>The queues\<close>

datatype queue = AnalyticsClicks | NotificationsEvents

definition notificationRoutingKeys :: "string list" where
  "notificationRoutingKeys =
     [event_name EventTypeURLCreated, event_name EventTypeURLDeleted, event_name EventTypeMilestoneReached]"

text \<open>The bindings that \<open>DeclareAnalyticsQueue\<close> and \<open>DeclareNotificationQueue\<close> make on the shared
  topic exchange; without wildcards a binding takes the messages with exactly its key.\<close>

fun queue_bindings :: "queue \<Rightarrow> string list" where
  "queue_bindings AnalyticsClicks = [event_name EventTypeURLClicked]"
| "queue_bindings NotificationsEvents = notificationRoutingKeys"

definition routes_to :: "string \<Rightarrow> queue \<Rightarrow> bool" where
  "routes_to key q \<longleftrightarrow> key \<in> set (queue_bindings q)"

section \<open>Properties\<close>

text \<open>The number of dials the backoffs leave room for, when dialling takes no time.\<close>

fun dial_bound :: "duration \<Rightarrow> nat \<Rightarrow> duration \<Rightarrow> nat" where
  "dial_bound room 0 backoff = 0"
| "dial_bound room (Suc left) backoff =
     Suc (if backoff \<le> room then dial_bound (room - backoff) left (next_backoff backoff) else 0)"

lemma dial_bound_mono: "room \<le> room' \<Longrightarrow> dial_bound room n b \<le> dial_bound room' n b"
proof (induction n arbitrary: room room' b)
  case (Suc n)
  then have "dial_bound (room - b) n (next_backoff b) \<le> dial_bound (room' - b) n (next_backoff b)" by simp
  with Suc.prems show ?case by auto
qed simp

lemma dial_loop_bound:
  assumes "\<And>k. 0 \<le> de_takes e k" and "dial_loop e deadline n a b now = (res, ts, t)"
  shows "length ts \<le> dial_bound (deadline - now) n b \<and> (res = Unreachable \<longrightarrow> length ts = n)
    \<and> res \<noteq> ChannelFailed \<and> res \<noteq> NilConnection \<and> res \<noteq> MissingURL"
  using assms(2)
proof (induction n arbitrary: a b now res ts t)
  case (Suc n)
  let ?done = "now + de_takes e a"
  show ?case
  proof (cases "dialRabbitMQ e a \<or> \<not> timer_wins e a deadline ?done b")
    case True
    with Suc.prems show ?thesis by (auto simp: Let_def split: if_splits)
  next
    case False
    obtain res' ts' t' where l: "dial_loop e deadline n (Suc a) (next_backoff b) (?done + b) = (res', ts', t')"
      by (metis prod_cases3)
    with False Suc.prems have eq: "res = res'" "ts = now # ts'" by (auto simp: Let_def)
    from False assms(1) [of a] have le: "b \<le> deadline - now" by (auto simp: timer_wins_def)
    have "dial_bound (deadline - (?done + b)) n (next_backoff b) \<le> dial_bound (deadline - now - b) n (next_backoff b)"
      by (rule dial_bound_mono) (use assms(1) [of a] in simp)
    with Suc.IH [OF l] eq le show ?thesis by auto
  qed
qed simp

lemma min_next_backoff: "min (b * 2) (30 * second) = next_backoff b"
  by (simp add: next_backoff_def rabbitMQMaxBackoff_def min_def)

lemma dial_loop_url_bound:
  assumes "\<And>k. 0 \<le> de_takes e k" and "dial_loop_url e deadline n a b now = (res, ts, t)"
  shows "length ts \<le> dial_bound (deadline - now) n b \<and> (res = Unreachable \<longrightarrow> length ts = n)
    \<and> res \<noteq> NilConnection"
  using assms(2)
proof (induction n arbitrary: a b now res ts t)
  case (Suc n)
  let ?done = "now + de_takes e a"
  show ?case
  proof (cases "de_dial e a \<or> \<not> timer_wins e a deadline ?done b")
    case True
    with Suc.prems show ?thesis by (auto simp: Let_def split: if_splits)
  next
    case False
    obtain res' ts' t' where l: "dial_loop_url e deadline n (Suc a) (next_backoff b) (?done + b) = (res', ts', t')"
      by (metis prod_cases3)
    with False Suc.prems have eq: "res = res'" "ts = now # ts'" by (auto simp: Let_def min_next_backoff)
    from False assms(1) [of a] have le: "b \<le> deadline - now" by (auto simp: timer_wins_def)
    have "dial_bound (deadline - (?done + b)) n (next_backoff b) \<le> dial_bound (deadline - now - b) n (next_backoff b)"
      by (rule dial_bound_mono) (use assms(1) [of a] in simp)
    with Suc.IH [OF l] eq le show ?thesis by auto
  qed
qed simp

lemma dial_bounds: "dial_bound (120 * second) 10 second = 8" "dial_bound (60 * second) 10 second = 6"
  by code_simp+

lemma dial_loop_starts:
  assumes "\<And>k. 0 \<le> de_takes e k" and "dial_loop e deadline n a b now = (res, ts, t)" and "0 < b"
  shows "ts = [] \<or> hd ts = now" and "\<forall>x \<in> set ts. x \<le> max now deadline" and "res = Connected k \<Longrightarrow> a + length ts = Suc k"
proof -
  have "(ts = [] \<or> hd ts = now) \<and> (\<forall>x \<in> set ts. x \<le> max now deadline) \<and> (res = Connected k \<longrightarrow> a + length ts = Suc k)"
    using assms(2,3)
  proof (induction n arbitrary: a b now res ts t)
    case (Suc n)
    let ?done = "now + de_takes e a"
    show ?case
    proof (cases "dialRabbitMQ e a \<or> \<not> timer_wins e a deadline ?done b")
      case True
      with Suc.prems show ?thesis by (auto simp: Let_def split: if_splits)
    next
      case False
      obtain res' ts' t' where l: "dial_loop e deadline n (Suc a) (next_backoff b) (?done + b) = (res', ts', t')"
        by (metis prod_cases3)
      with False Suc.prems(1) have eq: "res = res'" "ts = now # ts'" by (auto simp: Let_def)
      from False have "?done + b \<le> deadline" by (auto simp: timer_wins_def)
      moreover have "0 < next_backoff b" using Suc.prems(2) by (simp add: next_backoff_def rabbitMQMaxBackoff_def second_def)
      ultimately show ?thesis using Suc.IH [OF l] eq by auto
    qed
  qed simp
  then show "ts = [] \<or> hd ts = now" and "\<forall>x \<in> set ts. x \<le> max now deadline"
    and "res = Connected k \<Longrightarrow> a + length ts = Suc k" by blast+
qed


definition dead_broker :: dial_env where
  "dead_broker = \<lparr>de_dial = (\<lambda>_. False), de_channel = (\<lambda>_. False), de_exchange = False, de_takes = (\<lambda>_. 0),
     de_tie = (\<lambda>_. True)\<rparr>"


end
