(* ===== verification/Pipeline.thy ===== *)
theory Pipeline
  imports OutboxProps AnalyticsProps NotificationProps Startup
begin

text \<open>
  The asynchronous half of the system as one transition system: the outbox coordinators of
  url-service, the exchange with the two queues, and the consumers of analytics-service and
  notification-service. The broker may deliver any message it has accepted at any time, in any
  order, any number of times: this covers redeliveries, publisher retries and lost
  acknowledgements. What the milestone publisher of analytics-service sends reaches the same
  exchange.
\<close>

section \<open>The system\<close>

record pipeline =
  pl_ob :: obsys
  pl_db :: anadb
  pl_sent :: "MilestoneReachedEvent list"
  pl_notes :: "Notification list"
  pl_mails :: "mail list"

definition milestone_message :: "MilestoneReachedEvent \<Rightarrow> message" where
  "milestone_message m = (event_name EventTypeMilestoneReached, json_Milestone m)"

definition exchange :: "pipeline \<Rightarrow> message set" where
  "exchange s = set (os_sent (pl_ob s)) \<union> milestone_message ` set (pl_sent s)"

inductive pl_step :: "uuid_in \<Rightarrow> (json \<Rightarrow> json option) \<Rightarrow> pipeline \<Rightarrow> pipeline \<Rightarrow> bool" for U J where
  pl_outbox: "ob_step U (pl_ob s) ob \<Longrightarrow> pl_step U J s (s\<lparr>pl_ob := ob\<rparr>)"
| pl_click: "(key, body) \<in> exchange s \<Longrightarrow> routes_to key AnalyticsClicks \<Longrightarrow>
    processDelivery e (Some body) (pl_db s) (pl_db s) (pl_sent s) = (rep, db, sent) \<Longrightarrow>
    pl_step U J s (s\<lparr>pl_db := db, pl_sent := sent\<rparr>)"
| pl_note: "(key, body) \<in> exchange s \<Longrightarrow> routes_to key NotificationsEvents \<Longrightarrow>
    U (ie_id e') = Some (ie_id e') \<Longrightarrow>
    processDelivery_notification U J e' \<lparr>dv_RoutingKey = key, dv_Body = Some body\<rparr> (pl_notes s) (pl_mails s)
      = (rep, notes, mails) \<Longrightarrow>
    pl_step U J s (s\<lparr>pl_notes := notes, pl_mails := mails\<rparr>)"

definition pl_run :: "uuid_in \<Rightarrow> (json \<Rightarrow> json option) \<Rightarrow> pipeline \<Rightarrow> pipeline \<Rightarrow> bool" where
  "pl_run U J s t \<longleftrightarrow> uuid_laws U \<and> pl_step U J s t"

definition pl_start :: "uuid_in \<Rightarrow> pipeline \<Rightarrow> bool" where
  "pl_start U s \<longleftrightarrow> ob_start U (pl_ob s) \<and> pl_db s = empty_anadb \<and> pl_sent s = [] \<and> pl_notes s = []
     \<and> pl_mails s = []"

section \<open>Invariants\<close>

lemma ob_step_grows:
  assumes "ob_step U s t"
  shows "set (images (os_db s)) \<subseteq> set (images (os_db t)) \<and> set (os_sent s) \<subseteq> set (os_sent t)"
  using assms
proof cases
  case (ob_insert fault b db)
  then show ?thesis by (auto simp: images_def elim!: InsertEvent_Inr)
next
  case (ob_poll i fault dbnow locked records db)
  from ob_poll(3) images_fetch [of fault dbnow locked outboxBatchSize "os_db s"] ob_poll(1)
  show ?thesis by (simp add: set_coord_def)
qed (auto simp: set_coord_def Publish_def split: if_splits)

definition clicks_from :: "message list \<Rightarrow> anadb \<Rightarrow> bool" where
  "clicks_from ms db \<longleftrightarrow> milestones_ok db \<and> (\<exists>evs. counted evs db
     \<and> (\<forall>x \<in> set evs. \<exists>p. (event_name EventTypeURLClicked, p) \<in> set ms \<and> parseDelivery (Some p) = Some x))"

text \<open>Milestones are sent before the commit: the click that reached the threshold may be rolled back.\<close>

definition sent_ok :: "anadb \<Rightarrow> MilestoneReachedEvent list \<Rightarrow> bool" where
  "sent_ok db sent \<longleftrightarrow> (\<forall>m \<in> set sent. mr_MilestoneN m \<in> set MilestoneThresholds
     \<and> mr_MilestoneN m \<le> CountByCode (mr_ShortCode m) db + 1)"

definition notes_from :: "uuid_in \<Rightarrow> (json \<Rightarrow> json option) \<Rightarrow> message set \<Rightarrow> Notification list \<Rightarrow> bool" where
  "notes_from U J ms notes \<longleftrightarrow> (\<forall>n \<in> set notes. \<exists>key body. (key, body) \<in> ms \<and> nt_EventType n = key
     \<and> routes_to key NotificationsEvents \<and> notifies U J \<lparr>dv_RoutingKey = key, dv_Body = Some body\<rparr> n)"

definition pl_inv :: "uuid_in \<Rightarrow> (json \<Rightarrow> json option) \<Rightarrow> pipeline \<Rightarrow> bool" where
  "pl_inv U J s \<longleftrightarrow> ob_inv U (pl_ob s) \<and> clicks_from (os_sent (pl_ob s)) (pl_db s) \<and> sent_ok (pl_db s) (pl_sent s)
     \<and> nt_table U (pl_notes s) \<and> notes_from U J (exchange s) (pl_notes s)"

lemma clicks_from_mono: "clicks_from ms db \<Longrightarrow> set ms \<subseteq> set ms' \<Longrightarrow> clicks_from ms' db"
  unfolding clicks_from_def by blast

lemma notes_from_mono: "notes_from U J ms notes \<Longrightarrow> ms \<subseteq> ms' \<Longrightarrow> notes_from U J ms' notes"
  unfolding notes_from_def by blast

lemma check_loop_sent:
  assumes "check_loop me code uid email corr tot ts db sent = (r, sent')"
  shows "\<exists>ms. sent' = sent @ ms
    \<and> (\<forall>m \<in> set ms. mr_MilestoneN m \<in> set ts \<and> mr_MilestoneN m \<le> tot \<and> mr_ShortCode m = code)"
  using assms
proof (induction ts arbitrary: db sent)
  case (Cons t ts)
  show ?case
  proof (cases "tot < t")
    case True
    with Cons show ?thesis by fastforce
  next
    case False
    obtain r1 s1 where p: "publishIfNewMilestone (me t) code uid email corr t tot db sent = (r1, s1)"
      by (cases "publishIfNewMilestone (me t) code uid email corr t tot db sent")
    then obtain ms1 where s1: "s1 = sent @ ms1"
      "\<forall>m \<in> set ms1. mr_MilestoneN m = t \<and> mr_ShortCode m = code"
      by (auto simp: publishIfNewMilestone_def Let_def newMilestoneReachedEvent_def MilestoneReachedEvent.defs
          BaseEvent.defs NewBaseEvent_def split: outcome.splits if_splits)
    show ?thesis
    proof (cases r1)
      case (Done db1)
      with Cons.prems p False have "check_loop me code uid email corr tot ts db1 s1 = (r, sent')" by simp
      from Cons.IH [OF this] s1 False show ?thesis by fastforce
    qed (use Cons.prems p False s1 in auto)
  qed
qed simp

lemma click_tx_sent:
  assumes "click_tx e evt db db sent = (r, sent')"
  shows "\<exists>ms. sent' = sent @ ms \<and> (\<forall>m \<in> set ms. mr_MilestoneN m \<in> set MilestoneThresholds
     \<and> mr_MilestoneN m \<le> CountByCode (mr_ShortCode m) db + 1)"
proof -
  let ?db = "insert_click (clickRecordFromEvent evt) (insert_processed (be_EventID evt) db)"
  have "sent' = sent \<or> (\<exists>r. CheckAndPublish (dl_count e) (dl_milestone e) (ck_ShortCode evt) (ck_UserID evt)
      (ck_UserEmail evt) (be_CorrelationID evt) ?db sent = (r, sent'))"
    using assms by (auto simp: click_tx_def Let_def split: if_splits call_splits)
  then show ?thesis
  proof (elim disjE exE)
    fix r assume "CheckAndPublish (dl_count e) (dl_milestone e) (ck_ShortCode evt) (ck_UserID evt)
      (ck_UserEmail evt) (be_CorrelationID evt) ?db sent = (r, sent')"
    then have "sent' = sent \<or> check_loop (dl_milestone e) (ck_ShortCode evt) (ck_UserID evt) (ck_UserEmail evt)
      (be_CorrelationID evt) (CountByCode (ck_ShortCode evt) ?db) MilestoneThresholds ?db sent = (r, sent')"
      by (auto simp: CheckAndPublish_def split: outcome.splits)
    moreover have "CountByCode (ck_ShortCode evt) ?db = CountByCode (ck_ShortCode evt) db + 1"
      by (simp add: clickRecordFromEvent_def)
    ultimately show ?thesis using check_loop_sent by fastforce
  qed simp
qed

lemma processDelivery_sent_ok:
  assumes "processDelivery e body db db sent = (rep, db', sent')" and "sent_ok db sent"
  shows "sent_ok db' sent'"
proof -
  have "\<exists>ms. sent' = sent @ ms \<and> (\<forall>m \<in> set ms. mr_MilestoneN m \<in> set MilestoneThresholds
     \<and> mr_MilestoneN m \<le> CountByCode (mr_ShortCode m) db + 1)"
  proof (cases "sent' = sent")
    case False
    with assms(1) obtain evt r where "click_tx e evt db db sent = (r, sent')"
      by (auto simp: processDelivery_def split: option.splits call_splits)
    from click_tx_sent [OF this] show ?thesis .
  qed simp
  moreover have "CountByCode code db \<le> CountByCode code db'" for code
    using assms(1)
  proof (cases rule: processDelivery_cases)
    case (2 evt s)
    from click_tx_Done [OF 2(2)] show ?thesis by (simp add: CountByCode_def)
  qed simp
  ultimately show ?thesis using assms(2) unfolding sent_ok_def
    by (metis (no_types, opaque_lifting) UnE add_right_mono order_trans set_append)
qed

lemma processDelivery_sent_grows:
  "processDelivery e body db db sent = (rep, db', sent') \<Longrightarrow> set sent \<subseteq> set sent'"
  using click_tx_sent
  by (fastforce simp: processDelivery_def split: option.splits call_splits)

lemma exchange_click:
  assumes "(key, body) \<in> exchange s" and "routes_to key AnalyticsClicks"
  shows "(event_name EventTypeURLClicked, body) \<in> set (os_sent (pl_ob s))"
  using assms by (auto simp: exchange_def milestone_message_def routes_to_def)

lemma pl_step_inv:
  assumes "uuid_laws U" and "pl_step U J s t" and inv: "pl_inv U J s"
  shows "pl_inv U J t"
  using assms(2)
proof cases
  case (pl_outbox ob)
  have "exchange s \<subseteq> exchange t" using ob_step_grows [OF pl_outbox(2)] pl_outbox(1) by (auto simp: exchange_def)
  with ob_step_inv [OF assms(1) pl_outbox(2)] ob_step_grows [OF pl_outbox(2)] pl_outbox(1) inv
  show ?thesis by (auto simp: pl_inv_def elim: clicks_from_mono notes_from_mono)
next
  case (pl_click key body e rep db sent)
  have "exchange s \<subseteq> exchange t"
    using processDelivery_sent_grows [OF pl_click(4)] pl_click(1) by (auto simp: exchange_def)
  moreover have "clicks_from (os_sent (pl_ob s)) db"
    using pl_click(4)
  proof (cases rule: processDelivery_cases)
    case 1
    with inv show ?thesis by (simp add: pl_inv_def)
  next
    case (2 evt s')
    from inv obtain evs where evs: "counted evs (pl_db s)" "milestones_ok (pl_db s)"
      "\<forall>x \<in> set evs. \<exists>p. (event_name EventTypeURLClicked, p) \<in> set (os_sent (pl_ob s)) \<and> parseDelivery (Some p) = Some x"
      by (auto simp: pl_inv_def clicks_from_def)
    from click_tx_inv [OF 2(2) evs(1,2)] evs(3) exchange_click [OF pl_click(2,3)] 2(1) show ?thesis
      unfolding clicks_from_def by (intro conjI exI [of _ "evs @ [evt]"]) auto
  qed
  ultimately show ?thesis
    using inv pl_click(1) processDelivery_sent_ok [OF pl_click(4)] by (auto simp: pl_inv_def elim: notes_from_mono)
next
  case (pl_note key body e rep nts mails)
  have ex: "exchange t = exchange s" using pl_note(1) by (simp add: exchange_def)
  from pl_note(5) have "nt_table U nts \<and> notes_from U J (exchange s) nts"
  proof (cases rule: process_cases)
    case 1
    with inv show ?thesis by (simp add: pl_inv_def)
  next
    case (2 n m)
    then have "nt_EventType n = key"
      by (auto simp: notifies_def notificationFromDelivery_def notificationFromURLCreated_def
        notificationFromURLDeleted_def notificationFromMilestoneReached_def newNotificationRecord_def Let_def
        split: option.splits if_splits)
    with 2 inv pl_note(2-4) show ?thesis unfolding pl_inv_def nt_table_def notes_from_def by auto
  qed
  with inv pl_note(1) ex show ?thesis by (auto simp: pl_inv_def)
qed

lemma pl_start_inv: "pl_start U s \<Longrightarrow> pl_inv U J s"
  using outbox_coord.inv_start [of U "pl_ob s"]
  by (auto simp: pl_start_def pl_inv_def clicks_from_def counted_def empty_anadb_def milestones_ok_def sent_ok_def
      nt_table_def notes_from_def CountByCode_def MilestoneThresholds_def)

end
