(* ===== verification/PipelineProps.thy ===== *)
theory PipelineProps
  imports Pipeline
begin

text \<open>
  What the asynchronous half promises as a whole: it implements a counter that counts each issued
  event at most once, and every notification has its origin.
\<close>

section \<open>The specification: count each issued event at most once\<close>

inductive once_step :: "('k \<times> 'v) set \<times> ('k \<times> 'v) list \<Rightarrow> ('k \<times> 'v) set \<times> ('k \<times> 'v) list \<Rightarrow> bool" where
  once_issue: "I \<subseteq> I' \<Longrightarrow> once_step (I, cs) (I', cs)"
| once_count: "(k, v) \<in> I \<Longrightarrow> k \<notin> fst ` set cs \<Longrightarrow> once_step (I, cs) (I, cs @ [(k, v)])"

definition once_start :: "('k \<times> 'v) set \<times> ('k \<times> 'v) list \<Rightarrow> bool" where
  "once_start s \<longleftrightarrow> snd s = []"

interpretation once: invariant_of once_start once_step
  "\<lambda>(I, cs). distinct (map fst cs) \<and> set cs \<subseteq> (I :: ('k \<times> 'v) set)"
proof unfold_locales
  fix s t :: "('k \<times> 'v) set \<times> ('k \<times> 'v) list"
  show "once_start s \<Longrightarrow> case s of (I, cs) \<Rightarrow> distinct (map fst cs) \<and> set cs \<subseteq> I"
    by (cases s) (simp add: once_start_def)
  assume "case s of (I, cs) \<Rightarrow> distinct (map fst cs) \<and> set cs \<subseteq> I" and "once_step s t"
  then show "case t of (I, cs) \<Rightarrow> distinct (map fst cs) \<and> set cs \<subseteq> I"
    by (elim once_step.cases) auto
qed

text \<open>What the specification sees of the system: the ids and click rows that the click events in
  url-service's outbox stand for, and those that analytics-service has counted.\<close>

definition issued_clicks :: "urldb \<Rightarrow> (string \<times> click_row) set" where
  "issued_clicks db = {(be_EventID evt, clickRecordFromEvent evt) | evt.
     \<exists>b \<in> set (outbox db). ob_EventType b = event_name EventTypeURLClicked
       \<and> parseDelivery (Some (ob_Payload b)) = Some evt}"

definition click_abs :: "pipeline \<Rightarrow> (string \<times> click_row) set \<times> (string \<times> click_row) list" where
  "click_abs s = (issued_clicks (os_db (pl_ob s)), zip (processed_events (pl_db s)) (clicks (pl_db s)))"

lemma image_rows: "b \<in> set (outbox db) \<Longrightarrow> set (images db) \<subseteq> set (images db') \<Longrightarrow>
    \<exists>b' \<in> set (outbox db'). message_of b' = message_of b"
  by (force simp: images_def image_of_def)

lemma issued_clicks_mono: "set (images db) \<subseteq> set (images db') \<Longrightarrow> issued_clicks db \<subseteq> issued_clicks db'"
proof
  fix x assume s: "set (images db) \<subseteq> set (images db')" and "x \<in> issued_clicks db"
  then obtain evt b where b: "x = (be_EventID evt, clickRecordFromEvent evt)" "b \<in> set (outbox db)"
    "ob_EventType b = event_name EventTypeURLClicked" "parseDelivery (Some (ob_Payload b)) = Some evt"
    by (auto simp: issued_clicks_def)
  from image_rows [OF b(2) s] obtain b' where "b' \<in> set (outbox db')" "message_of b' = message_of b" ..
  with b show "x \<in> issued_clicks db'"
    unfolding issued_clicks_def message_of_def by (intro CollectI exI [of _ evt] conjI bexI [of _ b']) auto
qed

lemma sent_issued:
  assumes "only_rows ob" and "(event_name EventTypeURLClicked, p) \<in> set (os_sent ob)"
    and "parseDelivery (Some p) = Some evt"
  shows "(be_EventID evt, clickRecordFromEvent evt) \<in> issued_clicks (os_db ob)"
proof -
  from assms(1,2) obtain b where "b \<in> set (outbox (os_db ob))" "message_of b = (event_name EventTypeURLClicked, p)"
    unfolding only_rows_def images_def image_of_def by auto
  with assms(3) show ?thesis unfolding issued_clicks_def message_of_def by auto
qed

lemma pl_step_abs:
  assumes "pl_inv U J s" and "pl_step U J s t"
  shows "once_step\<^sup>*\<^sup>* (click_abs s) (click_abs t)"
  using assms(2)
proof cases
  case (pl_outbox ob)
  from issued_clicks_mono [OF conjunct1 [OF ob_step_grows [OF pl_outbox(2)]]] pl_outbox(1)
  have "once_step (click_abs s) (click_abs t)" by (simp add: click_abs_def once_issue)
  then show ?thesis ..
next
  case (pl_click key body e rep db sent)
  from pl_click(4) show ?thesis
  proof (cases rule: processDelivery_cases)
    case 1
    with pl_click(1) show ?thesis by (simp add: click_abs_def)
  next
    case (2 evt s')
    from click_tx_Done [OF 2(2)] have n: "be_EventID evt \<notin> set (processed_events (pl_db s))"
      and d: "clicks db = clicks (pl_db s) @ [clickRecordFromEvent evt]"
        "processed_events db = processed_events (pl_db s) @ [be_EventID evt]"
      by (auto simp: insert_processed_def)
    from assms(1) have l: "length (processed_events (pl_db s)) = length (clicks (pl_db s))" and o: "only_rows (pl_ob s)"
      by (auto simp: pl_inv_def clicks_from_def counted_def ob_inv_def)
    have i: "(be_EventID evt, clickRecordFromEvent evt) \<in> issued_clicks (os_db (pl_ob s))"
      by (rule sent_issued [OF o exchange_click [OF pl_click(2,3)] 2(1)])
    have "fst ` set (zip (processed_events (pl_db s)) (clicks (pl_db s))) = set (processed_events (pl_db s))"
      using l by (metis list.set_map map_fst_zip)
    with n i l d pl_click(1) have "once_step (click_abs s) (click_abs t)"
      by (simp add: click_abs_def once_count)
    then show ?thesis ..
  qed
next
  case pl_note
  then show ?thesis by (simp add: click_abs_def)
qed

interpretation pipe: refines "pl_start U" "pl_run U J" "pl_inv U J" once_start once_step click_abs for U J
proof unfold_locales
  show "pl_inv U J s" if "pl_start U s" for s using pl_start_inv [OF that] .
  show "pl_inv U J t" if "pl_inv U J s" "pl_run U J s t" for s t
    using pl_step_inv that by (auto simp: pl_run_def)
  show "once_start (click_abs s)" if "pl_start U s" for s
    using that by (simp add: once_start_def click_abs_def pl_start_def empty_anadb_def)
  show "once_step\<^sup>*\<^sup>* (click_abs s) (click_abs t)" if "pl_inv U J s" "pl_run U J s t" for s t
    using that pl_step_abs by (auto simp: pl_run_def)
qed

section \<open>Properties\<close>

text \<open>C3: from the redirect to the statistics, each click event counts at most once: the coordinators,
  the exchange and the consumer together refine the counter that counts each issued event once,
  under crashes, retries, leases that run out, redeliveries in any order and any failing call; in
  particular the counted ids are distinct and each counted row is that of a click event in
  url-service's outbox.\<close>

theorem click_pipeline_refines:
  assumes "reach (pl_start U) (pl_run U J) s"
  shows "reach once_start once_step (click_abs s)
    \<and> distinct (processed_events (pl_db s)) \<and> length (clicks (pl_db s)) = length (processed_events (pl_db s))
    \<and> set (zip (processed_events (pl_db s)) (clicks (pl_db s))) \<subseteq> issued_clicks (os_db (pl_ob s))"
proof -
  from pipe.refinement [OF assms] have r: "reach once_start once_step (click_abs s)" .
  from once.inv_reach [OF r] have "distinct (map fst (snd (click_abs s)))" "set (snd (click_abs s)) \<subseteq> fst (click_abs s)"
    by (auto split: prod.splits)
  moreover have "length (clicks (pl_db s)) = length (processed_events (pl_db s))"
    using pipe.inv_reach [OF assms] by (auto simp: pl_inv_def clicks_from_def counted_def)
  ultimately show ?thesis using r by (simp add: click_abs_def)
qed

text \<open>A run of the pipeline for the witnesses: one click, published and counted.\<close>

definition pipe_row :: OutboxRecord where
  "pipe_row = \<lparr>ob_ID = ''a'', ob_EventType = ''url.clicked'', ob_Payload = json_URLClicked (demo_click ''1''),
     ob_CreatedAt = 1000, ob_LockedUntil = None, ob_PublishedAt = None\<rparr>"

definition pipe_of :: "obsys \<Rightarrow> pipeline" where
  "pipe_of ob = \<lparr>pl_ob = ob, pl_db = empty_anadb, pl_sent = [], pl_notes = [], pl_mails = []\<rparr>"

lemma pipe_of_reach: "reach (ob_start U) (ob_run U) ob \<Longrightarrow> reach (pl_start U) (pl_run U J) (pipe_of ob)"
proof (induction rule: reach.induct)
  case (reach_start s)
  then show ?case by (intro reach.reach_start) (simp add: pl_start_def pipe_of_def)
next
  case (reach_step s t)
  then have "pl_run U J (pipe_of s) (pipe_of t)"
    using pl_outbox [of U "pipe_of s" t J] by (simp add: pl_run_def ob_run_def pipe_of_def)
  with reach_step(3) show ?case by (rule reach.reach_step)
qed

definition pipe_counted :: pipeline where
  "pipe_counted = (case processDelivery good_delivery (Some (json_URLClicked (demo_click ''1''))) empty_anadb empty_anadb [] of
     (_, db, sent) \<Rightarrow> (pipe_of (one_row_sent pipe_row))\<lparr>pl_db := db, pl_sent := sent\<rparr>)"

lemma pipe_counted_reach: "reach (pl_start demo_U) (pl_run demo_U J) pipe_counted"
proof (rule reach.reach_step)
  let ?s = "pipe_of (one_row_sent pipe_row)"
  show "reach (pl_start demo_U) (pl_run demo_U J) ?s"
    by (intro pipe_of_reach one_row_sent_reach) (simp_all add: pipe_row_def demo_U_def)
  obtain rep db sent where P: "processDelivery good_delivery (Some (json_URLClicked (demo_click ''1''))) empty_anadb empty_anadb []
      = (rep, db, sent)" by (metis prod_cases3)
  have "(''url.clicked'', json_URLClicked (demo_click ''1'')) \<in> exchange ?s"
    by (simp add: exchange_def pipe_of_def one_row_sent_def set_coord_def message_of_def pipe_row_def)
  from pl_click [OF this, of good_delivery rep db sent] P show "pl_run demo_U J ?s pipe_counted"
    by (simp add: pl_run_def routes_to_def pipe_counted_def pipe_of_def)
qed

theorem click_pipeline_refines_witness:
  "length (clicks (pl_db pipe_counted)) = 1 \<and> distinct (processed_events (pl_db pipe_counted))
   \<and> set (zip (processed_events (pl_db pipe_counted)) (clicks (pl_db pipe_counted))) \<subseteq> issued_clicks (os_db (pl_ob pipe_counted))"
proof -
  have "length (clicks (pl_db pipe_counted)) = 1" by code_simp
  with click_pipeline_refines [OF pipe_counted_reach [of Some]] show ?thesis by simp
qed

text \<open>C18: every notification has its origin: in every reachable state, a stored notification is of one of
  the three subscribed types; one of a URL's creation or deletion carries the user and the payload
  of an event in url-service's outbox, and one of a milestone stems from a message that
  analytics-service sent for the threshold 10, 100 or 1000, when the clicks of the code were, up to
  the one click of the transaction in flight, at least that many.\<close>

theorem notifications_have_origin:
  assumes "reach (pl_start U) (pl_run U J) s" and "n \<in> set (pl_notes s)"
  shows "\<exists>body. notifies U J \<lparr>dv_RoutingKey = nt_EventType n, dv_Body = Some body\<rparr> n
    \<and> ((nt_EventType n, body) \<in> set (map message_of (outbox (os_db (pl_ob s))))
       \<or> (\<exists>m. nt_EventType n = ''milestone.reached'' \<and> body = json_Milestone m
            \<and> mr_MilestoneN m \<in> {10, 100, 1000} \<and> mr_MilestoneN m \<le> CountByCode (mr_ShortCode m) (pl_db s) + 1))
    \<and> nt_EventType n \<in> {''url.created'', ''url.deleted'', ''milestone.reached''}"
proof -
  from pipe.inv_reach [OF assms(1)] have inv: "pl_inv U J s" .
  with assms(2) obtain key body where b: "(key, body) \<in> exchange s" "nt_EventType n = key"
    "routes_to key NotificationsEvents" "notifies U J \<lparr>dv_RoutingKey = key, dv_Body = Some body\<rparr> n"
    unfolding pl_inv_def notes_from_def by blast
  from inv have rows: "set (os_sent (pl_ob s)) \<subseteq> set (map message_of (outbox (os_db (pl_ob s))))"
    by (auto simp: pl_inv_def ob_inv_def only_rows_def images_def image_of_def)
  have t: "nt_EventType n \<in> {''url.created'', ''url.deleted'', ''milestone.reached''}"
    using b(2,3) by (auto simp: routes_to_def notificationRoutingKeys_def)
  from b(1) show ?thesis unfolding exchange_def
  proof (elim UnE imageE)
    assume "(key, body) \<in> set (os_sent (pl_ob s))"
    with rows b t show ?thesis by blast
  next
    fix m assume m: "(key, body) = milestone_message m" "m \<in> set (pl_sent s)"
    with inv have "mr_MilestoneN m \<in> {10, 100, 1000}" "mr_MilestoneN m \<le> CountByCode (mr_ShortCode m) (pl_db s) + 1"
      by (auto simp: pl_inv_def sent_ok_def MilestoneThresholds_def)
    with m b t show ?thesis by (auto simp: milestone_message_def)
  qed
qed

definition note_row :: OutboxRecord where
  "note_row = \<lparr>ob_ID = ''a'', ob_EventType = ''url.created'', ob_Payload = the (dv_Body demo_created),
     ob_CreatedAt = 1000, ob_LockedUntil = None, ob_PublishedAt = None\<rparr>"

definition pipe_noted :: pipeline where
  "pipe_noted = (case processDelivery_notification demo_U Some (demo_insert ''n'') demo_created [] [] of
     (_, ns, ms) \<Rightarrow> (pipe_of (one_row_sent note_row))\<lparr>pl_notes := ns, pl_mails := ms\<rparr>)"

lemma pipe_noted_reach: "reach (pl_start demo_U) (pl_run demo_U Some) pipe_noted"
proof (rule reach.reach_step)
  let ?s = "pipe_of (one_row_sent note_row)"
  show "reach (pl_start demo_U) (pl_run demo_U Some) ?s"
    by (intro pipe_of_reach one_row_sent_reach) (simp_all add: note_row_def demo_U_def)
  obtain rep ns ms where P: "processDelivery_notification demo_U Some (demo_insert ''n'') demo_created [] [] = (rep, ns, ms)"
    by (metis prod_cases3)
  have d: "\<lparr>dv_RoutingKey = ''url.created'', dv_Body = Some (the (dv_Body demo_created))\<rparr> = demo_created"
    by (simp add: demo_created_def)
  have "(''url.created'', the (dv_Body demo_created)) \<in> exchange ?s"
    by (simp add: exchange_def pipe_of_def one_row_sent_def set_coord_def message_of_def note_row_def)
  from pl_note [OF this, of demo_U "demo_insert ''n''" Some rep ns ms] P show "pl_run demo_U Some ?s pipe_noted"
    by (simp add: pl_run_def routes_to_def notificationRoutingKeys_def pipe_noted_def pipe_of_def d demo_U_def demo_insert_def)
qed

theorem notifications_have_origin_witness:
  "\<exists>n \<in> set (pl_notes pipe_noted). nt_EventType n \<in> {''url.created'', ''url.deleted'', ''milestone.reached''}"
proof -
  have "pl_notes pipe_noted \<noteq> []" by code_simp
  then have "hd (pl_notes pipe_noted) \<in> set (pl_notes pipe_noted)" by simp
  with notifications_have_origin [OF pipe_noted_reach this] show ?thesis by blast
qed

lemma publish_sends:
  "me_has m = Works \<Longrightarrow> me_insert m = Works \<Longrightarrow> me_publish m = Works \<Longrightarrow> (code, t) \<notin> set (milestones db) \<Longrightarrow>
   \<exists>db' x. publishIfNewMilestone m code uid email corr t tot db sent = (Done db', sent @ [x]) \<and> for_milestone code t x"
  by (simp add: publishIfNewMilestone_def newMilestoneReachedEvent_def MilestoneReachedEvent.defs for_milestone_def
      BaseEvent.defs)

lemma check_loop_announces:
  assumes "\<forall>x. me_has (me x) = Works \<and> me_insert (me x) = Works \<and> me_publish (me x) = Works"
    and "t \<in> set ts" and "t \<le> tot" and "(code, t) \<notin> set (milestones db)"
  shows "length (filter (for_milestone code t) (snd (check_loop me code uid email corr tot ts db sent)))
    \<ge> length (filter (for_milestone code t) sent) + 1"
  using assms(2,4)
proof (induction ts arbitrary: db sent)
  case (Cons x ts)
  have grows: "length (filter (for_milestone code t) s) \<le> length (filter (for_milestone code t)
      (snd (check_loop me code uid email corr tot ts d s)))" for d s
  proof -
    obtain r s' where l: "check_loop me code uid email corr tot ts d s = (r, s')"
      by (cases "check_loop me code uid email corr tot ts d s")
    from check_loop_sent [OF l] l show ?thesis by auto
  qed
  show ?case
  proof (cases "x = t")
    case True
    obtain db1 y where "publishIfNewMilestone (me t) code uid email corr t tot db sent = (Done db1, sent @ [y])"
      "for_milestone code t y"
      using publish_sends [of "me t" code t db uid email corr tot sent] assms(1) Cons.prems(2) by auto
    with True assms(3) grows [of "sent @ [y]" db1] show ?thesis by simp
  next
    case False
    show ?thesis
    proof (cases "tot < x")
      case True
      with Cons False show ?thesis by simp
    next
      case le: False
      have "\<exists>db1 s1. publishIfNewMilestone (me x) code uid email corr x tot db sent = (Done db1, s1)"
        using assms(1) by (simp add: publishIfNewMilestone_def Let_def)
      then obtain db1 s1 where p: "publishIfNewMilestone (me x) code uid email corr x tot db sent = (Done db1, s1)"
        by blast
      then have "(code, t) \<notin> set (milestones db1)" "\<exists>ms. s1 = sent @ ms"
        using assms(1) Cons.prems(2) False
        by (auto simp: publishIfNewMilestone_def Let_def insert_milestone_def split: if_splits)
      with Cons.IH [of db1 s1] Cons.prems(1) False p le show ?thesis by auto
    qed
  qed
qed simp

text \<open>a milestone can be announced twice: its message is sent before the transaction commits, so when
  the commit of the click that reaches a threshold fails and the delivery is repeated, the same
  milestone is sent again, although its row is inserted only once.\<close>

theorem rolled_back_milestone_repeats:
  assumes "all_works e" and "parseDelivery body = Some evt" and "be_EventID evt \<notin> set (processed_events db)"
    and "t \<in> set MilestoneThresholds" and "t \<le> CountByCode (ck_ShortCode evt) db + 1"
    and "(ck_ShortCode evt, t) \<notin> set (milestones db)"
    and "processDelivery (e\<lparr>dl_commit := CommitFailed\<rparr>) body db db sent = (rep1, db1, sent1)"
    and "processDelivery e body db1 db1 sent1 = (rep2, db2, sent2)"
  shows "rep1 = NackRequeue \<and> rep2 = Ack \<and> db1 = db
    \<and> length (filter (for_milestone (ck_ShortCode evt) t) sent2)
      \<ge> length (filter (for_milestone (ck_ShortCode evt) t) sent) + 2"
proof -
  let ?n = "\<lambda>sent. length (filter (for_milestone (ck_ShortCode evt) t) sent)"
  let ?db = "insert_click (clickRecordFromEvent evt) (insert_processed (be_EventID evt) db)"
  have works: "\<forall>x. me_has (dl_milestone e x) = Works \<and> me_insert (dl_milestone e x) = Works
      \<and> me_publish (dl_milestone e x) = Works" using assms(1) by (simp add: all_works_def)
  have new: "(ck_ShortCode evt, t) \<notin> set (milestones ?db)"
    using assms(6) by (simp add: insert_click_def insert_processed_def)
  have tx: "\<exists>db' s. click_tx e evt db db sent = (Done (Some db'), s) \<and> ?n s \<ge> ?n sent + 1" for sent
  proof -
    obtain db' where "click_tx e evt db db sent = (Done (Some db'), snd (check_loop (dl_milestone e) (ck_ShortCode evt)
      (ck_UserID evt) (ck_UserEmail evt) (be_CorrelationID evt) (CountByCode (ck_ShortCode evt) db + 1) MilestoneThresholds
      ?db sent))" by (rule click_tx_works [OF assms(1,3)])
    with check_loop_announces [OF works assms(4,5) new] show ?thesis by blast
  qed
  have b: "dl_begin e = Works" "dl_commit e = Committed" using assms(1) by (simp_all add: all_works_def)
  have same: "click_tx (e\<lparr>dl_commit := CommitFailed\<rparr>) = click_tx e"     by (intro ext) (simp add: click_tx_def split: outcome.split)
  from tx [of sent] obtain db' s where 1: "click_tx e evt db db sent = (Done (Some db'), s)" "?n s \<ge> ?n sent + 1" by blast
  with assms(2,7) b have r1: "rep1 = NackRequeue" "db1 = db" "sent1 = s" by (simp_all add: processDelivery_def same)
  from tx [of s] obtain db'' s' where "click_tx e evt db db s = (Done (Some db''), s')" "?n s' \<ge> ?n s + 1" by blast
  with assms(2,8) b r1 have "rep2 = Ack" "sent2 = s'" by (simp_all add: processDelivery_def)
  with \<open>?n s' \<ge> ?n s + 1\<close> 1(2) r1 show ?thesis by simp
qed

definition nine_clicks :: anadb where
  "nine_clicks = empty_anadb\<lparr>clicks := replicate 9 (clickRecordFromEvent (demo_click ''1''))\<rparr>"

theorem rolled_back_milestone_repeats_witness:
  "let body = Some (json_URLClicked (demo_click ''x''));
       (_, db1, s1) = processDelivery (good_delivery\<lparr>dl_commit := CommitFailed\<rparr>) body nine_clicks nine_clicks [];
       (_, _, s2) = processDelivery good_delivery body db1 db1 s1
   in 2 \<le> length (filter (for_milestone ''abcdefg'' 10) s2)"
proof -
  let ?b = "Some (json_URLClicked (demo_click ''x''))"
  obtain r1 db1 s1 where 1: "processDelivery (good_delivery\<lparr>dl_commit := CommitFailed\<rparr>) ?b nine_clicks nine_clicks []
      = (r1, db1, s1)" by (metis prod_cases3)
  obtain r2 db2 s2 where 2: "processDelivery good_delivery ?b db1 db1 s1 = (r2, db2, s2)" by (metis prod_cases3)
  have w: "all_works good_delivery" by (simp add: all_works_def good_delivery_def good_milestone_def)
  have c: "CountByCode ''abcdefg'' nine_clicks = 9" by code_simp
  have p: "parseDelivery ?b = Some (demo_click ''x'')" by simp
  have "length (filter (for_milestone ''abcdefg'' 10) s2) \<ge> length (filter (for_milestone ''abcdefg'' 10) []) + 2"
    using rolled_back_milestone_repeats [OF w p _ _ _ _ 1 2, of 10] c
    by (simp add: nine_clicks_def empty_anadb_def demo_click_def MilestoneThresholds_def)
  then show ?thesis by (simp add: 1 2)
qed

end
