(* ===== verification/Processes.thy ===== *)
theory Processes
  imports Startup Gateway
begin

text \<open>
  How the five processes come up: the first half of each \<open>main.go\<close>, with \<open>db.go\<close>, \<open>redis.go\<close>,
  \<open>migrations.go\<close>, \<open>health.go\<close> and \<open>NewRateLimiter\<close>. A process reads its configuration, connects to
  what it needs and only then serves; a failure that is fatal ends it with exit code 1.

  Postgres, Redis and the broker are environments. A call to a server takes some time, or never
  returns; a context with a deadline cuts it off. Time is counted from the start of the process.
\<close>

section \<open>Calls under a deadline\<close>

record call =
  call_takes :: "duration option"
  call_works :: bool

text \<open>The call with \<open>budget\<close> left on its context: when it returns and whether it worked, \<open>None\<close> if
  it never returns.\<close>

definition within :: "duration option \<Rightarrow> call \<Rightarrow> (duration \<times> bool) option" where
  "within budget c =
     (case (budget, call_takes c) of
        (None, None) \<Rightarrow> None
      | (None, Some d) \<Rightarrow> Some (d, call_works c)
      | (Some b, None) \<Rightarrow> Some (b, False)
      | (Some b, Some d) \<Rightarrow> if d < b then Some (d, call_works c) else Some (b, False))"

text \<open>A process that is starting: it waits forever in a call, has ended with code 1, or has got
  something at an instant; for a whole \<open>main\<close> that is the instant it starts to listen.\<close>

datatype 'a boot = Hangs | Exits time | Ready time 'a

fun and_then :: "'a boot \<Rightarrow> (time \<Rightarrow> 'a \<Rightarrow> 'b boot) \<Rightarrow> 'b boot" where
  "and_then Hangs f = Hangs"
| "and_then (Exits t) f = Exits t"
| "and_then (Ready t x) f = f t x"

text \<open>\<open>if err != nil { os.Exit(1) }\<close> after a call that began at \<open>now\<close>.\<close>

definition fatal :: "time \<Rightarrow> (duration \<times> ('e + 'a)) option \<Rightarrow> 'a boot" where
  "fatal now r = (case r of None \<Rightarrow> Hangs | Some (d, Inl e) \<Rightarrow> Exits (now + d) | Some (d, Inr x) \<Rightarrow> Ready (now + d) x)"

section \<open>The database\<close>

record db_server =
  dbs_ParseConfig :: "string \<Rightarrow> bool"
  dbs_NewWithConfig :: bool
  dbs_Ping :: call
  dbs_migrate :: call

record pool =
  MaxConns :: int
  MinConns :: int

datatype db_error = ParseDatabaseURL | CreatePool | PingDB | RunMigrations

text \<open>\<open>NewDBPool\<close> of url-service, analytics-service and notification-service, which share the text;
  creating the pool does not wait for a connection.\<close>

definition NewDBPool :: "db_server \<Rightarrow> duration \<Rightarrow> string \<Rightarrow> (duration \<times> (db_error + pool)) option" where
  "NewDBPool D budget databaseURL =
     (if \<not> dbs_ParseConfig D databaseURL then Some (0, Inl ParseDatabaseURL)
      else if \<not> dbs_NewWithConfig D then Some (0, Inl CreatePool)
      else (case within (Some (min budget (10 * second))) (dbs_Ping D) of
              None \<Rightarrow> None
            | Some (d, ok) \<Rightarrow> Some (d, if ok then Inr \<lparr>MaxConns = 10, MinConns = 2\<rparr> else Inl PingDB)))"

text \<open>user-service pings without a deadline.\<close>

definition NewDBPool_user :: "db_server \<Rightarrow> string \<Rightarrow> (duration \<times> (db_error + pool)) option" where
  "NewDBPool_user D databaseURL =
     (if \<not> dbs_ParseConfig D databaseURL then Some (0, Inl ParseDatabaseURL)
      else if \<not> dbs_NewWithConfig D then Some (0, Inl CreatePool)
      else (case within None (dbs_Ping D) of
              None \<Rightarrow> None
            | Some (d, ok) \<Rightarrow> Some (d, if ok then Inr \<lparr>MaxConns = 10, MinConns = 2\<rparr> else Inl PingDB)))"

definition runMigrations :: "db_server \<Rightarrow> duration option \<Rightarrow> (duration \<times> (db_error + unit)) option" where
  "runMigrations D budget =
     (case within budget (dbs_migrate D) of
        None \<Rightarrow> None
      | Some (d, ok) \<Rightarrow> Some (d, if ok then Inr () else Inl RunMigrations))"

definition databaseStartupTimeout :: duration where "databaseStartupTimeout = 60 * second"

definition connectDatabase :: "db_server \<Rightarrow> string \<Rightarrow> pool boot" where
  "connectDatabase D url =
     and_then (fatal 0 (NewDBPool D databaseStartupTimeout url)) (\<lambda>t pool.
     and_then (fatal t (runMigrations D (Some (databaseStartupTimeout - t)))) (\<lambda>t _.
     Ready t pool))"

section \<open>Redis\<close>

text \<open>\<open>rds_ParseURL\<close> is the address that \<open>redis.ParseURL\<close> finds in a URL.\<close>

record redis_server =
  rds_ParseURL :: "string \<Rightarrow> string option"
  rds_Ping :: call

text \<open>url-service's client: the address it uses, whether the first ping worked, and how long that
  took. A URL that does not parse gives a client for a fixed address.\<close>

definition NewRedisClient :: "redis_server \<Rightarrow> string \<Rightarrow> string \<times> bool \<times> duration" where
  "NewRedisClient R redisURL =
     (case rds_ParseURL R redisURL of
        None \<Rightarrow> (''localhost:6379'', False, 0)
      | Some addr \<Rightarrow>
          (case within (Some (3 * second)) (rds_Ping R) of
             None \<Rightarrow> (addr, False, 0)
           | Some (d, ok) \<Rightarrow> (addr, ok, d)))"

text \<open>The gateway's limiter does not ping.\<close>

definition NewRateLimiter :: "redis_server \<Rightarrow> string \<Rightarrow> string option" where
  "NewRateLimiter R redisURL = rds_ParseURL R redisURL"

section \<open>The health endpoint\<close>

record HealthResponse =
  hr_Status :: string
  hr_Service :: string

text \<open>Every process has the same handler: the body is encoded once, when the handler is made.\<close>

definition NewHealthHandler :: "string \<Rightarrow> http_request \<Rightarrow> HealthResponse response" where
  "NewHealthHandler serviceName r = json_response 200 \<lparr>hr_Status = ''ok'', hr_Service = serviceName\<rparr>"

section \<open>The services\<close>

record url_process =
  up_cfg :: url_config
  up_pool :: pool
  up_redis :: string
  up_redisOK :: bool

definition url_main :: "environ \<Rightarrow> db_server \<Rightarrow> redis_server \<Rightarrow> dial_env \<Rightarrow> url_process boot" where
  "url_main env D R M =
     (case url_LoadConfig env of
        Inl e \<Rightarrow> Exits 0
      | Inr cfg \<Rightarrow>
          and_then (fatal 0 (NewDBPool D (15 * second) (urc_DatabaseURL cfg))) (\<lambda>t pool.
          and_then (fatal t (runMigrations D None)) (\<lambda>t _.
            let (addr, ok, d) = NewRedisClient R (urc_RedisURL cfg); t = t + d in
            (case NewRabbitMQConn_url M (t + 60 * second) 10 t of
               (Connected k, _, t) \<Rightarrow> Ready t \<lparr>up_cfg = cfg, up_pool = pool, up_redis = addr, up_redisOK = ok\<rparr>
             | (_, _, t) \<Rightarrow> Exits t))))"

record 'cfg consumer_process =
  cp_cfg :: 'cfg
  cp_pool :: pool

text \<open>\<open>declare_ok\<close> is whether the queue can be declared and bound. The connection loop of
  analytics-service is the text of notification-service's.\<close>

definition analytics_NewRabbitMQConn :: "dial_env \<Rightarrow> string \<Rightarrow> time \<Rightarrow> nat \<Rightarrow> time \<Rightarrow> mq_result \<times> time list \<times> time" where
  "analytics_NewRabbitMQConn e url deadline maxAttempts now =
     (if url = '''' then (MissingURL, [], now)
      else dial_loop e deadline maxAttempts 1 rabbitMQInitialBackoff now)"

definition connectRabbitMQ :: "dial_env \<Rightarrow> string \<Rightarrow> bool \<Rightarrow> time \<Rightarrow> unit boot" where
  "connectRabbitMQ M url declare_ok now =
     (case NewRabbitMQConn M url (now + rabbitMQStartupTimeout) rabbitMQAttempts now of
        (Connected k, _, t) \<Rightarrow> if declare_ok then Ready t () else Exits t
      | (_, _, t) \<Rightarrow> Exits t)"

definition analytics_connectRabbitMQ :: "dial_env \<Rightarrow> string \<Rightarrow> bool \<Rightarrow> time \<Rightarrow> unit boot" where
  "analytics_connectRabbitMQ M url declare_ok now =
     (case analytics_NewRabbitMQConn M url (now + rabbitMQStartupTimeout) rabbitMQAttempts now of
        (Connected k, _, t) \<Rightarrow> if declare_ok then Ready t () else Exits t
      | (_, _, t) \<Rightarrow> Exits t)"

definition analytics_main :: "environ \<Rightarrow> db_server \<Rightarrow> dial_env \<Rightarrow> bool \<Rightarrow> analytics_config consumer_process boot" where
  "analytics_main env D M declare_ok =
     (case analytics_LoadConfig env of
        Inl e \<Rightarrow> Exits 0
      | Inr cfg \<Rightarrow>
          and_then (connectDatabase D (anc_DatabaseURL cfg)) (\<lambda>t pool.
          and_then (analytics_connectRabbitMQ M (anc_RabbitMQURL cfg) declare_ok t) (\<lambda>t _.
          Ready t \<lparr>cp_cfg = cfg, cp_pool = pool\<rparr>)))"

definition notification_main :: "environ \<Rightarrow> db_server \<Rightarrow> dial_env \<Rightarrow> bool \<Rightarrow> notification_config consumer_process boot" where
  "notification_main env D M declare_ok =
     (case notification_LoadConfig env of
        Inl e \<Rightarrow> Exits 0
      | Inr cfg \<Rightarrow>
          and_then (connectDatabase D (ntc_DatabaseURL cfg)) (\<lambda>t pool.
          and_then (connectRabbitMQ M (ntc_RabbitMQURL cfg) declare_ok t) (\<lambda>t _.
          Ready t \<lparr>cp_cfg = cfg, cp_pool = pool\<rparr>)))"

text \<open>user-service hands its own context, which has no deadline, to both calls.\<close>

definition user_main :: "environ \<Rightarrow> db_server \<Rightarrow> bcrypt_lib \<Rightarrow> jwt_sign \<Rightarrow> user_deps boot" where
  "user_main env D B sign =
     (case user_loadConfig env of
        Inl e \<Rightarrow> Exits 0
      | Inr cfg \<Rightarrow>
          and_then (fatal 0 (NewDBPool_user D (usc_DatabaseURL cfg))) (\<lambda>t pool.
          and_then (fatal t (runMigrations D None)) (\<lambda>t _.
          Ready t (user_deps_of B sign cfg))))"

section \<open>The gateway\<close>

definition gw_upstreams :: "gateway_config \<Rightarrow> (string \<times> string) list" where
  "gw_upstreams cfg =
     [(''url-service'', gwc_URLServiceURL cfg), (''analytics-service'', gwc_AnalyticsServiceURL cfg),
      (''user-service'', gwc_UserServiceURL cfg), (''notification-service'', gwc_NotificationServiceURL cfg)]"

definition gw_handler_of :: "'b transport \<Rightarrow> url_parser \<Rightarrow> 'r counter_redis \<Rightarrow> time \<Rightarrow> gateway_config \<Rightarrow> ('r, 'b) gw_handler" where
  "gw_handler_of transport url_parse R now cfg =
     \<lparr>h_transport = transport, h_url_parse = url_parse, h_upstreams = gw_upstreams cfg,
      h_cfg = \<lparr>ShortenRateLimit = gwc_ShortenRateLimit cfg, RedirectRateLimit = gwc_RedirectRateLimit cfg\<rparr>,
      h_rateLimiter = Some (Allow R now)\<rparr>"

text \<open>\<open>now\<close> is the instant of the request. The breaker, with its two durations as \<open>int64\<close> products, and the gauge that starts at closed.\<close>

definition gw_breaker_of :: "time \<Rightarrow> CircuitBreakerConfig \<Rightarrow> CircuitBreaker" where
  "gw_breaker_of now cfg =
     WithStateChange (NewCircuitBreaker now (cbc_MaxFailures cfg) (i64 (cbc_OpenTimeoutSecs cfg * second))
       (i64 (cbc_FailureWindowSecs cfg * second)))"

definition gw_state_of :: "time \<Rightarrow> gateway_config \<Rightarrow> 'r \<Rightarrow> 'r gw_state" where
  "gw_state_of now cfg r =
     \<lparr>gw_limiter = r, gw_breaker = Some (gw_breaker_of now (gwc_CircuitBreaker cfg)),
      gw_metrics = recordCBState ''url-service'' StateClosed no_metrics\<rparr>"

definition gateway_main :: "string list \<Rightarrow> environ \<Rightarrow> redis_server \<Rightarrow> (string \<times> gateway_config) boot" where
  "gateway_main order env R =
     (case gw_loadConfig order env of
        Inl k \<Rightarrow> Exits 0
      | Inr cfg \<Rightarrow>
          (case NewRateLimiter R (gwc_RedisURL cfg) of
             None \<Rightarrow> Exits 0
           | Some addr \<Rightarrow> Ready 0 (addr, cfg)))"

section \<open>Lemmas\<close>

named_theorems boot_simps

lemma and_then_outcomes [boot_simps]:
  "and_then b f = Hangs \<longleftrightarrow> b = Hangs \<or> (\<exists>t x. b = Ready t x \<and> f t x = Hangs)"
  "and_then b f = Ready t' y \<longleftrightarrow> (\<exists>t x. b = Ready t x \<and> f t x = Ready t' y)"
  by (cases b; simp)+

lemma fatal_outcomes [boot_simps]:
  "fatal now r = Hangs \<longleftrightarrow> r = None"
  "fatal now r = Ready t x \<longleftrightarrow> (\<exists>d. r = Some (d, Inr x) \<and> t = now + d)"
  by (auto simp: fatal_def split: option.split sum.split)

definition answers :: "call \<Rightarrow> duration \<Rightarrow> bool" where
  "answers c d \<longleftrightarrow> call_works c \<and> call_takes c = Some d"

lemma within_outcomes [boot_simps]:
  "within budget c = None \<longleftrightarrow> budget = None \<and> call_takes c = None"
  "within (Some b) c = Some (d, True) \<longleftrightarrow> answers c d \<and> d < b"
  "within None c = Some (d, True) \<longleftrightarrow> answers c d"
  by (auto simp: within_def answers_def split: option.splits)

lemma NewDBPool_outcomes [boot_simps]:
  "NewDBPool D budget u \<noteq> None"
  "NewDBPool D budget u = Some (d, Inr p) \<longleftrightarrow> dbs_ParseConfig D u \<and> dbs_NewWithConfig D
     \<and> answers (dbs_Ping D) d \<and> d < min budget (10 * second) \<and> p = \<lparr>MaxConns = 10, MinConns = 2\<rparr>"
  "NewDBPool_user D u = None \<longleftrightarrow> dbs_ParseConfig D u \<and> dbs_NewWithConfig D \<and> call_takes (dbs_Ping D) = None"
  "NewDBPool_user D u = Some (d, Inr p) \<longleftrightarrow> dbs_ParseConfig D u \<and> dbs_NewWithConfig D
     \<and> answers (dbs_Ping D) d \<and> p = \<lparr>MaxConns = 10, MinConns = 2\<rparr>"
  by (auto simp: NewDBPool_def NewDBPool_user_def within_def answers_def split: option.splits)

lemma runMigrations_outcomes [boot_simps]:
  "runMigrations D budget = None \<longleftrightarrow> budget = None \<and> call_takes (dbs_migrate D) = None"
  "runMigrations D (Some b) = Some (d, Inr ()) \<longleftrightarrow> answers (dbs_migrate D) d \<and> d < b"
  "runMigrations D None = Some (d, Inr ()) \<longleftrightarrow> answers (dbs_migrate D) d"
  by (auto simp: runMigrations_def within_def answers_def split: option.splits)

text \<open>When the database is usable for the services with a deadline on the whole connection.\<close>

definition db_ready :: "db_server \<Rightarrow> string \<Rightarrow> bool" where
  "db_ready D u \<longleftrightarrow> dbs_ParseConfig D u \<and> dbs_NewWithConfig D \<and> (\<exists>p m. answers (dbs_Ping D) p \<and> p < 10 * second
     \<and> answers (dbs_migrate D) m \<and> p + m < databaseStartupTimeout)"

lemma connectDatabase_outcomes [boot_simps]:
  "connectDatabase D u \<noteq> Hangs" "(\<exists>t p. connectDatabase D u = Ready t p) \<longleftrightarrow> db_ready D u"
  by (auto simp: connectDatabase_def boot_simps db_ready_def databaseStartupTimeout_def second_def answers_def)

text \<open>The connection loops do not depend on when they start.\<close>

lemma timer_wins_shift: "timer_wins e a (deadline + d) (now + d) b = timer_wins e a deadline now b"
  by (auto simp: timer_wins_def)

lemma dial_loop_shift:
  "fst (dial_loop e (deadline + d) n a b (now + d)) = fst (dial_loop e deadline n a b now)"
proof (induction n arbitrary: a b now)
  case (Suc n)
  from Suc.IH [of "Suc a" "next_backoff b" "now + de_takes e a + b"]
  show ?case using timer_wins_shift [of e a deadline d "now + de_takes e a" b]
    by (simp add: Let_def ac_simps case_prod_beta')
qed simp

lemma dial_loop_url_shift:
  "fst (dial_loop_url e (deadline + d) n a b (now + d)) = fst (dial_loop_url e deadline n a b now)"
proof (induction n arbitrary: a b now)
  case (Suc n)
  from Suc.IH [of "Suc a" "min (b * 2) (30 * second)" "now + de_takes e a + b"]
  show ?case using timer_wins_shift [of e a deadline d "now + de_takes e a" b]
    by (simp add: Let_def ac_simps case_prod_beta')
qed simp

fun is_connected :: "mq_result \<Rightarrow> bool" where
  "is_connected (Connected k) = True"
| "is_connected _ = False"

text \<open>Whether the broker answers in time, counted from the start of the loop.\<close>

definition broker_ready :: "dial_env \<Rightarrow> bool" where
  "broker_ready M \<longleftrightarrow> is_connected (fst (dial_loop M rabbitMQStartupTimeout rabbitMQAttempts 1 rabbitMQInitialBackoff 0))"

definition broker_ready_url :: "dial_env \<Rightarrow> bool" where
  "broker_ready_url M \<longleftrightarrow> is_connected (fst (dial_loop_url M (60 * second) 10 1 second 0))"

lemma connectRabbitMQ_outcomes [boot_simps]:
  "connectRabbitMQ M u ok now \<noteq> Hangs" "analytics_connectRabbitMQ M u ok now \<noteq> Hangs"
  "(\<exists>t. connectRabbitMQ M u ok now = Ready t ()) \<longleftrightarrow> u \<noteq> '''' \<and> ok \<and> broker_ready M"
  "(\<exists>t. analytics_connectRabbitMQ M u ok now = Ready t ()) \<longleftrightarrow> u \<noteq> '''' \<and> ok \<and> broker_ready M"
proof -
  obtain r ts t where d: "dial_loop M (now + rabbitMQStartupTimeout) rabbitMQAttempts 1 rabbitMQInitialBackoff now = (r, ts, t)"
    by (metis prod_cases3)
  have "broker_ready M = is_connected r"
    using dial_loop_shift [of M rabbitMQStartupTimeout now rabbitMQAttempts 1 rabbitMQInitialBackoff 0] d
    by (simp add: broker_ready_def add.commute)
  with d show "connectRabbitMQ M u ok now \<noteq> Hangs" "analytics_connectRabbitMQ M u ok now \<noteq> Hangs"
    "(\<exists>t. connectRabbitMQ M u ok now = Ready t ()) \<longleftrightarrow> u \<noteq> '''' \<and> ok \<and> broker_ready M"
    "(\<exists>t. analytics_connectRabbitMQ M u ok now = Ready t ()) \<longleftrightarrow> u \<noteq> '''' \<and> ok \<and> broker_ready M"
    by (cases r; simp add: connectRabbitMQ_def analytics_connectRabbitMQ_def NewRabbitMQConn_def analytics_NewRabbitMQConn_def)+
qed

lemma url_broker_ready:
  "(\<exists>k ts t. NewRabbitMQConn_url M (now + 60 * second) 10 now = (Connected k, ts, t)) \<longleftrightarrow> broker_ready_url M"
proof -
  obtain r ts t where d: "dial_loop_url M (now + 60 * second) 10 1 second now = (r, ts, t)" by (metis prod_cases3)
  have "broker_ready_url M = is_connected r"
    using dial_loop_url_shift [of M "60 * second" now 10 1 second 0] d by (simp add: broker_ready_url_def add.commute)
  with d show ?thesis by (cases r) (auto simp: NewRabbitMQConn_url_def)
qed

section \<open>Properties\<close>

definition variables_set :: "environ \<Rightarrow> string list \<Rightarrow> bool" where
  "variables_set env ks \<longleftrightarrow> list_all (\<lambda>k. Getenv env k \<noteq> '''') ks"

lemma configs_complete:
  "(\<exists>cfg. url_LoadConfig env = Inr cfg) \<longleftrightarrow> variables_set env [''DATABASE_URL'', ''RABBITMQ_URL'', ''REDIS_URL'', ''JWT_SECRET'']"
  "(\<exists>cfg. analytics_LoadConfig env = Inr cfg) \<longleftrightarrow> variables_set env [''DATABASE_URL'', ''RABBITMQ_URL'']"
  "(\<exists>cfg. notification_LoadConfig env = Inr cfg) \<longleftrightarrow> variables_set env [''DATABASE_URL'', ''RABBITMQ_URL'', ''JWT_SECRET'']"
  "(\<exists>cfg. user_loadConfig env = Inr cfg) \<longleftrightarrow> variables_set env [''DATABASE_URL'', ''JWT_SECRET'']"
  by (simp_all add: url_LoadConfig_def analytics_LoadConfig_def notification_LoadConfig_def user_loadConfig_def variables_set_def Let_def)

lemma configs_fields:
  "url_LoadConfig env = Inr cu \<Longrightarrow> urc_DatabaseURL cu = Getenv env ''DATABASE_URL''"
  "analytics_LoadConfig env = Inr ca \<Longrightarrow> anc_DatabaseURL ca = Getenv env ''DATABASE_URL'' \<and> anc_RabbitMQURL ca \<noteq> ''''"
  "notification_LoadConfig env = Inr cn \<Longrightarrow> ntc_DatabaseURL cn = Getenv env ''DATABASE_URL'' \<and> ntc_RabbitMQURL cn \<noteq> ''''"
  "user_loadConfig env = Inr cs \<Longrightarrow> usc_DatabaseURL cs = Getenv env ''DATABASE_URL''"
  by (auto simp: url_LoadConfig_def analytics_LoadConfig_def notification_LoadConfig_def user_loadConfig_def Let_def split: if_splits)

lemma url_main_outcomes:
  "(\<exists>t p. url_main env D R M = Ready t p) \<longleftrightarrow> variables_set env [''DATABASE_URL'', ''RABBITMQ_URL'', ''REDIS_URL'', ''JWT_SECRET'']
     \<and> (\<exists>d p. NewDBPool D (15 * second) (Getenv env ''DATABASE_URL'') = Some (d, Inr p))
     \<and> (\<exists>m. answers (dbs_migrate D) m) \<and> broker_ready_url M" (is ?A)
  "url_main env D R M = Hangs \<longleftrightarrow> variables_set env [''DATABASE_URL'', ''RABBITMQ_URL'', ''REDIS_URL'', ''JWT_SECRET'']
     \<and> (\<exists>d p. NewDBPool D (15 * second) (Getenv env ''DATABASE_URL'') = Some (d, Inr p))
     \<and> call_takes (dbs_migrate D) = None" (is ?B)
proof -
  let ?tail = "\<lambda>cfg pool t. let (addr, ok, d) = NewRedisClient R (urc_RedisURL cfg); t = t + d in
            (case NewRabbitMQConn_url M (t + 60 * second) 10 t of
               (Connected k, _, t) \<Rightarrow> Ready t \<lparr>up_cfg = cfg, up_pool = pool, up_redis = addr, up_redisOK = ok\<rparr>
             | (_, _, t) \<Rightarrow> Exits t)"
  have tail: "(\<exists>t' p. ?tail cfg pool t = Ready t' p) \<longleftrightarrow> broker_ready_url M" "?tail cfg pool t \<noteq> Hangs" for cfg pool t
  proof -
    obtain addr ok d where n: "NewRedisClient R (urc_RedisURL cfg) = (addr, ok, d)" by (metis prod_cases3)
    obtain r ts t' where c: "NewRabbitMQConn_url M (t + d + 60 * second) 10 (t + d) = (r, ts, t')" by (metis prod_cases3)
    show "(\<exists>t' p. ?tail cfg pool t = Ready t' p) \<longleftrightarrow> broker_ready_url M" "?tail cfg pool t \<noteq> Hangs"
      using url_broker_ready [of M "t + d"] n c by (cases r; simp)+
  qed
  show ?A ?B
    using configs_complete(1) [of env] configs_fields(1) [of env] tail
    by (cases "url_LoadConfig env"; fastforce simp: url_main_def boot_simps)+
qed

lemma consumer_main_outcomes:
  "(\<exists>t p. analytics_main env D M ok = Ready t p) \<longleftrightarrow> variables_set env [''DATABASE_URL'', ''RABBITMQ_URL'']
     \<and> db_ready D (Getenv env ''DATABASE_URL'') \<and> ok \<and> broker_ready M"
  "(\<exists>t p. notification_main env D M ok = Ready t p) \<longleftrightarrow> variables_set env [''DATABASE_URL'', ''RABBITMQ_URL'', ''JWT_SECRET'']
     \<and> db_ready D (Getenv env ''DATABASE_URL'') \<and> ok \<and> broker_ready M"
  "analytics_main env D M ok \<noteq> Hangs" "notification_main env D M ok \<noteq> Hangs"
proof -
  show "(\<exists>t p. analytics_main env D M ok = Ready t p) \<longleftrightarrow> variables_set env [''DATABASE_URL'', ''RABBITMQ_URL'']
     \<and> db_ready D (Getenv env ''DATABASE_URL'') \<and> ok \<and> broker_ready M"
    using configs_complete(2) [of env] configs_fields(2) [of env] connectDatabase_outcomes(2) [of D "Getenv env ''DATABASE_URL''"]
      connectRabbitMQ_outcomes(4) [of M _ ok]
    by (cases "analytics_LoadConfig env"; simp add: analytics_main_def boot_simps; metis)
  show "(\<exists>t p. notification_main env D M ok = Ready t p) \<longleftrightarrow> variables_set env [''DATABASE_URL'', ''RABBITMQ_URL'', ''JWT_SECRET'']
     \<and> db_ready D (Getenv env ''DATABASE_URL'') \<and> ok \<and> broker_ready M"
    using configs_complete(3) [of env] configs_fields(3) [of env] connectDatabase_outcomes(2) [of D "Getenv env ''DATABASE_URL''"]
      connectRabbitMQ_outcomes(3) [of M _ ok]
    by (cases "notification_LoadConfig env"; simp add: notification_main_def boot_simps; metis)
  show "analytics_main env D M ok \<noteq> Hangs" "notification_main env D M ok \<noteq> Hangs"
    by (simp_all add: analytics_main_def notification_main_def boot_simps split: sum.split)
qed

lemma user_main_outcomes:
  "(\<exists>t p. user_main env D B sign = Ready t p) \<longleftrightarrow> variables_set env [''DATABASE_URL'', ''JWT_SECRET'']
     \<and> (\<exists>d p. NewDBPool_user D (Getenv env ''DATABASE_URL'') = Some (d, Inr p)) \<and> (\<exists>m. answers (dbs_migrate D) m)"
  "user_main env D B sign = Hangs \<longleftrightarrow> variables_set env [''DATABASE_URL'', ''JWT_SECRET'']
     \<and> (NewDBPool_user D (Getenv env ''DATABASE_URL'') = None
        \<or> (\<exists>d p. NewDBPool_user D (Getenv env ''DATABASE_URL'') = Some (d, Inr p)) \<and> call_takes (dbs_migrate D) = None)"
  using configs_complete(4) [of env] configs_fields(4) [of env]
  by (cases "user_loadConfig env"; fastforce simp: user_main_def boot_simps)+

lemma gateway_main_outcomes:
  assumes "set order = set gw_required"
  shows "(\<exists>t g. gateway_main order env R = Ready t g) \<longleftrightarrow> variables_set env gw_required \<and> rds_ParseURL R (Getenv env ''REDIS_URL'') \<noteq> None"
    and "gateway_main order env R \<noteq> Hangs"
proof -
  have "gwc_RedisURL cfg = Getenv env ''REDIS_URL''" if "gw_loadConfig order env = Inr cfg" for cfg
    using that by (cases "find (\<lambda>k. Getenv env k = '''') order") (simp_all add: gw_loadConfig_def Let_def, clarify, simp)
  with gateway_starts(1) [OF assms, of env]
  show "(\<exists>t g. gateway_main order env R = Ready t g) \<longleftrightarrow> variables_set env gw_required \<and> rds_ParseURL R (Getenv env ''REDIS_URL'') \<noteq> None"
    by (cases "gw_loadConfig order env") (auto simp: gateway_main_def NewRateLimiter_def variables_set_def list_all_iff split: option.split)
  show "gateway_main order env R \<noteq> Hangs"
    by (simp add: gateway_main_def split: sum.split option.split)
qed


definition demo_vars :: environ where
  "demo_vars = map_of [(''DATABASE_URL'', ''postgres://db''), (''RABBITMQ_URL'', ''amqp://mq''), (''REDIS_URL'', ''nonsense''),
     (''JWT_SECRET'', ''k'')]"

definition silent_db :: db_server where
  "silent_db = \<lparr>dbs_ParseConfig = (\<lambda>_. True), dbs_NewWithConfig = True,
     dbs_Ping = \<lparr>call_takes = None, call_works = False\<rparr>, dbs_migrate = \<lparr>call_takes = Some second, call_works = True\<rparr>\<rparr>"

definition healthy_db :: db_server where
  "healthy_db = silent_db\<lparr>dbs_Ping := \<lparr>call_takes = Some second, call_works = True\<rparr>\<rparr>"

definition no_redis :: redis_server where
  "no_redis = \<lparr>rds_ParseURL = (\<lambda>_. None), rds_Ping = \<lparr>call_takes = None, call_works = False\<rparr>\<rparr>"

definition live_broker :: dial_env where
  "live_broker = \<lparr>de_dial = (\<lambda>k. 3 \<le> k), de_channel = (\<lambda>_. True), de_exchange = True, de_takes = (\<lambda>_. second),
     de_tie = (\<lambda>_. True)\<rparr>"


section \<open>The gateway as it starts\<close>

lemma gw_loadConfig_addresses:
  assumes "set order = set gw_required" and "gw_loadConfig order env = Inr cfg"
  shows "gwc_URLServiceURL cfg \<noteq> ''''" "gwc_AnalyticsServiceURL cfg \<noteq> ''''" "gwc_UserServiceURL cfg \<noteq> ''''"
    "gwc_NotificationServiceURL cfg \<noteq> ''''" "gwc_JWTSecret cfg \<noteq> ''''"
proof -
  have "\<forall>k \<in> set gw_required. Getenv env k \<noteq> ''''" using gateway_starts(1) [OF assms(1), of env] assms(2) by blast
  then have v: "Getenv env ''URL_SERVICE_URL'' \<noteq> ''''" "Getenv env ''ANALYTICS_SERVICE_URL'' \<noteq> ''''"
    "Getenv env ''USER_SERVICE_URL'' \<noteq> ''''" "Getenv env ''NOTIFICATION_SERVICE_URL'' \<noteq> ''''" "Getenv env ''JWT_SECRET'' \<noteq> ''''"
    by (simp_all add: gw_required_def)
  have "gwc_URLServiceURL cfg = Getenv env ''URL_SERVICE_URL'' \<and> gwc_AnalyticsServiceURL cfg = Getenv env ''ANALYTICS_SERVICE_URL''
    \<and> gwc_UserServiceURL cfg = Getenv env ''USER_SERVICE_URL'' \<and> gwc_NotificationServiceURL cfg = Getenv env ''NOTIFICATION_SERVICE_URL''
    \<and> gwc_JWTSecret cfg = Getenv env ''JWT_SECRET''"
    using assms(2) by (cases "find (\<lambda>k. Getenv env k = '''') order") (simp_all add: gw_loadConfig_def Let_def, clarify, simp)
  with v show "gwc_URLServiceURL cfg \<noteq> ''''" "gwc_AnalyticsServiceURL cfg \<noteq> ''''" "gwc_UserServiceURL cfg \<noteq> ''''"
    "gwc_NotificationServiceURL cfg \<noteq> ''''" "gwc_JWTSecret cfg \<noteq> ''''" by simp_all
qed

text \<open>A gateway that serves has a non-empty address for every route of its table, so no request is ever
  answered with a missing upstream; its breaker is closed, and satisfies the invariant of
  \<open>CircuitBreaker\<close> if the configured number of failures is positive.\<close>

lemma gateway_as_started:
  assumes "set order = set gw_required" and "gateway_main order env R = Ready t (addr, cfg)"
  shows "\<forall>rt \<in> set routingTable. \<exists>url. map_of (h_upstreams (gw_handler_of transport url_parse C now cfg)) (Upstream rt) = Some url \<and> url \<noteq> ''''"
    and "\<exists>cb. gw_breaker (gw_state_of now cfg r) = Some cb \<and> cb_state cb = StateClosed
      \<and> (1 \<le> cbc_MaxFailures (gwc_CircuitBreaker cfg) \<longrightarrow> zero_time \<le> now \<longrightarrow> cb_inv now cb)"
proof -
  have c: "gw_loadConfig order env = Inr cfg"
    using assms(2) by (auto simp: gateway_main_def split: sum.splits option.splits)
  note a = gw_loadConfig_addresses [OF assms(1) c]
  have "list_all (\<lambda>rt. Upstream rt \<in> {''url-service'', ''analytics-service'', ''user-service'', ''notification-service''}) routingTable"
    by code_simp
  with a show "\<forall>rt \<in> set routingTable. \<exists>url. map_of (h_upstreams (gw_handler_of transport url_parse C now cfg)) (Upstream rt) = Some url \<and> url \<noteq> ''''"
    by (auto simp: list_all_iff gw_handler_of_def gw_upstreams_def)
  show "\<exists>cb. gw_breaker (gw_state_of now cfg r) = Some cb \<and> cb_state cb = StateClosed
      \<and> (1 \<le> cbc_MaxFailures (gwc_CircuitBreaker cfg) \<longrightarrow> zero_time \<le> now \<longrightarrow> cb_inv now cb)"
    using cb_inv_new [of "cbc_MaxFailures (gwc_CircuitBreaker cfg)" now]
    by (auto simp: gw_state_of_def gw_breaker_of_def WithStateChange_def NewCircuitBreaker_def cb_inv_def)
qed

end
