(* ===== verification/Lifecycle.thy ===== *)
theory Lifecycle
  imports Processes OutboxProps AnalyticsProps NotificationProps
begin

text \<open>
  How the processes live and end: \<open>Run\<close> of the two consumers, which waits on the context and on the
  channel of deliveries, and the second half of each \<open>main.go\<close>, which waits for a signal and shuts
  the server down.

  What the \<open>select\<close> of \<open>Run\<close> finds ready is an environment: a sequence of occurrences. The broker
  library closes the channel of deliveries when the connection is lost; nothing connects again.
\<close>

section \<open>The consumers\<close>

datatype 'd occurrence = ContextDone | DeliveriesClosed | Arrives 'd

datatype phase = Consuming | AwaitingShutdown | Returned

record 's consumer =
  cs_phase :: phase
  cs_healthy :: bool
  cs_tables :: 's

text \<open>Up to the loop: setting the prefetch and starting to consume are fatal when they fail
  (\<open>None\<close> is \<open>os.Exit(1)\<close>).\<close>

definition Run_start :: "bool \<Rightarrow> bool \<Rightarrow> 's \<Rightarrow> 's consumer option" where
  "Run_start qos_ok consume_ok s =
     (if \<not> qos_ok then None
      else if \<not> consume_ok then None
      else Some \<lparr>cs_phase = Consuming, cs_healthy = True, cs_tables = s\<rparr>)"

text \<open>One turn of the loop, with the reply to the broker if a message was processed; after the
  channel is closed only the context is waited for.\<close>

definition Run_turn :: "('d \<Rightarrow> 's \<Rightarrow> reply \<times> 's) \<Rightarrow> 'd occurrence \<Rightarrow> 's consumer \<Rightarrow> reply list \<times> 's consumer" where
  "Run_turn process x c =
     (case cs_phase c of
        Consuming \<Rightarrow>
          (case x of
             ContextDone \<Rightarrow> ([], c\<lparr>cs_healthy := False, cs_phase := Returned\<rparr>)
           | DeliveriesClosed \<Rightarrow> ([], c\<lparr>cs_healthy := False, cs_phase := AwaitingShutdown\<rparr>)
           | Arrives d \<Rightarrow> (case process d (cs_tables c) of (r, s) \<Rightarrow> ([r], c\<lparr>cs_tables := s\<rparr>)))
      | AwaitingShutdown \<Rightarrow> (if x = ContextDone then ([], c\<lparr>cs_phase := Returned\<rparr>) else ([], c))
      | Returned \<Rightarrow> ([], c))"

fun Run :: "('d \<Rightarrow> 's \<Rightarrow> reply \<times> 's) \<Rightarrow> 'd occurrence list \<Rightarrow> 's consumer \<Rightarrow> reply list \<times> 's consumer" where
  "Run process [] c = ([], c)"
| "Run process (x # xs) c =
     (case Run_turn process x c of (rs, c) \<Rightarrow>
      (case Run process xs c of (rs', c) \<Rightarrow> (rs @ rs', c)))"

definition ClickConsumer_Run :: "(delivery_env \<times> json option \<times> anadb) occurrence list
    \<Rightarrow> (anadb \<times> MilestoneReachedEvent list) consumer \<Rightarrow> reply list \<times> (anadb \<times> MilestoneReachedEvent list) consumer" where
  "ClickConsumer_Run = Run (\<lambda>(e, body, seen) (db, sent). processDelivery e body seen db sent)"

definition NotificationConsumer_Run :: "uuid_in \<Rightarrow> (json \<Rightarrow> json option) \<Rightarrow> (insert_env \<times> delivery) occurrence list
    \<Rightarrow> (Notification list \<times> mail list) consumer \<Rightarrow> reply list \<times> (Notification list \<times> mail list) consumer" where
  "NotificationConsumer_Run U J = Run (\<lambda>(e, d) (db, mails). processDelivery_notification U J e d db mails)"

section \<open>The end of a process\<close>

text \<open>\<open>srv.Shutdown\<close> with \<open>budget\<close> left on its context, \<open>None\<close> for a context without deadline, and the
  times that the requests in flight still need: when it returns. Its polling interval is left
  out. A request is answered if its time is up before the process ends.\<close>

definition Shutdown :: "duration option \<Rightarrow> duration list \<Rightarrow> duration" where
  "Shutdown budget busy =
     (let idle = fold max busy 0 in case budget of None \<Rightarrow> idle | Some b \<Rightarrow> min b idle)"

definition shutdownTimeout :: duration where "shutdownTimeout = 10 * second"

definition shutdownServer :: "duration list \<Rightarrow> duration" where
  "shutdownServer busy = Shutdown (Some shutdownTimeout) busy"

definition url_shutdown :: "duration list \<Rightarrow> duration" where
  "url_shutdown busy = Shutdown (Some (10 * second)) busy"

definition gateway_shutdown :: "duration list \<Rightarrow> duration" where
  "gateway_shutdown busy = Shutdown None busy"

text \<open>user-service shuts down in another goroutine, with a context that is cancelled already, while
  \<open>main\<close> returns as soon as \<open>ListenAndServe\<close> does, which is when the shutdown begins.\<close>

definition user_shutdown :: "duration list \<Rightarrow> duration" where
  "user_shutdown busy = min 0 (Shutdown (Some 0) busy)"

definition answered :: "duration \<Rightarrow> duration list \<Rightarrow> duration list" where
  "answered ends busy = filter (\<lambda>d. d \<le> ends) busy"

section \<open>Properties\<close>

lemma fold_max_ge:
  fixes d :: int
  shows "a \<le> fold max busy a \<and> (d \<in> set busy \<longrightarrow> d \<le> fold max busy a)"
proof (induction busy arbitrary: a)
  case (Cons b busy)
  from Cons [of "max b a"] show ?case by auto
qed simp

text \<open>Which requests survive a shutdown: all of them at the gateway, those that need at most ten
  seconds at url-, analytics- and notification-service, none that still has work to do at
  user-service.\<close>

lemma shutdown_drains:
  assumes "d \<in> set busy" and "0 < d"
  shows "d \<in> set (answered (gateway_shutdown busy) busy)"
    and "d \<in> set (answered (shutdownServer busy) busy) \<longleftrightarrow> d \<le> 10 * second"
    and "d \<in> set (answered (url_shutdown busy) busy) \<longleftrightarrow> d \<le> 10 * second"
    and "d \<notin> set (answered (user_shutdown busy) busy)"
  using assms fold_max_ge [of 0 busy d]
  by (auto simp: answered_def gateway_shutdown_def shutdownServer_def url_shutdown_def user_shutdown_def Shutdown_def
      shutdownTimeout_def)

lemma Run_append:
  "Run f (xs @ ys) c = (case Run f xs c of (rs, c) \<Rightarrow> case Run f ys c of (rs', c) \<Rightarrow> (rs @ rs', c))"
  by (induction xs arbitrary: c) (simp_all split: prod.split)

lemma Run_awaiting:
  "cs_phase c = AwaitingShutdown \<Longrightarrow> ContextDone \<notin> set xs \<Longrightarrow> Run f xs c = ([], c)"
  by (induction xs) (auto simp: Run_turn_def)

text \<open>What the messages alone do, one after the other.\<close>

fun process_all :: "('d \<Rightarrow> 's \<Rightarrow> reply \<times> 's) \<Rightarrow> 'd list \<Rightarrow> 's \<Rightarrow> reply list \<times> 's" where
  "process_all f [] s = ([], s)"
| "process_all f (d # ds) s = (case f d s of (r, s) \<Rightarrow> case process_all f ds s of (rs, s) \<Rightarrow> (r # rs, s))"

lemma Run_arrivals:
  "cs_phase c = Consuming \<Longrightarrow> process_all f ds (cs_tables c) = (rs, s) \<Longrightarrow> Run f (map Arrives ds) c = (rs, c\<lparr>cs_tables := s\<rparr>)"
proof (induction ds arbitrary: c rs)
  case (Cons d ds)
  obtain r s' where f: "f d (cs_tables c) = (r, s')" by (cases "f d (cs_tables c)")
  obtain rs' t where p: "process_all f ds s' = (rs', t)" by (cases "process_all f ds s'")
  with f Cons.prems have eq: "rs = r # rs'" "s = t" by simp_all
  with p have "Run f (map Arrives ds) (c\<lparr>cs_tables := s'\<rparr>) = (rs', c\<lparr>cs_tables := s', cs_tables := s\<rparr>)"
    using Cons.IH [of "c\<lparr>cs_tables := s'\<rparr>" rs'] Cons.prems(1) by simp
  then show ?case using f eq Cons.prems(1) by (simp add: Run_turn_def)
qed simp

lemma Run_lost_broker:
  assumes "Run_start True True s = Some c" and "ContextDone \<notin> set later"
  shows "Run f (map Arrives ds @ DeliveriesClosed # later) c
    = (fst (process_all f ds s), \<lparr>cs_phase = AwaitingShutdown, cs_healthy = False, cs_tables = snd (process_all f ds s)\<rparr>)"
proof -
  obtain rs s' where p: "process_all f ds s = (rs, s')" by (cases "process_all f ds s")
  have c: "c = \<lparr>cs_phase = Consuming, cs_healthy = True, cs_tables = s\<rparr>" using assms(1) by (simp add: Run_start_def)
  have "Run f (map Arrives ds) c = (rs, c\<lparr>cs_tables := s'\<rparr>)" by (rule Run_arrivals) (simp_all add: c p)
  then show ?thesis using assms(2) p by (simp add: Run_append Run_turn_def c Run_awaiting)
qed

abbreviation click_step where
  "click_step \<equiv> (\<lambda>(e, body, seen) (db, sent). processDelivery e body seen db sent)"

abbreviation mail_step where
  "mail_step U J \<equiv> (\<lambda>(e, d) (db, mails). processDelivery_notification U J e d db mails)"



end
