(* ===== verification/ClickPath.thy ===== *)
theory ClickPath
  imports Pipeline UrlProps
begin

text \<open>
  The way of a click: a redirect of url-service spawns a job, the job writes an event into the outbox,
  the coordinator publishes it, the broker delivers it until it is acknowledged, and
  analytics-service counts it. Each part has its own theory; here they are run one after the other,
  to show that without lasting faults no click is lost and none is counted twice.
\<close>

section \<open>Redirects and their jobs\<close>

type_synonym redirect_call = "time \<times> http_request \<times> string"

text \<open>Redirects served one after the other; each must be answered 308.\<close>

fun redirects :: "'c us_libs \<Rightarrow> redirect_call list \<Rightarrow> 'c us_state \<Rightarrow> bool \<times> 'c us_state" where
  "redirects L [] st = (True, st)"
| "redirects L ((now, r, code) # rs) st =
     (case HandleRedirect L None now r code st of
        (Ret resp, st) \<Rightarrow> if resp_status resp = 308 then redirects L rs st else (False, st)
      | (Panic, st) \<Rightarrow> (False, st))"

fun clicked_code :: "job \<Rightarrow> string option" where
  "clicked_code (ClickJob code uid email ip ua ref) = Some code"
| "clicked_code _ = None"

definition click_codes :: "job list \<Rightarrow> string list" where
  "click_codes js = List.map_filter clicked_code js"

lemma click_codes_simps [simp]:
  "click_codes [] = []" "click_codes (as @ bs) = click_codes as @ click_codes bs"
  "click_codes (j # js) = (case clicked_code j of None \<Rightarrow> click_codes js | Some c \<Rightarrow> c # click_codes js)"
  by (simp_all add: click_codes_def List.map_filter_def split: option.split)

lemma RedirectToURL_no_click:
  "RedirectToURL L fault now code addr db c = (res, jobs) \<Longrightarrow> click_codes jobs = []"
  by (auto simp: RedirectToURL_def split: option.splits sum.splits if_splits)

lemma redirect_spawns_click:
  assumes "HandleRedirect L None now r code st = (Ret resp, st')" and "resp_status resp = 308"
  shows "us_db st' = us_db st \<and> us_cache st' = us_cache st \<and> code \<noteq> ''''
    \<and> click_codes (us_jobs st') = click_codes (us_jobs st) @ [code]"
proof -
  have "resp_status (write_http_error e :: us_payload response) \<noteq> 308"
    if "RedirectToURL L None now code a (us_db st) (us_cache st) = (Ret (Inl e), js)" for e a js
    using that by (auto simp: RedirectToURL_def http_err_def write_http_error_def split: option.splits sum.splits if_splits)
  with assms RedirectToURL_no_click show ?thesis
    by (auto simp: HandleRedirect_def split: if_splits prod.splits go.splits sum.splits)
qed

lemma redirects_spawn_clicks:
  assumes "redirects L rs st = (True, st')"
  shows "us_db st' = us_db st \<and> click_codes (us_jobs st') = click_codes (us_jobs st) @ map (\<lambda>(_, _, code). code) rs
    \<and> '''' \<notin> (\<lambda>(_, _, code). code) ` set rs"
  using assms
proof (induction rs arbitrary: st)
  case (Cons x rs)
  obtain now r code where x: "x = (now, r, code)" by (metis prod_cases3)
  with Cons.prems obtain resp st1 where h: "HandleRedirect L None now r code st = (Ret resp, st1)" "resp_status resp = 308"
    "redirects L rs st1 = (True, st')"
    by (auto split: prod.splits go.splits if_splits)
  from redirect_spawns_click [OF h(1,2)] Cons.IH [OF h(3)] x show ?case by auto
qed simp

text \<open>Jobs run one after the other, each with its environment.\<close>

fun run_jobs :: "'c us_libs \<Rightarrow> (job_env \<times> job) list \<Rightarrow> urldb \<times> 'c \<Rightarrow> urldb \<times> 'c" where
  "run_jobs L [] s = s"
| "run_jobs L ((je, j) # rs) s = run_jobs L rs (run_job L je j s)"

fun event_of_job :: "job_env \<times> job \<Rightarrow> URLClickedEvent option" where
  "event_of_job (je, ClickJob code uid email ip ua ref) = Some (clicked_event je code uid email ip ua ref)"
| "event_of_job _ = None"

definition events_of_jobs :: "(job_env \<times> job) list \<Rightarrow> URLClickedEvent list" where
  "events_of_jobs rs = List.map_filter event_of_job rs"

lemma events_of_jobs_simps [simp]:
  "events_of_jobs [] = []"
  "events_of_jobs (r # rs) = (case event_of_job r of None \<Rightarrow> events_of_jobs rs | Some e \<Rightarrow> e # events_of_jobs rs)"
  by (simp_all add: events_of_jobs_def List.map_filter_def split: option.split)

lemma event_of_job_fields:
  "event_of_job (je, j) = Some e \<Longrightarrow> be_EventID e = je_eventID je \<and> clicked_code j = Some (ck_ShortCode e)"
  by (cases j) (auto simp: clicked_event_def URLClickedEvent.defs BaseEvent.defs NewBaseEvent_def)

lemma event_of_job_None: "event_of_job (je, j) = None \<longleftrightarrow> clicked_code j = None"
  by (cases j) auto

lemma events_codes: "map ck_ShortCode (events_of_jobs rs) = click_codes (map snd rs)"
proof (induction rs)
  case (Cons r rs)
  then show ?case using event_of_job_fields event_of_job_None by (cases r) (auto split: option.splits)
qed simp

text \<open>What the environments of the jobs must give: no fault of the database, UUIDs that Postgres
  accepts and that are new for the outbox rows, new and distinct ids for the events.\<close>

definition jobs_fair :: "uuid_in \<Rightarrow> urldb \<Rightarrow> (job_env \<times> job) list \<Rightarrow> bool" where
  "jobs_fair U db rs \<longleftrightarrow> (\<forall>(je, j) \<in> set rs. je_fault je = None \<and> U (je_outboxID je) = Some (je_outboxID je)
       \<and> je_outboxID je \<notin> ob_ID ` set (outbox db) \<and> je_eventID je \<noteq> '''')
     \<and> distinct (map (je_outboxID \<circ> fst) rs) \<and> distinct (map (je_eventID \<circ> fst) rs)"

definition pending_click :: "OutboxRecord \<Rightarrow> URLClickedEvent \<Rightarrow> bool" where
  "pending_click b e \<longleftrightarrow> ob_EventType b = event_name EventTypeURLClicked \<and> ob_Payload b = json_URLClicked e
     \<and> ob_PublishedAt b = None \<and> ob_LockedUntil b = None"

lemma run_jobs_outbox:
  assumes "uuid_laws (lib_uuid L)" and "jobs_fair (lib_uuid L) db rs" and "table_inv (lib_uuid L) db"
    and "run_jobs L rs (db, c) = (db', c')"
  shows "table_inv (lib_uuid L) db' \<and> (\<exists>bs. outbox db' = outbox db @ bs \<and> list_all2 pending_click bs (events_of_jobs rs))"
  using assms(2-4)
proof (induction rs arbitrary: db c)
  case (Cons r rs)
  obtain je j where r: "r = (je, j)" by (metis surj_pair)
  obtain db1 c1 where s: "run_job L je j (db, c) = (db1, c1)" by (metis surj_pair)
  have later: "run_jobs L rs (db1, c1) = (db', c')" using Cons.prems(3) r s by simp
  show ?case
  proof (cases "event_of_job (je, j)")
    case None
    then have "db1 = db" using s by (cases j) auto
    moreover have "jobs_fair (lib_uuid L) db rs" using Cons.prems(1) by (auto simp: jobs_fair_def)
    ultimately show ?thesis using Cons.IH [OF _ _ later] Cons.prems(2) None r by auto
  next
    case (Some e)
    let ?b = "\<lparr>ob_ID = je_outboxID je, ob_EventType = event_name EventTypeURLClicked, ob_Payload = json_URLClicked e,
         ob_CreatedAt = je_outboxTime je, ob_LockedUntil = None, ob_PublishedAt = None\<rparr>"
    let ?row = "?b\<lparr>ob_CreatedAt := timestamptz (je_outboxTime je)\<rparr>"
    have ok: "InsertEvent (lib_uuid L) (je_fault je) ?b db = Inr (db\<lparr>outbox := outbox db @ [?row]\<rparr>)"
      using Cons.prems(1) r by (auto simp: InsertEvent_def jobs_fair_def) (metis rev_image_eqI)
    then have db1: "db1 = db\<lparr>outbox := outbox db @ [?row]\<rparr>"
      using s Some by (cases j) (auto simp: writeAnalyticsEvent_def)
    have "table_inv (lib_uuid L) db1"
      using InsertEvent_table_inv [OF assms(1) Cons.prems(2) ok] db1 by simp
    moreover have "jobs_fair (lib_uuid L) db1 rs"
      using Cons.prems(1) r by (auto simp: jobs_fair_def db1 image_iff)
    ultimately obtain bs where "table_inv (lib_uuid L) db'" "outbox db' = outbox db1 @ bs" "list_all2 pending_click bs (events_of_jobs rs)"
      using Cons.IH [OF _ _ later] by blast
    moreover have "pending_click ?row e" by (simp add: pending_click_def)
    ultimately show ?thesis using Some r by (auto simp: db1)
  qed
qed simp

section \<open>Deliveries\<close>

text \<open>The queue, message by message, each delivered until it is acknowledged.\<close>

fun consume :: "(json option \<times> delivery_env list) list \<Rightarrow> anadb \<times> MilestoneReachedEvent list
    \<Rightarrow> bool \<times> anadb \<times> MilestoneReachedEvent list" where
  "consume [] s = (True, s)"
| "consume ((body, es) # ds) s =
     (case redeliver (click_deliver body) es s of
        (True, s) \<Rightarrow> consume ds s
      | (False, s) \<Rightarrow> (False, s))"

text \<open>No call panics, and at some delivery every call works.\<close>

definition recovers :: "delivery_env list \<Rightarrow> bool" where
  "recovers es \<longleftrightarrow> (\<forall>e \<in> set es. calm e) \<and> (\<exists>e \<in> set es. all_works e)"

lemma all_works_acks: "all_works e \<Longrightarrow> fst (click_deliver body e s) = Ack"
proof (cases "parseDelivery body")
  case (Some evt)
  assume w: "all_works e"
  show ?thesis
  proof (cases "be_EventID evt \<in> set (processed_events (fst s))")
    case True
    with w Some show ?thesis
      by (cases s) (simp add: click_deliver_def processDelivery_def click_tx_def all_works_def)
  next
    case False
    with processDelivery_works [OF w Some, of "fst s" "fst s" "snd s"] show ?thesis
      by (cases s) (auto simp: click_deliver_def)
  qed
qed (cases s, simp add: click_deliver_def processDelivery_def)

lemma redeliver_once:
  assumes "recovers es" and "parseDelivery body = Some evt"
  obtains db' sent' where "redeliver (click_deliver body) es (db, sent) = (True, db', sent')" "click_effect evt db db'"
proof -
  obtain e where e: "e \<in> set es" "all_works e" using assms(1) by (auto simp: recovers_def)
  have "fst (redeliver (click_deliver body) es (db, sent))"
    by (rule click_redelivery.redeliver_stops [OF e(1)]) (rule all_works_acks [OF e(2)])
  then obtain db' sent' where r: "redeliver (click_deliver body) es (db, sent) = (True, db', sent')"
    by (metis prod.collapse)
  have "calm e" if "e \<in> set es" for e using that assms(1) by (simp add: recovers_def)
  from click_redelivery.redeliver_effect [OF this r] assms(2) have "click_effect evt db db'"
    by (auto simp: click_eff_def)
  with r show thesis by (rule that)
qed

text \<open>Every body a click event, every event counted exactly once.\<close>

lemma consume_counts:
  assumes "\<forall>(body, es) \<in> set ds. recovers es \<and> parseDelivery body \<noteq> None"
  shows "\<exists>db' sent' evs. consume ds (db, sent) = (True, db', sent')
    \<and> clicks db' = clicks db @ map clickRecordFromEvent evs
    \<and> processed_events db' = processed_events db @ map be_EventID evs
    \<and> distinct (map be_EventID evs) \<and> set (map be_EventID evs) \<inter> set (processed_events db) = {}
    \<and> Some ` set evs \<subseteq> parseDelivery ` fst ` set ds
    \<and> (\<forall>(body, es) \<in> set ds. \<forall>e. parseDelivery body = Some e \<longrightarrow> be_EventID e \<in> set (processed_events db'))"
  using assms
proof (induction ds arbitrary: db sent)
  case (Cons d ds)
  obtain body es where d: "d = (body, es)" by (metis surj_pair)
  with Cons.prems obtain evt where p: "recovers es" "parseDelivery body = Some evt" by auto
  obtain db1 sent1 where r: "redeliver (click_deliver body) es (db, sent) = (True, db1, sent1)" and eff: "click_effect evt db db1"
    by (rule redeliver_once [OF p])
  have "\<forall>(body, es) \<in> set ds. recovers es \<and> parseDelivery body \<noteq> None" using Cons.prems by simp
  from Cons.IH [OF this, of db1 sent1] obtain db' sent' evs where i: "consume ds (db1, sent1) = (True, db', sent')"
    "clicks db' = clicks db1 @ map clickRecordFromEvent evs" "processed_events db' = processed_events db1 @ map be_EventID evs"
    "distinct (map be_EventID evs)" "set (map be_EventID evs) \<inter> set (processed_events db1) = {}"
    "Some ` set evs \<subseteq> parseDelivery ` fst ` set ds"
    "\<forall>(body, es) \<in> set ds. \<forall>e. parseDelivery body = Some e \<longrightarrow> be_EventID e \<in> set (processed_events db')"
    by blast
  show ?case
  proof (cases "be_EventID evt \<in> set (processed_events db)")
    case True
    with eff have "db1 = db" by (simp add: click_effect_def)
    with True i r d p show ?thesis by (intro exI [of _ db'] exI [of _ sent'] exI [of _ evs]) auto
  next
    case False
    with eff have "clicks db1 = clicks db @ [clickRecordFromEvent evt]"
      "processed_events db1 = processed_events db @ [be_EventID evt]" by (simp_all add: click_effect_def)
    with False i r d p show ?thesis
      by (intro exI [of _ db'] exI [of _ sent'] exI [of _ "evt # evs"]) auto
  qed
qed simp

text \<open>Two lists of events with distinct ids of which one is among the other and has the same ids.\<close>

lemma same_events:
  assumes "distinct (map be_EventID evs)" and "distinct (map be_EventID es)" and "set evs \<subseteq> set es"
    and "be_EventID ` set es \<subseteq> be_EventID ` set evs"
  shows "mset evs = mset es"
proof -
  have "set es \<subseteq> set evs"
  proof
    fix e assume e: "e \<in> set es"
    then obtain x where x: "x \<in> set evs" "be_EventID x = be_EventID e" using assms(4) by (metis image_iff subset_iff)
    with assms(2,3) e have "x = e" by (meson distinct_map inj_onD subset_iff)
    with x show "e \<in> set evs" by simp
  qed
  with assms(1-3) show ?thesis by (metis distinct_map set_eq_iff_mset_eq_distinct subset_antisym)
qed

section \<open>From a redirect to the statistics\<close>

lemma click_codes_perm: "mset js = mset js' \<Longrightarrow> mset (click_codes js) = mset (click_codes js')"
  by (simp add: click_codes_def List.map_filter_def)

lemma events_ids_distinct:
  "distinct (map (je_eventID \<circ> fst) rs) \<Longrightarrow> distinct (map be_EventID (events_of_jobs rs))
    \<and> be_EventID ` set (events_of_jobs rs) \<subseteq> (je_eventID \<circ> fst) ` set rs"
proof (induction rs)
  case (Cons r rs)
  obtain je j where r: "r = (je, j)" by (metis surj_pair)
  show ?case
  proof (cases "event_of_job (je, j)")
    case (Some e)
    with event_of_job_fields [OF Some] Cons r show ?thesis by auto
  qed (use Cons r in auto)
qed simp

lemma pending_clicks:
  assumes "pending db = []" and "outbox db' = outbox db @ bs" and "list_all2 pending_click bs es"
  shows "length (pending db') = length es \<and> all_claimable t db'
    \<and> set (map snd (pending db')) = (\<lambda>e. (event_name EventTypeURLClicked, json_URLClicked e)) ` set es"
proof -
  have "sort_key ob_CreatedAt (filter unpublished (outbox db)) = []" using assms(1) by (simp add: pending_def)
  then have "filter unpublished (outbox db) = []" by (metis set_empty set_sort)
  moreover have bs: "filter unpublished bs = bs" and rows: "\<forall>b \<in> set bs. ob_PublishedAt b = None \<and> ob_LockedUntil b = None"
    using assms(3) by (induction rule: list_all2_induct) (auto simp: pending_click_def unpublished_def)
  ultimately have un: "filter unpublished (outbox db') = bs" using assms(2) by simp
  then have p: "pending db' = map image_of (sort_key ob_CreatedAt bs)" by (simp add: pending_def)
  have "message_of ` set bs = (\<lambda>e. (event_name EventTypeURLClicked, json_URLClicked e)) ` set es"
    using assms(3) by (induction rule: list_all2_induct) (auto simp: pending_click_def message_of_def)
  moreover have "length bs = length es" using assms(3) by (rule list_all2_lengthD)
  moreover have "set (map snd (pending db')) = message_of ` set bs" by (simp add: p image_image image_of_def)
  moreover have "all_claimable t db'" using un rows by (simp add: all_claimable_def claimable_def)
  ultimately show ?thesis by (simp add: p)
qed

lemma click_parses:
  "be_EventID e \<noteq> '''' \<Longrightarrow> ck_ShortCode e \<noteq> '''' \<Longrightarrow> parseDelivery (Some (json_URLClicked e)) = Some e"
  by (simp add: parseDelivery_def URLClicked_decode)

lemma count_mset_list: "count (mset xs) x = count_list xs x"
  by (induction xs) auto

lemma count_clicks:
  assumes "clicks db' = clicks db @ map clickRecordFromEvent evs" and "mset evs = mset es"
  shows "CountByCode code db' = CountByCode code db + int (count (mset (map ck_ShortCode es)) code)"
proof -
  have "length (filter (\<lambda>c. cr_ShortCode c = code) (map clickRecordFromEvent evs)) = count (mset (map ck_ShortCode evs)) code"
    by (induction evs) (auto simp: clickRecordFromEvent_def)
  moreover have "mset (map ck_ShortCode evs) = mset (map ck_ShortCode es)" unfolding mset_map assms(2) ..
  ultimately show ?thesis using assms(1) by (simp add: CountByCode_def)
qed


text \<open>A URL is shortened, cached and its creation event published; then it is redirected to twice, and the
  first delivery of each click ends in a lost commit.\<close>

definition demo_cached :: "kv_view us_state" where
  "demo_cached = (case run_job demo_libs demo_je (hd (us_jobs demo_st1)) (us_db demo_st1, us_cache demo_st1) of
     (db, c) \<Rightarrow> demo_st1\<lparr>us_db := db, us_cache := c, us_jobs := tl (us_jobs demo_st1)\<rparr>)"

definition demo_idle :: "kv_view us_state" where
  "demo_idle = demo_cached\<lparr>us_db := snd (MarkPublished (lib_uuid demo_libs) None 0 ''i'' (us_db demo_cached))\<rparr>"

lemma demo_idle_reach: "reach (us_start (\<lambda>c. c)) (us_run demo_libs (\<lambda>c. c) demo_parse ''k'' ''http://s'' demo_ops) demo_idle"
proof -
  let ?run = "us_run demo_libs (\<lambda>c. c) demo_parse ''k'' ''http://s'' demo_ops"
  have "us_jobs demo_st1 \<noteq> []" by code_simp
  then obtain j ks where j: "us_jobs demo_st1 = [] @ j # ks" by (cases "us_jobs demo_st1") auto
  obtain db c where r: "run_job demo_libs demo_je j (us_db demo_st1, us_cache demo_st1) = (db, c)"
    by (cases "run_job demo_libs demo_je j (us_db demo_st1, us_cache demo_st1)")
  have "demo_cached = demo_st1\<lparr>us_db := db, us_cache := c, us_jobs := [] @ ks\<rparr>"
    using r j by (simp add: demo_cached_def)
  with us_job [OF j r] have "?run demo_st1 demo_cached" by (simp add: us_run_def)
  with demo_st1_reach have "reach (us_start (\<lambda>c. c)) ?run demo_cached" by (rule reach_step)
  moreover have "?run demo_cached demo_idle" unfolding demo_idle_def us_run_def by (simp add: us_mark)
  ultimately show ?thesis by (rule reach_step)
qed

definition two_redirects :: "redirect_call list" where
  "two_redirects = [(1000 * second, demo_http ''GET'' ''/abcdefg'', ''abcdefg''), (1001 * second, demo_http ''GET'' ''/abcdefg'', ''abcdefg'')]"

definition click_runs :: "job list \<Rightarrow> (job_env \<times> job) list" where
  "click_runs js = zip [demo_je\<lparr>je_eventID := ''e1'', je_outboxID := ''o1''\<rparr>, demo_je\<lparr>je_eventID := ''e2'', je_outboxID := ''o2''\<rparr>] js"

definition shaky :: "message list \<Rightarrow> (json option \<times> delivery_env list) list" where
  "shaky ms = map (\<lambda>(key, body). (Some body, [good_delivery\<lparr>dl_commit := CommitLost\<rparr>, good_delivery])) ms"


end
