(* ===== verification/UrlDirectory.thy ===== *)
theory UrlDirectory
  imports UrlActive
begin

text \<open>
  What url-service is for its clients: a directory of short codes. An entry is added under a fresh code
  and can be switched off, once and for good; nothing else ever happens to it. The service, with its
  retries, transactions, cache, goroutines and outbox, refines this directory.
\<close>

section \<open>The specification\<close>

record entry =
  en_URL :: string
  en_owner :: string
  en_email :: string
  en_expires :: "time option"
  en_active :: bool

type_synonym directory = "string \<rightharpoonup> entry"

inductive dir_step :: "directory \<Rightarrow> directory \<Rightarrow> bool" where
  dir_add: "d code = None \<Longrightarrow> en_active x \<Longrightarrow> dir_step d (d(code \<mapsto> x))"
| dir_switch_off: "d code = Some x \<Longrightarrow> en_active x \<Longrightarrow> dir_step d (d(code \<mapsto> x\<lparr>en_active := False\<rparr>))"

definition dir_start :: "directory \<Rightarrow> bool" where
  "dir_start d \<longleftrightarrow> d = Map.empty"

text \<open>What a redirect of a code should answer: nothing for an unknown code.\<close>

datatype answer = Unknown | Gone | Moved string

definition dir_lookup :: "time \<Rightarrow> string \<Rightarrow> directory \<Rightarrow> answer" where
  "dir_lookup now code d =
     (case d code of
        None \<Rightarrow> Unknown
      | Some x \<Rightarrow> if en_active x \<and> \<not> expired now (en_expires x) then Moved (en_URL x) else Gone)"

text \<open>An entry stays, with its URL, owner and expiry, and is never switched on again.\<close>

definition entries_stay :: "directory \<Rightarrow> directory \<Rightarrow> bool" where
  "entries_stay d d' \<longleftrightarrow> (\<forall>code x. d code = Some x \<longrightarrow>
     (\<exists>b. d' code = Some (x\<lparr>en_active := b\<rparr>) \<and> (b \<longrightarrow> en_active x)))"

lemma dir_step_stay: "dir_step d d' \<Longrightarrow> entries_stay d d'"
proof -
  have same: "\<exists>b. x = x\<lparr>en_active := b\<rparr> \<and> (b \<longrightarrow> en_active x)" for x :: entry
    by (intro exI [of _ "en_active x"]) simp
  show "dir_step d d' \<Longrightarrow> entries_stay d d'"
    by (induction rule: dir_step.induct) (auto simp: entries_stay_def same)
qed

lemma dir_steps_stay: "dir_step\<^sup>*\<^sup>* d d' \<Longrightarrow> entries_stay d d'"
proof (induction rule: rtranclp_induct)
  case base
  have "x = x\<lparr>en_active := en_active x\<rparr>" for x :: entry by simp
  then show ?case unfolding entries_stay_def by metis
next
  case (step d1 d2)
  show ?case unfolding entries_stay_def
  proof (intro allI impI)
    fix code x assume "d code = Some x"
    with step.IH obtain b where b: "d1 code = Some (x\<lparr>en_active := b\<rparr>)" "b \<longrightarrow> en_active x"
      unfolding entries_stay_def by blast
    with dir_step_stay [OF step.hyps(2)] obtain b' where
      "d2 code = Some (x\<lparr>en_active := b, en_active := b'\<rparr>)" "b' \<longrightarrow> en_active (x\<lparr>en_active := b\<rparr>)"
      unfolding entries_stay_def by blast
    with b(2) show "\<exists>b. d2 code = Some (x\<lparr>en_active := b\<rparr>) \<and> (b \<longrightarrow> en_active x)" by auto
  qed
qed

section \<open>The service as a directory\<close>

definition entry_of :: "URLRecord \<Rightarrow> entry" where
  "entry_of r = \<lparr>en_URL = ur_OriginalURL r, en_owner = ur_UserID r, en_email = ur_UserEmail r,
     en_expires = ur_ExpiresAt r, en_active = ur_IsActive r\<rparr>"

definition dir_of :: "urldb \<Rightarrow> directory" where
  "dir_of db = map_of (map (\<lambda>r. (ur_ShortCode r, entry_of r)) (urls db))"

lemma dir_of_None: "dir_of db code = None \<longleftrightarrow> code \<notin> ur_ShortCode ` set (urls db)"
  by (auto simp: dir_of_def map_of_eq_None_iff image_image)

lemma dir_of_row:
  "table_inv U db \<Longrightarrow> r \<in> set (urls db) \<Longrightarrow> dir_of db (ur_ShortCode r) = Some (entry_of r)"
  unfolding dir_of_def by (rule map_of_is_SomeI) (auto simp: table_inv_def comp_def)

lemma dir_of_Some:
  "dir_of db code = Some x \<Longrightarrow> \<exists>r \<in> set (urls db). ur_ShortCode r = code \<and> entry_of r = x"
  unfolding dir_of_def by (auto dest!: map_of_SomeD)

text \<open>A new row at the end of the table is an entry under a fresh code.\<close>

lemma dir_of_insert:
  assumes "urls db' = urls db @ [r]" and "ur_ShortCode r \<notin> ur_ShortCode ` set (urls db)"
  shows "dir_of db' = (dir_of db)(ur_ShortCode r \<mapsto> entry_of r)"
proof -
  have "map_of (xs @ [(k, v)]) = (map_of xs)(k \<mapsto> v)" if "k \<notin> fst ` set xs" for xs :: "(string \<times> entry) list" and k v
    using that by (induction xs) (auto simp: fun_upd_twist)
  with assms show ?thesis by (simp add: dir_of_def image_image)
qed

lemma shorten_tx_dir:
  assumes "shorten_tx U a code url uid email t db = Inr db'"
  shows "dir_step (dir_of db) (dir_of db')"
  using assms
proof (rule shorten_tx_row)
  fix i u c assume f: "code \<notin> ur_ShortCode ` set (urls db)" and
    u: "urls db' = urls db @ [\<lparr>ur_ID = i, ur_ShortCode = code, ur_OriginalURL = url, ur_UserID = u,
       ur_UserEmail = email, ur_CreatedAt = c, ur_ExpiresAt = Some (timestamptz t), ur_IsActive = True\<rparr>]"
  have "dir_of db code = None" using f by (simp add: dir_of_None)
  then show ?thesis by (subst dir_of_insert [OF u]) (use f in \<open>auto intro!: dir_add simp: entry_of_def\<close>)
qed

text \<open>The statement of a deactivation hits one row.\<close>

lemma map_of_update_one:
  assumes "distinct (map ur_ShortCode rs)" and "r \<in> set rs" and "owned_active code u r"
  shows "map_of (map (\<lambda>r. (ur_ShortCode r, entry_of r)) (update_where (owned_active code u) (\<lambda>r. r\<lparr>ur_IsActive := False\<rparr>) rs))
    = (map_of (map (\<lambda>r. (ur_ShortCode r, entry_of r)) rs))(code \<mapsto> (entry_of r)\<lparr>en_active := False\<rparr>)"
  using assms
proof (induction rs)
  case (Cons x rs)
  show ?case
  proof (cases "owned_active code u x")
    case True
    then have "\<forall>y \<in> set rs. \<not> owned_active code u y" and "x = r"
      using Cons.prems by (auto simp: owned_active_def image_iff)
    with True show ?thesis by (auto simp: update_where_id owned_active_def entry_of_def fun_eq_iff)
  next
    case False
    with Cons.prems have r: "r \<in> set rs" "ur_ShortCode x \<noteq> code" by (auto simp: owned_active_def image_iff)
    with Cons False show ?thesis by (auto simp: fun_eq_iff)
  qed
qed simp

lemma deactivate_tx_dir:
  assumes "table_inv U db" and "deactivate_tx U d code uid email db = Inr db'"
  shows "dir_step (dir_of db) (dir_of db')"
proof -
  from assms(2) obtain db1 where
    i: "Deactivate U (de_updateFault d) code uid db = Inr db1" and e: "urls db' = urls db1"
    by (auto simp: deactivate_tx_def split: sum.splits elim!: InsertEvent_Inr)
  from i obtain u r where r: "r \<in> set (urls db)" "owned_active code u r"
    and db1: "db1 = db\<lparr>urls := update_where (owned_active code u) (\<lambda>r. r\<lparr>ur_IsActive := False\<rparr>) (urls db)\<rparr>"
    by (rule Deactivate_Inr) blast
  have "distinct (map ur_ShortCode (urls db))" using assms(1) by (simp add: table_inv_def)
  from map_of_update_one [OF this r] have "dir_of db' = (dir_of db)(code \<mapsto> (entry_of r)\<lparr>en_active := False\<rparr>)"
    by (simp add: dir_of_def e db1)
  moreover have "dir_of db code = Some (entry_of r)" "en_active (entry_of r)"
    using dir_of_row [OF assms(1) r(1)] r(2) by (simp_all add: owned_active_def entry_of_def)
  ultimately show ?thesis by (simp add: dir_switch_off)
qed

interpretation dir: table_relation L "\<lambda>db db'. dir_step\<^sup>*\<^sup>* (dir_of db) (dir_of db')" for L :: "'c us_libs"
proof unfold_locales
  show "dir_step\<^sup>*\<^sup>* (dir_of db) (dir_of db')" if "urls db' = urls db" for db db' :: urldb
    using that by (simp add: dir_of_def)
qed (auto intro: shorten_tx_dir deactivate_tx_dir)

interpretation directory: refines "us_start view" "us_run L view parse secret base ops" "us_inv L view"
  dir_start dir_step "\<lambda>st. dir_of (us_db st)"
proof unfold_locales
  show "dir_start (dir_of (us_db st))" if "us_start view st" for st :: "'a us_state"
    using that by (simp add: us_start_def dir_start_def dir_of_def empty_db_def)
  show "dir_step\<^sup>*\<^sup>* (dir_of (us_db st)) (dir_of (us_db st'))"
    if "us_inv L view st" "us_run L view parse secret base ops st st'" for st st'
    using that dir.us_run_rel by blast
qed

section \<open>Redirects answer from the directory\<close>

definition redirect_follows :: "(HTTPError + RedirectInfo) go \<Rightarrow> bool \<Rightarrow> time \<Rightarrow> string \<Rightarrow> directory \<Rightarrow> bool" where
  "redirect_follows res cached now code d \<longleftrightarrow>
     (case res of
        Panic \<Rightarrow> dir_lookup now code d = Unknown
      | Ret (Inl e) \<Rightarrow> he_Status e = 410 \<and> dir_lookup now code d = Gone
      | Ret (Inr info) \<Rightarrow> (\<exists>x. d code = Some x \<and> en_URL x = ri_OriginalURL info)
          \<and> (\<not> cached \<longrightarrow> dir_lookup now code d = Moved (ri_OriginalURL info)))"

lemma cached_agrees:
  assumes "us_inv L view st" and "kv_laws (lib_redis L) view" and "cache_Get (lib_redis L) now code (us_cache st) = Some u"
  shows "agrees (lib_uuid L) (us_db st) code u"
proof -
  obtain v d where "view (us_cache st) code = Some (v, d)" "Unmarshal CachedURL_fields zero_CachedURL v = Some u"
    using cache_Get_Some [OF assms(2,3)] by blast
  with assms(1) show ?thesis by (auto simp: us_inv_def cache_inv_def)
qed

lemma redirect_from_directory:
  assumes inv: "us_inv L view st" and kv: "kv_laws (lib_redis L) view"
  shows "redirect_follows (fst (RedirectToURL L None now code addr (us_db st) (us_cache st)))
    (cache_Get (lib_redis L) now code (us_cache st) \<noteq> None) now code (dir_of (us_db st))"
proof (cases "cache_Get (lib_redis L) now code (us_cache st)")
  case (Some u)
  from cached_agrees [OF inv kv Some] obtain r where r: "r \<in> set (urls (us_db st))" "ur_ShortCode r = code"
    "ur_OriginalURL r = cu_OriginalURL u" "ur_ExpiresAt r = map_option timestamptz (cu_ExpiresAt u)" "cu_IsActive u"
    by (auto simp: agrees_def)
  have "table_inv (lib_uuid L) (us_db st)" using inv by (simp add: us_inv_def outbox_inv_def)
  from dir_of_row [OF this r(1)] r(2) have d: "dir_of (us_db st) code = Some (entry_of r)" by simp
  have "expired now (cu_ExpiresAt u) \<Longrightarrow> expired now (ur_ExpiresAt r)"
    using r(4) timestamptz_le by (auto simp: expired_def split: option.splits) (meson le_less_trans)
  with Some r(3,5) d show ?thesis by (auto simp: RedirectToURL_def redirect_follows_def dir_lookup_def entry_of_def http_err_def)
next
  case None
  show ?thesis
  proof (cases "code \<in> ur_ShortCode ` set (urls (us_db st))")
    case False
    with None show ?thesis
      by (simp add: RedirectToURL_def FindByCode_missing redirect_follows_def dir_lookup_def dir_of_None [THEN iffD2])
  next
    case True
    then obtain r where r: "r \<in> set (urls (us_db st))" "ur_ShortCode r = code" by auto
    have t: "table_inv (lib_uuid L) (us_db st)" using inv by (simp add: us_inv_def outbox_inv_def)
    from dir_of_row [OF t r(1)] FindByCode_row [OF t r(1)] r(2) None show ?thesis
      by (auto simp: RedirectToURL_def redirect_follows_def dir_lookup_def entry_of_def http_err_def)
  qed
qed

text \<open>C2: url-service refines the directory: in every reachable state the URL table is a reachable
  directory; whatever the service does next, through retries, lost commits, goroutines and the
  coordinator, is a sequence of additions under fresh codes and of switching off, so that no entry
  disappears, changes its URL, owner or expiry, or comes back to life; and a redirect answers from
  the directory: it panics only for an unknown code, says 410 only for an entry that is off or
  expired, gives the entry's URL otherwise, and without the cache's help only when the entry is on
  and not expired.\<close>

theorem url_service_refines_directory:
  assumes "kv_laws (lib_redis L) view" and "reach (us_start view) (us_run L view parse secret base ops) st"
    and "(us_run L view parse secret base ops)\<^sup>*\<^sup>* st st'"
  shows "reach dir_start dir_step (dir_of (us_db st)) \<and> dir_step\<^sup>*\<^sup>* (dir_of (us_db st)) (dir_of (us_db st'))
    \<and> entries_stay (dir_of (us_db st)) (dir_of (us_db st'))
    \<and> redirect_follows (fst (RedirectToURL L None now code addr (us_db st) (us_cache st)))
        (cache_Get (lib_redis L) now code (us_cache st) \<noteq> None) now code (dir_of (us_db st))"
proof -
  have inv: "us_inv L view st" by (rule url_service.inv_reach [OF assms(2)])
  from dir.us_runs_rel [OF assms(3) inv] have "dir_step\<^sup>*\<^sup>* (dir_of (us_db st)) (dir_of (us_db st'))" by simp
  with dir_steps_stay [OF this] directory.refinement [OF assms(2)] redirect_from_directory [OF inv assms(1)]
  show ?thesis by blast
qed

theorem url_service_refines_directory_witness:
  "dir_lookup 0 ''abcdefg'' (dir_of (us_db demo_st1)) = Moved ''http://a.b/''
   \<and> dir_lookup 0 ''abcdefg'' (dir_of (us_db demo_st3)) = Gone
   \<and> entries_stay (dir_of (us_db demo_st1)) (dir_of (us_db demo_st3))"
proof -
  have "(us_run demo_libs (\<lambda>c. c) demo_parse ''k'' ''http://s'' demo_ops)\<^sup>*\<^sup>* demo_st1 demo_st3"
    using demo_runs by (rule converse_rtranclp_into_rtranclp [OF _ r_into_rtranclp])
  from url_service_refines_directory [OF demo_libs_laws(1) demo_st1_reach this]
  have "entries_stay (dir_of (us_db demo_st1)) (dir_of (us_db demo_st3))" by blast
  moreover have "dir_lookup 0 ''abcdefg'' (dir_of (us_db demo_st1)) = Moved ''http://a.b/''"
    "dir_lookup 0 ''abcdefg'' (dir_of (us_db demo_st3)) = Gone" by code_simp+
  ultimately show ?thesis by blast
qed

end
