(* ===== verification/UrlInterleaved.thy ===== *)
theory UrlInterleaved
  imports UrlProps
begin

text \<open>
  url-service with its requests in pieces. \<open>UrlSystem\<close> runs a request from start to end; here the
  requests that make several calls into the database or Redis are flights that anything can overtake
  between two calls: \<open>ShortenURL\<close> between the attempts of its loop, \<open>RedirectToURL\<close> between the cache and
  the table, \<open>DeactivateURL\<close> between the commit and the removal from the cache. A transaction or a single
  statement remains one piece, as the database makes it one. Undisturbed pieces make up the operations
  of \<open>UrlService\<close>, and the invariant of \<open>UrlSystem\<close> holds whatever overtakes them.
\<close>

section \<open>The pieces\<close>

datatype flight =
    Shortening string string string int time "nat \<Rightarrow> attempt" nat
  | Querying http_request string "dberr option" time
  | Clearing deactivation string

definition shorten_begin :: "'c us_libs \<Rightarrow> time \<Rightarrow> (nat \<Rightarrow> attempt) \<Rightarrow> string \<Rightarrow> string \<Rightarrow> string \<Rightarrow> int \<Rightarrow> flight option" where
  "shorten_begin L now A url userID userEmail expiresInHours =
     (case ValidateURL (lib_parseURL L) url of
        Some _ \<Rightarrow> None
      | None \<Rightarrow>
          let expiresInHours = normalize_hours expiresInHours
          in Some (Shortening url userID userEmail expiresInHours (now + expiresInHours * hour) A 0))"

text \<open>One turn of the loop, with what is left of the flight.\<close>

definition shorten_turn :: "'c us_libs \<Rightarrow> string \<Rightarrow> string \<Rightarrow> string \<Rightarrow> int \<Rightarrow> time \<Rightarrow> (nat \<Rightarrow> attempt) \<Rightarrow> nat
    \<Rightarrow> 'c us_state \<Rightarrow> flight option \<times> 'c us_state" where
  "shorten_turn L url userID userEmail hours expiresAt A attempt st =
     (if attempt < 3 then
        (case at_Generate (A attempt) of
           Panic \<Rightarrow> (None, st)
         | Ret shortCode \<Rightarrow>
            (case at_tx (A attempt) (shorten_tx (lib_uuid L) (A attempt) shortCode url userID userEmail expiresAt) (us_db st) of
               (None, db) \<Rightarrow>
                 (None, st\<lparr>us_db := db, us_jobs := us_jobs st @
                   [SetJob shortCode
                      \<lparr>cu_OriginalURL = url, cu_UserID = userID, cu_UserEmail = userEmail,
                       cu_ExpiresAt = Some expiresAt, cu_IsActive = True\<rparr>
                      (hours * hour)]\<rparr>)
             | (Some err, db) \<Rightarrow>
                 (if err = unique_violation
                  then Some (Shortening url userID userEmail hours expiresAt A (attempt + 1)) else None,
                  st\<lparr>us_db := db\<rparr>)))
      else (None, st))"

text \<open>A redirect whose cache lookup missed, from the query on. The second job is the one that \<open>HandleRedirect\<close>
  starts for a redirect that succeeds; an inactive, expired or missing row starts none.\<close>

definition redirect_query :: "'c us_libs \<Rightarrow> http_request \<Rightarrow> string \<Rightarrow> dberr option \<Rightarrow> time \<Rightarrow> 'c us_state \<Rightarrow> 'c us_state" where
  "redirect_query L r shortcode fault now st =
     (case FindByCode fault shortcode (us_db st) of
        Inl err \<Rightarrow> st
      | Inr None \<Rightarrow> st
      | Inr (Some urlRecord) \<Rightarrow>
          if \<not> ur_IsActive urlRecord then st
          else if expired now (ur_ExpiresAt urlRecord) then st
          else st\<lparr>us_jobs := us_jobs st @
                 [FillJob shortcode urlRecord,
                  ClickJob shortcode (ur_UserID urlRecord) (ur_UserEmail urlRecord) (hashIP (lib_sha256 L) (req_remoteAddr r))
                    (header_get (req_headers r) ''User-Agent'') (header_get (req_headers r) ''Referer'')]\<rparr>)"

definition deactivate_commit :: "'c us_libs \<Rightarrow> deactivation \<Rightarrow> string \<Rightarrow> string \<Rightarrow> string \<Rightarrow> 'c us_state
    \<Rightarrow> flight option \<times> 'c us_state" where
  "deactivate_commit L d shortCode userID userEmail st =
     (case de_tx d (deactivate_tx (lib_uuid L) d shortCode userID userEmail) (us_db st) of
        (Some err, db) \<Rightarrow> (None, st\<lparr>us_db := db\<rparr>)
      | (None, db) \<Rightarrow> (Some (Clearing d shortCode), st\<lparr>us_db := db\<rparr>))"

definition deactivate_clear :: "'c us_libs \<Rightarrow> deactivation \<Rightarrow> string \<Rightarrow> 'c us_state \<Rightarrow> 'c us_state" where
  "deactivate_clear L d shortCode st =
     st\<lparr>us_cache := snd (cache_Delete (lib_redis L) (de_cacheTime d) shortCode (us_cache st))\<rparr>"

fun flight_piece :: "'c us_libs \<Rightarrow> flight \<Rightarrow> 'c us_state \<Rightarrow> flight option \<times> 'c us_state" where
  "flight_piece L (Shortening url uid email h t A n) st = shorten_turn L url uid email h t A n st"
| "flight_piece L (Querying r code fault now) st = (None, redirect_query L r code fault now st)"
| "flight_piece L (Clearing d code) st = (None, deactivate_clear L d code st)"

section \<open>Undisturbed pieces are the operations\<close>

text \<open>A flight alone to its end; it has at most four pieces.\<close>

fun fly :: "'c us_libs \<Rightarrow> nat \<Rightarrow> flight option \<Rightarrow> 'c us_state \<Rightarrow> flight option \<times> 'c us_state" where
  "fly L k None st = (None, st)"
| "fly L 0 f st = (f, st)"
| "fly L (Suc k) (Some f) st = (case flight_piece L f st of (f, st) \<Rightarrow> fly L k f st)"

lemma fly_shortening:
  assumes "shorten_loop (lib_uuid L) A url uid email t n (us_db st) = (res, sleeps, db)" and "n \<le> 3" and "3 - n < k"
  shows "fly L k (Some (Shortening url uid email h t A n)) st = (None, st\<lparr>us_db := db, us_jobs := us_jobs st @
    (case res of Inserted code \<Rightarrow> [SetJob code \<lparr>cu_OriginalURL = url, cu_UserID = uid, cu_UserEmail = email,
        cu_ExpiresAt = Some t, cu_IsActive = True\<rparr> (h * hour)] | _ \<Rightarrow> [])\<rparr>)"
  using assms
proof (induction k arbitrary: n st sleeps)
  case (Suc k)
  show ?case
  proof (cases "n < 3")
    case True
    note loop = Suc.prems(1) [unfolded shorten_loop.simps [of _ _ _ _ _ _ n]]
    show ?thesis
    proof (cases "at_Generate (A n)")
      case (Ret code)
      obtain e db1 where tx: "at_tx (A n) (shorten_tx (lib_uuid L) (A n) code url uid email t) (us_db st) = (e, db1)"
        by (metis surj_pair)
      show ?thesis
      proof (cases "e = Some unique_violation")
        case retry: True
        obtain s where l: "shorten_loop (lib_uuid L) A url uid email t (Suc n) db1 = (res, s, db)"
          using loop True Ret tx retry by (auto split: prod.splits)
        have "fly L k (Some (Shortening url uid email h t A (Suc n))) (st\<lparr>us_db := db1\<rparr>)
            = (None, st\<lparr>us_db := db1, us_db := db, us_jobs := us_jobs (st\<lparr>us_db := db1\<rparr>) @
              (case res of Inserted code \<Rightarrow> [SetJob code \<lparr>cu_OriginalURL = url, cu_UserID = uid, cu_UserEmail = email,
                cu_ExpiresAt = Some t, cu_IsActive = True\<rparr> (h * hour)] | _ \<Rightarrow> [])\<rparr>)"
          by (rule Suc.IH) (use l Suc.prems True in auto)
        with True Ret tx retry show ?thesis by (simp add: shorten_turn_def)
      next
        case False
        with loop True Ret tx show ?thesis by (cases e) (auto simp: shorten_turn_def)
      qed
    qed (use loop True in \<open>auto simp: shorten_turn_def\<close>)
  next
    case False
    with Suc.prems show ?thesis by (auto simp: shorten_turn_def shorten_loop.simps)
  qed
qed simp

lemma ShortenURL_in_pieces:
  assumes "ShortenURL L base now A url uid email h (us_db st) = (res, jobs, sleeps, db)"
  shows "fly L 4 (shorten_begin L now A url uid email h) st = (None, st\<lparr>us_db := db, us_jobs := us_jobs st @ jobs\<rparr>)"
proof (cases "ValidateURL (lib_parseURL L) url")
  case None
  let ?t = "now + normalize_hours h * hour"
  obtain lr sl db1 where l: "shorten_loop (lib_uuid L) A url uid email ?t 0 (us_db st) = (lr, sl, db1)"
    by (metis prod_cases3)
  from fly_shortening [OF l, of 4 "normalize_hours h"] assms None l show ?thesis
    by (cases lr) (auto simp: ShortenURL_def shorten_begin_def Let_def)
qed (use assms in \<open>auto simp: ShortenURL_def shorten_begin_def numeral_eq_Suc\<close>)

lemma HandleRedirect_in_pieces:
  assumes "cache_Get (lib_redis L) now code (us_cache st) = None" and "code \<noteq> ''''"
  shows "fly L 1 (Some (Querying r code fault now)) st = (None, snd (HandleRedirect L fault now r code st))"
  using assms
  by (auto simp: redirect_query_def HandleRedirect_def RedirectToURL_def http_err_def split: sum.splits option.splits if_splits)

lemma DeactivateURL_in_pieces:
  assumes "DeactivateURL L d code uid email (us_db st) (us_cache st) = (res, db, c)"
  shows "(case deactivate_commit L d code uid email st of (f, st) \<Rightarrow> fly L 1 f st) = (None, st\<lparr>us_db := db, us_cache := c\<rparr>)"
  using assms
  by (auto simp: DeactivateURL_def deactivate_commit_def deactivate_clear_def split: prod.splits option.splits if_splits)

section \<open>The system\<close>

record 'c ui_state =
  ui_base :: "'c us_state"
  ui_flights :: "flight list"

definition flight_list :: "flight option \<Rightarrow> flight list" where
  "flight_list f = (case f of None \<Rightarrow> [] | Some f \<Rightarrow> [f])"

text \<open>Whole requests, jobs, the coordinator and Redis as in \<open>us_step\<close>; the starts of flights; their pieces, in any
  order. Who may start a flight is not restricted here: the authentication in front only takes runs away.\<close>

inductive ui_step :: "'c us_libs \<Rightarrow> ('c \<Rightarrow> kv_view) \<Rightarrow> jwt_parse \<Rightarrow> string \<Rightarrow> string
    \<Rightarrow> (us_route \<Rightarrow> us_payload response) \<Rightarrow> 'c ui_state \<Rightarrow> 'c ui_state \<Rightarrow> bool"
  for L view parse secret base ops where
  ui_whole: "us_step L view parse secret base ops (ui_base s) b \<Longrightarrow>
    ui_step L view parse secret base ops s (s\<lparr>ui_base := b\<rparr>)"
| ui_shorten: "(\<And>n. tx_laws (at_tx (A n))) \<Longrightarrow> shorten_begin L now A url uid email h = Some f \<Longrightarrow>
    ui_step L view parse secret base ops s (s\<lparr>ui_flights := ui_flights s @ [f]\<rparr>)"
| ui_lookup: "cache_Get (lib_redis L) now code (us_cache (ui_base s)) = None \<Longrightarrow>
    ui_step L view parse secret base ops s (s\<lparr>ui_flights := ui_flights s @ [Querying r code fault now]\<rparr>)"
| ui_deactivate: "tx_laws (de_tx d) \<Longrightarrow> deactivate_commit L d code uid email (ui_base s) = (f, b) \<Longrightarrow>
    ui_step L view parse secret base ops s (s\<lparr>ui_base := b, ui_flights := ui_flights s @ flight_list f\<rparr>)"
| ui_piece: "ui_flights s = fs @ f # gs \<Longrightarrow> flight_piece L f (ui_base s) = (f', b) \<Longrightarrow>
    ui_step L view parse secret base ops s (s\<lparr>ui_base := b, ui_flights := fs @ flight_list f' @ gs\<rparr>)"

definition ui_start :: "('c \<Rightarrow> kv_view) \<Rightarrow> 'c ui_state \<Rightarrow> bool" where
  "ui_start view s \<longleftrightarrow> us_start view (ui_base s) \<and> ui_flights s = []"

fun flight_fair :: "flight \<Rightarrow> bool" where
  "flight_fair (Shortening url uid email h t A n) \<longleftrightarrow> (\<forall>k. tx_laws (at_tx (A k))) \<and> 0 \<le> h"
| "flight_fair _ \<longleftrightarrow> True"

definition ui_inv :: "'c us_libs \<Rightarrow> ('c \<Rightarrow> kv_view) \<Rightarrow> 'c ui_state \<Rightarrow> bool" where
  "ui_inv L view s \<longleftrightarrow> us_inv L view (ui_base s) \<and> (\<forall>f \<in> set (ui_flights s). flight_fair f)"

lemma set_flight_list: "set (flight_list f) = set_option f"
  by (cases f) (simp_all add: flight_list_def)

lemma shorten_turn_inv:
  assumes U: "uuid_laws (lib_uuid L)" and tx: "\<forall>k. tx_laws (at_tx (A k))" and h: "0 \<le> h" and inv: "us_inv L view st"
    and turn: "shorten_turn L url uid email h t A n st = (f, b)"
  shows "us_inv L view b \<and> (\<forall>g \<in> set_option f. flight_fair g)"
proof (cases "n < 3 \<and> (\<exists>code. at_Generate (A n) = Ret code)")
  case True
  then obtain code where n: "n < 3" and g: "at_Generate (A n) = Ret code" by blast
  let ?fn = "shorten_tx (lib_uuid L) (A n) code url uid email t"
  obtain e db where r: "at_tx (A n) ?fn (us_db st) = (e, db)" by (metis surj_pair)
  have txn: "tx_laws (at_tx (A n))" using tx by blast
  have "outbox_inv (lib_uuid L) (snd (at_tx (A n) ?fn (us_db st))) \<and> rows_kept (us_db st) (snd (at_tx (A n) ?fn (us_db st)))"
    by (rule tx_preserves [OF txn]) (use inv in \<open>auto simp: us_inv_def intro: shorten_tx_outbox_inv [OF U] shorten_tx_kept\<close>)
  then have kept: "us_inv L view (st\<lparr>us_db := db\<rparr>)" by (intro us_inv_db [OF inv]) (simp_all add: r)
  show ?thesis
  proof (cases e)
    case None
    with r txn have "?fn (us_db st) = Inr db" by (auto simp: tx_laws_def)
    from shorten_tx_agrees [OF this] h
    have "\<forall>j \<in> set [SetJob code \<lparr>cu_OriginalURL = url, cu_UserID = uid, cu_UserEmail = email,
        cu_ExpiresAt = Some t, cu_IsActive = True\<rparr> (h * hour)]. job_ok (lib_uuid L) (us_db (st\<lparr>us_db := db\<rparr>)) j"
      by (simp add: hour_def second_def)
    from us_inv_jobs [OF kept this] turn n g r None show ?thesis by (auto simp: shorten_turn_def)
  next
    case (Some err)
    with turn n g r kept tx h show ?thesis by (auto simp: shorten_turn_def split: if_splits)
  qed
next
  case False
  with turn inv show ?thesis by (auto simp: shorten_turn_def split: go.splits if_splits)
qed

lemma redirect_query_inv:
  assumes inv: "us_inv L view st"
  shows "us_inv L view (redirect_query L r code fault now st)"
proof (cases "\<exists>x. FindByCode fault code (us_db st) = Inr (Some x) \<and> ur_IsActive x")
  case True
  then obtain x where x: "FindByCode fault code (us_db st) = Inr (Some x)" "ur_IsActive x" by blast
  then have "x \<in> set (urls (us_db st))" "ur_ShortCode x = code"
    by (auto simp: FindByCode_def split: option.splits dberr.splits dest!: find_SomeD)
  with agrees_row [of "lib_uuid L" "us_db st" x] x(2) inv have "job_ok (lib_uuid L) (us_db st) (FillJob code x)"
    by (auto simp: us_inv_def outbox_inv_def)
  with x show ?thesis by (auto simp: redirect_query_def intro!: us_inv_jobs [OF inv] inv)
qed (use inv in \<open>auto simp: redirect_query_def split: sum.splits option.splits if_splits\<close>)

lemma deactivate_commit_inv:
  assumes "uuid_laws (lib_uuid L)" and "tx_laws (de_tx d)" and inv: "us_inv L view st"
    and "deactivate_commit L d code uid email st = (f, b)"
  shows "us_inv L view b \<and> (\<forall>g \<in> set_option f. flight_fair g)"
proof -
  let ?r = "de_tx d (deactivate_tx (lib_uuid L) d code uid email) (us_db st)"
  have "outbox_inv (lib_uuid L) (snd ?r) \<and> rows_kept (us_db st) (snd ?r)"
    by (rule tx_preserves [OF assms(2)])
       (use inv in \<open>auto simp: us_inv_def intro: deactivate_tx_outbox_inv [OF assms(1)] deactivate_tx_kept\<close>)
  then have "us_inv L view (st\<lparr>us_db := snd ?r\<rparr>)" by (intro us_inv_db [OF inv]) simp_all
  with assms(4) show ?thesis by (auto simp: deactivate_commit_def split: prod.splits option.splits)
qed

lemma deactivate_clear_inv:
  assumes "kv_laws (lib_redis L) view" and "us_inv L view st"
  shows "us_inv L view (deactivate_clear L d code st)"
  using assms(2) kv_del_view [OF assms(1), of "de_cacheTime d" code "us_cache st"]
  by (auto simp: us_inv_def cache_inv_def deactivate_clear_def cache_Delete_def)

lemma flight_piece_inv:
  assumes "kv_laws (lib_redis L) view" and "uuid_laws (lib_uuid L)" and "us_inv L view st" and "flight_fair f"
    and "flight_piece L f st = (f', b)"
  shows "us_inv L view b \<and> (\<forall>g \<in> set_option f'. flight_fair g)"
  using assms
  by (cases f) (auto simp: redirect_query_inv deactivate_clear_inv dest: shorten_turn_inv [rotated 4])

lemma ui_step_inv:
  assumes L: "kv_laws (lib_redis L) view" "uuid_laws (lib_uuid L)"
    and "ui_step L view parse secret base ops s t" and inv: "ui_inv L view s"
  shows "ui_inv L view t"
  using assms(3)
proof cases
  case (ui_whole b)
  with us_step_inv [OF L ui_whole(2)] inv show ?thesis by (simp add: ui_inv_def)
next
  case (ui_shorten A now url uid email h f)
  then have "flight_fair f"
    by (auto simp: shorten_begin_def Let_def normalize_hours_def split: option.splits)
  with ui_shorten inv show ?thesis by (auto simp: ui_inv_def)
next
  case (ui_lookup now code r fault)
  with inv show ?thesis by (auto simp: ui_inv_def)
next
  case (ui_deactivate d code uid email f b)
  with deactivate_commit_inv [OF L(2) ui_deactivate(2) _ ui_deactivate(3)] inv show ?thesis
    by (auto simp: ui_inv_def set_flight_list)
next
  case (ui_piece fs f gs f' b)
  with flight_piece_inv [OF L _ _ ui_piece(3)] inv show ?thesis by (auto simp: ui_inv_def set_flight_list)
qed

definition ui_run :: "'c us_libs \<Rightarrow> ('c \<Rightarrow> kv_view) \<Rightarrow> jwt_parse \<Rightarrow> string \<Rightarrow> string
    \<Rightarrow> (us_route \<Rightarrow> us_payload response) \<Rightarrow> 'c ui_state \<Rightarrow> 'c ui_state \<Rightarrow> bool" where
  "ui_run L view parse secret base ops s t \<longleftrightarrow>
     kv_laws (lib_redis L) view \<and> uuid_laws (lib_uuid L) \<and> ui_step L view parse secret base ops s t"

interpretation overlapping: invariant_of "ui_start view" "ui_run L view parse secret base ops" "ui_inv L view"
  by unfold_locales (simp add: ui_start_def ui_inv_def us_start_inv, blast intro: ui_step_inv dest: ui_run_def [THEN iffD1])


text \<open>A flight that nothing overtakes is a run of the system; with the lemmas above, so is each operation.\<close>

lemma fly_run:
  assumes "fly L k f st = (f', st')" and "kv_laws (lib_redis L) view" and "uuid_laws (lib_uuid L)"
  shows "(ui_run L view parse secret base ops)\<^sup>*\<^sup>*
    \<lparr>ui_base = st, ui_flights = fs @ flight_list f @ gs\<rparr> \<lparr>ui_base = st', ui_flights = fs @ flight_list f' @ gs\<rparr>"
  using assms
proof (induction L k f st rule: fly.induct)
  case (3 L k f st)
  let ?s = "\<lparr>ui_base = st, ui_flights = fs @ f # gs\<rparr>"
  obtain f1 st1 where piece: "flight_piece L f st = (f1, st1)" by (metis surj_pair)
  have "ui_run L view parse secret base ops ?s (?s\<lparr>ui_base := st1, ui_flights := fs @ flight_list f1 @ gs\<rparr>)"
    unfolding ui_run_def using piece by (intro conjI 3(3,4), intro ui_piece) simp_all
  with 3 piece show ?case by (auto simp: flight_list_def intro: converse_rtranclp_into_rtranclp)
qed (auto simp: flight_list_def)


section \<open>Two callers and one code\<close>

text \<open>While the first of two requests is between the check of its URL and its first transaction, the second is
  served whole and takes the short code the first has drawn; the first retries with another.\<close>

definition demo_flight :: flight where
  "demo_flight = Shortening ''http://a.b/'' ''u'' ''e'' 24 (24 * hour)
     (\<lambda>n. demo_attempt (if n = 0 then ''abcdefg'' else ''ABCDEFG'') ''i2'') 0"

definition demo_over :: "kv_view us_state" where
  "demo_over = snd (fly demo_libs 2 (Some demo_flight) demo_st1)"

lemma demo_flight_begin:
  "shorten_begin demo_libs 0 (\<lambda>n. demo_attempt (if n = 0 then ''abcdefg'' else ''ABCDEFG'') ''i2'') ''http://a.b/'' ''u'' ''e'' 24
   = Some demo_flight"
  by (simp add: shorten_begin_def ValidateURL_def demo_libs_def demo_flight_def normalize_hours_def)

lemma demo_over_facts:
  "map ur_ShortCode (urls (us_db demo_over)) = [''abcdefg'', ''ABCDEFG'']"
  "case fst (fly demo_libs 1 (Some demo_flight) demo_st1) of None \<Rightarrow> False | Some f \<Rightarrow> True"
  "case fst (fly demo_libs 2 (Some demo_flight) demo_st1) of None \<Rightarrow> True | Some f \<Rightarrow> False"
  by code_simp+

lemma demo_over_reach:
  "reach (ui_start (\<lambda>c. c)) (ui_run demo_libs (\<lambda>c. c) demo_parse ''k'' ''http://s'' demo_ops)
     \<lparr>ui_base = demo_over, ui_flights = []\<rparr>"
proof -
  let ?run = "ui_run demo_libs (\<lambda>c. c) demo_parse ''k'' ''http://s'' demo_ops"
  let ?s0 = "\<lparr>ui_base = demo_st0, ui_flights = []\<rparr>"
  let ?s1 = "?s0\<lparr>ui_flights := ui_flights ?s0 @ [demo_flight]\<rparr>"
  have "reach (ui_start (\<lambda>c. c)) ?run ?s0"
    by (rule reach_start) (simp add: ui_start_def us_start_def demo_st0_def)
  moreover have "?run ?s0 ?s1"
    unfolding ui_run_def
    by (intro conjI ui_shorten demo_libs_laws, rule_tac [2] demo_flight_begin) (simp add: demo_attempt_def)
  ultimately have "reach (ui_start (\<lambda>c. c)) ?run ?s1" by (rule reach_step)
  moreover have "us_step demo_libs (\<lambda>c. c) demo_parse ''k'' ''http://s'' demo_ops (ui_base ?s1) demo_st1"
    unfolding demo_st1_def
    by (simp, rule us_request) (simp add: fair_env_def demo_env_def demo_attempt_def demo_deact_def)
  then have "?run ?s1 (?s1\<lparr>ui_base := demo_st1\<rparr>)"
    unfolding ui_run_def by (intro conjI ui_whole demo_libs_laws)
  ultimately have "reach (ui_start (\<lambda>c. c)) ?run (?s1\<lparr>ui_base := demo_st1\<rparr>)" by (rule reach_step)
  moreover have "fly demo_libs 2 (Some demo_flight) demo_st1 = (None, demo_over)"
    using demo_over_facts(3) by (auto simp: demo_over_def prod_eq_iff split: option.splits)
  then have "?run\<^sup>*\<^sup>* (?s1\<lparr>ui_base := demo_st1\<rparr>) \<lparr>ui_base = demo_over, ui_flights = []\<rparr>"
    using fly_run [of demo_libs 2 "Some demo_flight" demo_st1 None demo_over, where fs = "[]" and gs = "[]"]
    by (simp add: flight_list_def)
  ultimately show ?thesis by (rule reach_rtranclp)
qed

section \<open>What holds whatever overtakes a request\<close>

text \<open>C1: the transactional outbox: in every state that url-service reaches, with any requests overtaking one
  another between their calls, under any faults and concurrent jobs, the outbox holds exactly one creation
  event for each URL, in the order of the URLs, and exactly one deletion event for each deactivated URL; no
  event without its row, no row without its event; and codes and ids are unique.\<close>

theorem outbox_mirrors_urls:
  assumes "reach (ui_start view) (ui_run L view parse secret base ops) s"
  shows "event_codes EventTypeURLCreated created_code (outbox (us_db (ui_base s)))
      = map ur_ShortCode (urls (us_db (ui_base s)))
    \<and> mset (event_codes EventTypeURLDeleted deleted_code (outbox (us_db (ui_base s))))
        = mset (inactive_codes (urls (us_db (ui_base s))))
    \<and> distinct (map ur_ShortCode (urls (us_db (ui_base s)))) \<and> distinct (map ob_ID (outbox (us_db (ui_base s))))"
  by (rule us_inv_mirrors [where L = L and view = view]) (use overlapping.inv_reach [OF assms] in \<open>simp add: ui_inv_def\<close>)

theorem outbox_mirrors_urls_witness:
  "event_codes EventTypeURLCreated created_code (outbox (us_db demo_over)) = [''abcdefg'', ''ABCDEFG'']"
  using outbox_mirrors_urls [OF demo_over_reach] demo_over_facts(1) by simp

text \<open>C7: a redirect never goes to a wrong or expired target: in every state that url-service reaches, with any
  requests overtaking one another, whether the answer comes from the cache or, after a lookup that missed
  there now or earlier, from the table, it is the original URL stored for that very code, with its owner's
  email, and the URL has not expired (to the microsecond the table keeps).\<close>

theorem redirect_target_is_stored:
  assumes r: "reach (ui_start view) (ui_run L view parse secret base ops) s"
    and laws: "kv_laws (lib_redis L) view"
    and c: "c = us_cache (ui_base s) \<or> cache_Get (lib_redis L) now code c = None"
    and R: "RedirectToURL L fault now code addr (us_db (ui_base s)) c = (Ret (Inr info), jobs)"
  shows "\<exists>r \<in> set (urls (us_db (ui_base s))). ur_ShortCode r = code \<and> ur_OriginalURL r = ri_OriginalURL info
    \<and> ur_UserEmail r = ri_UserEmail info
    \<and> (case ur_ExpiresAt r of None \<Rightarrow> True | Some t \<Rightarrow> now < t + 1000)"
  by (rule us_inv_redirect [OF _ laws c R]) (use overlapping.inv_reach [OF r] in \<open>simp add: ui_inv_def\<close>)

theorem redirect_target_is_stored_witness:
  "\<exists>r \<in> set (urls (us_db demo_over)). ur_ShortCode r = ''ABCDEFG'' \<and> ur_OriginalURL r = ''http://a.b/''"
proof -
  have "map_option ri_OriginalURL (case RedirectToURL demo_libs None 5 ''ABCDEFG'' '''' (us_db demo_over) (\<lambda>_. None)
      of (Ret (Inr i), _) \<Rightarrow> Some i | _ \<Rightarrow> None) = Some ''http://a.b/''"
    by code_simp
  then obtain info jobs where i: "RedirectToURL demo_libs None 5 ''ABCDEFG'' '''' (us_db demo_over) (\<lambda>_. None)
      = (Ret (Inr info), jobs)" "ri_OriginalURL info = ''http://a.b/''"
    by (auto split: prod.splits go.splits sum.splits)
  have miss: "cache_Get (lib_redis demo_libs) 5 ''ABCDEFG'' (\<lambda>_. None) = None"
    by (simp add: cache_Get_def demo_libs_def map_kv_def)
  show ?thesis
    using redirect_target_is_stored [OF demo_over_reach demo_libs_laws(1) disjI2 [OF miss], where fault = None and addr = "''''"] i
    by auto
qed

end
