(* ===== verification/Resources.thy ===== *)
theory Resources
  imports Processes
begin

text \<open>
  What the processes that use the broker hold open: the detailed side of \<open>rabbitmq.go\<close> and \<open>db.go\<close> of
  url-service, analytics-service and notification-service, with the connections, channels, exchanges,
  queues and bindings at the broker and the database pool as state. The loops of \<open>Startup\<close>, which
  only say how an attempt ends, are what remains of these when the state is forgotten; what the
  two consumers have in common is the locale \<open>broker_dialer\<close>.
\<close>

section \<open>The broker as the clients change it\<close>

text \<open>A connection is identified by the attempt that opened it, its one channel by the connection.\<close>

record broker =
  bk_conns :: "(nat \<times> string) list"
  bk_chans :: "nat list"
  bk_exchanges :: "(string \<times> string) set"
  bk_queues :: "string set"
  bk_bindings :: "(string \<times> string \<times> string) set"

definition amqp_DialConfig :: "dial_env \<Rightarrow> nat \<Rightarrow> string \<Rightarrow> broker \<Rightarrow> nat option \<times> broker" where
  "amqp_DialConfig e attempt name b =
     (if de_dial e attempt then (Some attempt, b\<lparr>bk_conns := (attempt, name) # bk_conns b\<rparr>) else (None, b))"

definition amqp_Channel :: "dial_env \<Rightarrow> nat \<Rightarrow> broker \<Rightarrow> nat option \<times> broker" where
  "amqp_Channel e conn b =
     (if de_channel e conn then (Some conn, b\<lparr>bk_chans := conn # bk_chans b\<rparr>) else (None, b))"

definition chan_Close :: "nat \<Rightarrow> broker \<Rightarrow> broker" where
  "chan_Close ch b = b\<lparr>bk_chans := filter (\<lambda>c. c \<noteq> ch) (bk_chans b)\<rparr>"

text \<open>Closing a connection closes its channel.\<close>

definition conn_Close :: "nat \<Rightarrow> broker \<Rightarrow> broker" where
  "conn_Close conn b =
     b\<lparr>bk_conns := filter (\<lambda>(c, name). c \<noteq> conn) (bk_conns b), bk_chans := filter (\<lambda>c. c \<noteq> conn) (bk_chans b)\<rparr>"

definition ExchangeDeclare :: "dial_env \<Rightarrow> string \<Rightarrow> string \<Rightarrow> broker \<Rightarrow> bool \<times> broker" where
  "ExchangeDeclare e name kind b =
     (if de_exchange e then (True, b\<lparr>bk_exchanges := insert (name, kind) (bk_exchanges b)\<rparr>) else (False, b))"

record queue_env =
  qe_declare :: bool
  qe_bind :: "string \<Rightarrow> bool"

definition QueueDeclare :: "queue_env \<Rightarrow> string \<Rightarrow> broker \<Rightarrow> bool \<times> broker" where
  "QueueDeclare q name b =
     (if qe_declare q then (True, b\<lparr>bk_queues := insert name (bk_queues b)\<rparr>) else (False, b))"

definition QueueBind :: "queue_env \<Rightarrow> string \<Rightarrow> string \<Rightarrow> string \<Rightarrow> broker \<Rightarrow> bool \<times> broker" where
  "QueueBind q name key exchange b =
     (if qe_bind q key then (True, b\<lparr>bk_bindings := insert (name, key, exchange) (bk_bindings b)\<rparr>) else (False, b))"

section \<open>The connection of each service\<close>

text \<open>\<open>RabbitMQConn\<close>; a field that is \<open>None\<close> is a nil pointer.\<close>

record RabbitMQConn =
  rc_Conn :: "nat option"
  rc_Channel :: "nat option"

definition analytics_Close :: "RabbitMQConn option \<Rightarrow> broker \<Rightarrow> broker" where
  "analytics_Close r b =
     (case r of
        None \<Rightarrow> b
      | Some r \<Rightarrow>
          let b = (case rc_Channel r of None \<Rightarrow> b | Some ch \<Rightarrow> chan_Close ch b)
          in case rc_Conn r of None \<Rightarrow> b | Some c \<Rightarrow> conn_Close c b)"

definition analytics_dialRabbitMQ :: "dial_env \<Rightarrow> nat \<Rightarrow> broker \<Rightarrow> RabbitMQConn option \<times> broker" where
  "analytics_dialRabbitMQ e attempt b =
     (case amqp_DialConfig e attempt ''analytics-service'' b of
        (None, b) \<Rightarrow> (None, b)
      | (Some conn, b) \<Rightarrow>
          (case amqp_Channel e conn b of
             (None, b) \<Rightarrow> (None, conn_Close conn b)
           | (Some ch, b) \<Rightarrow> (Some \<lparr>rc_Conn = Some conn, rc_Channel = Some ch\<rparr>, b)))"

definition declareAnalyticsExchange :: "dial_env \<Rightarrow> broker \<Rightarrow> bool \<times> broker" where
  "declareAnalyticsExchange e b = ExchangeDeclare e ''url-shortener'' ''topic'' b"

definition DeclareAnalyticsQueue :: "queue_env \<Rightarrow> broker \<Rightarrow> bool \<times> broker" where
  "DeclareAnalyticsQueue q b =
     (case QueueDeclare q ''analytics.clicks'' b of
        (False, b) \<Rightarrow> (False, b)
      | (True, b) \<Rightarrow> QueueBind q ''analytics.clicks'' (event_name EventTypeURLClicked) ''url-shortener'' b)"

definition notification_Close :: "RabbitMQConn option \<Rightarrow> broker \<Rightarrow> broker" where
  "notification_Close r b =
     (case r of
        None \<Rightarrow> b
      | Some r \<Rightarrow>
          let b = (case rc_Channel r of None \<Rightarrow> b | Some ch \<Rightarrow> chan_Close ch b)
          in case rc_Conn r of None \<Rightarrow> b | Some c \<Rightarrow> conn_Close c b)"

definition notification_dialRabbitMQ :: "dial_env \<Rightarrow> nat \<Rightarrow> broker \<Rightarrow> RabbitMQConn option \<times> broker" where
  "notification_dialRabbitMQ e attempt b =
     (case amqp_DialConfig e attempt ''notification-service'' b of
        (None, b) \<Rightarrow> (None, b)
      | (Some conn, b) \<Rightarrow>
          (case amqp_Channel e conn b of
             (None, b) \<Rightarrow> (None, conn_Close conn b)
           | (Some ch, b) \<Rightarrow> (Some \<lparr>rc_Conn = Some conn, rc_Channel = Some ch\<rparr>, b)))"

definition declareNotificationExchange :: "dial_env \<Rightarrow> broker \<Rightarrow> bool \<times> broker" where
  "declareNotificationExchange e b = ExchangeDeclare e ''url-shortener'' ''topic'' b"

fun bind_all :: "queue_env \<Rightarrow> string list \<Rightarrow> broker \<Rightarrow> bool \<times> broker" where
  "bind_all q [] b = (True, b)"
| "bind_all q (key # keys) b =
     (case QueueBind q ''notifications.events'' key ''url-shortener'' b of
        (False, b) \<Rightarrow> (False, b)
      | (True, b) \<Rightarrow> bind_all q keys b)"

definition DeclareNotificationQueue :: "queue_env \<Rightarrow> broker \<Rightarrow> bool \<times> broker" where
  "DeclareNotificationQueue q b =
     (case QueueDeclare q ''notifications.events'' b of
        (False, b) \<Rightarrow> (False, b)
      | (True, b) \<Rightarrow> bind_all q notificationRoutingKeys b)"

text \<open>url-service's \<open>Close\<close> does not expect a nil receiver.\<close>

definition url_Close :: "RabbitMQConn \<Rightarrow> broker \<Rightarrow> broker" where
  "url_Close r b =
     (let b = (case rc_Channel r of None \<Rightarrow> b | Some ch \<Rightarrow> chan_Close ch b)
      in case rc_Conn r of None \<Rightarrow> b | Some c \<Rightarrow> conn_Close c b)"

definition url_declareExchange :: "dial_env \<Rightarrow> broker \<Rightarrow> bool \<times> broker" where
  "url_declareExchange e b = ExchangeDeclare e ''url-shortener'' ''topic'' b"

section \<open>The loops\<close>

text \<open>The loop of the two consumers, over the functions of one of them: the result, the connection it
  returns, and the broker afterwards.\<close>

fun acquire :: "(nat \<Rightarrow> broker \<Rightarrow> RabbitMQConn option \<times> broker) \<Rightarrow> (broker \<Rightarrow> bool \<times> broker)
    \<Rightarrow> (RabbitMQConn option \<Rightarrow> broker \<Rightarrow> broker) \<Rightarrow> dial_env \<Rightarrow> time \<Rightarrow> nat \<Rightarrow> nat \<Rightarrow> duration \<Rightarrow> time \<Rightarrow> broker
    \<Rightarrow> (mq_result \<times> RabbitMQConn option) \<times> broker" where
  "acquire dial declare_ex close_mq e deadline 0 attempt backoff now b = ((Unreachable, None), b)"
| "acquire dial declare_ex close_mq e deadline (Suc left) attempt backoff now b =
     (let done = now + de_takes e attempt in
      case dial attempt b of
        (Some mq, b) \<Rightarrow>
          (case declare_ex b of
             (True, b) \<Rightarrow> ((Connected attempt, Some mq), b)
           | (False, b) \<Rightarrow> ((ExchangeFailed, None), close_mq (Some mq) b))
      | (None, b) \<Rightarrow>
          if timer_wins e attempt deadline done backoff
          then acquire dial declare_ex close_mq e deadline left (Suc attempt) (next_backoff backoff) (done + backoff) b
          else ((Cancelled, None), b))"

definition analytics_acquire :: "dial_env \<Rightarrow> string \<Rightarrow> time \<Rightarrow> nat \<Rightarrow> time \<Rightarrow> broker \<Rightarrow> (mq_result \<times> RabbitMQConn option) \<times> broker" where
  "analytics_acquire e url deadline maxAttempts now b =
     (if url = '''' then ((MissingURL, None), b)
      else acquire (analytics_dialRabbitMQ e) (declareAnalyticsExchange e) analytics_Close e deadline maxAttempts 1
             rabbitMQInitialBackoff now b)"

definition notification_acquire :: "dial_env \<Rightarrow> string \<Rightarrow> time \<Rightarrow> nat \<Rightarrow> time \<Rightarrow> broker \<Rightarrow> (mq_result \<times> RabbitMQConn option) \<times> broker" where
  "notification_acquire e url deadline maxAttempts now b =
     (if url = '''' then ((MissingURL, None), b)
      else acquire (notification_dialRabbitMQ e) (declareNotificationExchange e) notification_Close e deadline maxAttempts 1
             rabbitMQInitialBackoff now b)"

text \<open>url-service: the loop dials only; channel and exchange follow it.\<close>

definition url_after_dial :: "dial_env \<Rightarrow> nat \<Rightarrow> broker \<Rightarrow> (mq_result \<times> RabbitMQConn option) \<times> broker" where
  "url_after_dial e conn b =
     (case amqp_Channel e conn b of
        (None, b) \<Rightarrow> ((ChannelFailed, None), conn_Close conn b)
      | (Some ch, b) \<Rightarrow>
          (case url_declareExchange e b of
             (False, b) \<Rightarrow> ((ExchangeFailed, None), conn_Close conn (chan_Close ch b))
           | (True, b) \<Rightarrow> ((Connected conn, Some \<lparr>rc_Conn = Some conn, rc_Channel = Some ch\<rparr>), b)))"

fun url_acquire_loop :: "dial_env \<Rightarrow> time \<Rightarrow> nat \<Rightarrow> nat \<Rightarrow> duration \<Rightarrow> time \<Rightarrow> broker \<Rightarrow> (mq_result \<times> RabbitMQConn option) \<times> broker" where
  "url_acquire_loop e deadline 0 attempt backoff now b = ((Unreachable, None), b)"
| "url_acquire_loop e deadline (Suc left) attempt backoff now b =
     (let done = now + de_takes e attempt in
      case amqp_DialConfig e attempt ''url-service'' b of
        (Some conn, b) \<Rightarrow> url_after_dial e conn b
      | (None, b) \<Rightarrow>
          if timer_wins e attempt deadline done backoff
          then url_acquire_loop e deadline left (Suc attempt) (min (backoff * 2) (30 * second)) (done + backoff) b
          else ((Cancelled, None), b))"

section \<open>The database pool\<close>

text \<open>\<open>db.go\<close>, \<open>migrations.go\<close> and \<open>connectDatabase\<close> of the two consumers, with whether the pool is open afterwards.\<close>

definition analytics_NewDBPool :: "db_server \<Rightarrow> duration \<Rightarrow> string \<Rightarrow> (duration \<times> (db_error + pool)) option \<times> bool" where
  "analytics_NewDBPool D budget databaseURL =
     (if \<not> dbs_ParseConfig D databaseURL then (Some (0, Inl ParseDatabaseURL), False)
      else if \<not> dbs_NewWithConfig D then (Some (0, Inl CreatePool), False)
      else (case within (Some (min budget (10 * second))) (dbs_Ping D) of
              None \<Rightarrow> (None, True)
            | Some (d, ok) \<Rightarrow>
                if \<not> ok then (Some (d, Inl PingDB), False)
                else (Some (d, Inr \<lparr>MaxConns = 10, MinConns = 2\<rparr>), True)))"

definition notification_NewDBPool :: "db_server \<Rightarrow> duration \<Rightarrow> string \<Rightarrow> (duration \<times> (db_error + pool)) option \<times> bool" where
  "notification_NewDBPool D budget databaseURL =
     (if \<not> dbs_ParseConfig D databaseURL then (Some (0, Inl ParseDatabaseURL), False)
      else if \<not> dbs_NewWithConfig D then (Some (0, Inl CreatePool), False)
      else (case within (Some (min budget (10 * second))) (dbs_Ping D) of
              None \<Rightarrow> (None, True)
            | Some (d, ok) \<Rightarrow>
                if \<not> ok then (Some (d, Inl PingDB), False)
                else (Some (d, Inr \<lparr>MaxConns = 10, MinConns = 2\<rparr>), True)))"

definition analytics_runMigrations :: "db_server \<Rightarrow> duration option \<Rightarrow> (duration \<times> (db_error + unit)) option" where
  "analytics_runMigrations D budget =
     (case within budget (dbs_migrate D) of
        None \<Rightarrow> None
      | Some (d, ok) \<Rightarrow> Some (d, if ok then Inr () else Inl RunMigrations))"

definition analytics_connectDatabase :: "db_server \<Rightarrow> string \<Rightarrow> pool boot \<times> bool" where
  "analytics_connectDatabase D url =
     (case analytics_NewDBPool D databaseStartupTimeout url of
        (None, up) \<Rightarrow> (Hangs, up)
      | (Some (d, Inl _), up) \<Rightarrow> (Exits d, up)
      | (Some (d, Inr pool), up) \<Rightarrow>
          (case analytics_runMigrations D (Some (databaseStartupTimeout - d)) of
             None \<Rightarrow> (Hangs, up)
           | Some (m, Inl _) \<Rightarrow> (Exits (d + m), False)
           | Some (m, Inr _) \<Rightarrow> (Ready (d + m) pool, up)))"

definition notification_connectDatabase :: "db_server \<Rightarrow> string \<Rightarrow> pool boot \<times> bool" where
  "notification_connectDatabase D url =
     (case notification_NewDBPool D databaseStartupTimeout url of
        (None, up) \<Rightarrow> (Hangs, up)
      | (Some (d, Inl _), up) \<Rightarrow> (Exits d, up)
      | (Some (d, Inr pool), up) \<Rightarrow>
          (case runMigrations D (Some (databaseStartupTimeout - d)) of
             None \<Rightarrow> (Hangs, up)
           | Some (m, Inl _) \<Rightarrow> (Exits (d + m), False)
           | Some (m, Inr _) \<Rightarrow> (Ready (d + m) pool, up)))"

section \<open>Connecting, and the orderly end\<close>

text \<open>\<open>connectRabbitMQ\<close>: \<open>None\<close> is \<open>os.Exit(1)\<close>.\<close>

definition analytics_connect :: "dial_env \<Rightarrow> queue_env \<Rightarrow> string \<Rightarrow> time \<Rightarrow> broker \<Rightarrow> RabbitMQConn option \<times> broker" where
  "analytics_connect e q url now b =
     (case analytics_acquire e url (now + rabbitMQStartupTimeout) rabbitMQAttempts now b of
        ((_, None), b) \<Rightarrow> (None, b)
      | ((_, Some mq), b) \<Rightarrow>
          (case DeclareAnalyticsQueue q b of
             (False, b) \<Rightarrow> (None, analytics_Close (Some mq) b)
           | (True, b) \<Rightarrow> (Some mq, b)))"

definition notification_connect :: "dial_env \<Rightarrow> queue_env \<Rightarrow> string \<Rightarrow> time \<Rightarrow> broker \<Rightarrow> RabbitMQConn option \<times> broker" where
  "notification_connect e q url now b =
     (case notification_acquire e url (now + rabbitMQStartupTimeout) rabbitMQAttempts now b of
        ((_, None), b) \<Rightarrow> (None, b)
      | ((_, Some mq), b) \<Rightarrow>
          (case DeclareNotificationQueue q b of
             (False, b) \<Rightarrow> (None, notification_Close (Some mq) b)
           | (True, b) \<Rightarrow> (Some mq, b)))"

definition url_connect :: "dial_env \<Rightarrow> time \<Rightarrow> broker \<Rightarrow> RabbitMQConn option \<times> broker" where
  "url_connect e now b =
     (case url_acquire_loop e (now + 60 * second) 10 1 second now b of ((_, mq), b) \<Rightarrow> (mq, b))"

section \<open>The loops hold what their result says\<close>

definition idle :: "broker \<Rightarrow> bool" where
  "idle b \<longleftrightarrow> bk_conns b = [] \<and> bk_chans b = []"

text \<open>A broker with one connection more, for a client that has the exchange.\<close>

definition holding :: "string \<Rightarrow> nat \<Rightarrow> broker \<Rightarrow> broker" where
  "holding name k b = b\<lparr>bk_conns := [(k, name)], bk_chans := [k],
     bk_exchanges := insert (''url-shortener'', ''topic'') (bk_exchanges b)\<rparr>"

text \<open>What a result of the loops of \<open>Startup\<close> stands for.\<close>

fun realized :: "string \<Rightarrow> mq_result \<Rightarrow> broker \<Rightarrow> (mq_result \<times> RabbitMQConn option) \<times> broker" where
  "realized name (Connected k) b = ((Connected k, Some \<lparr>rc_Conn = Some k, rc_Channel = Some k\<rparr>), holding name k b)"
| "realized name r b = ((r, None), b)"

lemmas amqp_defs = amqp_DialConfig_def amqp_Channel_def chan_Close_def conn_Close_def ExchangeDeclare_def
  QueueDeclare_def QueueBind_def

locale broker_dialer =
  fixes name :: string
    and dial :: "nat \<Rightarrow> broker \<Rightarrow> RabbitMQConn option \<times> broker"
    and declare_ex :: "broker \<Rightarrow> bool \<times> broker"
    and close_mq :: "RabbitMQConn option \<Rightarrow> broker \<Rightarrow> broker"
    and e :: dial_env
  assumes dial_up: "dialRabbitMQ e a \<Longrightarrow> idle b \<Longrightarrow>
      dial a b = (Some \<lparr>rc_Conn = Some a, rc_Channel = Some a\<rparr>, b\<lparr>bk_conns := [(a, name)], bk_chans := [a]\<rparr>)"
    and dial_down: "\<not> dialRabbitMQ e a \<Longrightarrow> idle b \<Longrightarrow> dial a b = (None, b)"
    and declares: "declare_ex b = ExchangeDeclare e ''url-shortener'' ''topic'' b"
    and closes: "close_mq (Some \<lparr>rc_Conn = Some a, rc_Channel = Some a\<rparr>) b = conn_Close a b"
begin

lemma acquire_realizes:
  "idle b \<Longrightarrow> acquire dial declare_ex close_mq e deadline n a backoff now b
     = realized name (fst (dial_loop e deadline n a backoff now)) b"
proof (induction n arbitrary: a backoff now)
  case (Suc n)
  show ?case
  proof (cases "dialRabbitMQ e a")
    case True
    with Suc.prems show ?thesis
      by (auto simp: dial_up declares closes ExchangeDeclare_def conn_Close_def holding_def idle_def Let_def)
  next
    case False
    with Suc show ?thesis by (simp add: dial_down Let_def split: prod.split)
  qed
qed simp

end

interpretation analytics_mq: broker_dialer "''analytics-service''" "analytics_dialRabbitMQ e" "declareAnalyticsExchange e" analytics_Close e
  for e
  by unfold_locales
     (auto simp: analytics_dialRabbitMQ_def declareAnalyticsExchange_def analytics_Close_def amqp_defs dialRabbitMQ_def idle_def)

interpretation notification_mq: broker_dialer "''notification-service''" "notification_dialRabbitMQ e" "declareNotificationExchange e"
  notification_Close e for e
  by unfold_locales
     (auto simp: notification_dialRabbitMQ_def declareNotificationExchange_def notification_Close_def amqp_defs dialRabbitMQ_def idle_def)

lemma url_acquire_realizes:
  "idle b \<Longrightarrow> url_acquire_loop e deadline n a backoff now b
     = realized ''url-service'' (fst (dial_loop_url e deadline n a backoff now)) b"
proof (induction n arbitrary: a backoff now)
  case (Suc n)
  show ?case
  proof (cases "de_dial e a")
    case True
    with Suc.prems show ?thesis
      by (auto simp: url_after_dial_def url_declareExchange_def amqp_defs holding_def idle_def Let_def)
  next
    case False
    with Suc show ?thesis by (simp add: amqp_DialConfig_def Let_def split: prod.split)
  qed
qed simp

section \<open>Connecting\<close>

lemma broker_ready_at:
  "is_connected (fst (dial_loop M (now + rabbitMQStartupTimeout) rabbitMQAttempts 1 rabbitMQInitialBackoff now)) = broker_ready M"
  "is_connected (fst (dial_loop_url M (now + 60 * second) 10 1 second now)) = broker_ready_url M"
  using dial_loop_shift [of M rabbitMQStartupTimeout now rabbitMQAttempts 1 rabbitMQInitialBackoff 0]
    dial_loop_url_shift [of M "60 * second" now 10 1 second 0]
  by (simp_all add: broker_ready_def broker_ready_url_def add.commute)

lemmas broker_ready_simps = broker_ready_at broker_ready_at [unfolded One_nat_def]

lemma realized_cases:
  obtains k where "realized name r b = ((Connected k, Some \<lparr>rc_Conn = Some k, rc_Channel = Some k\<rparr>), holding name k b)" "is_connected r"
  | "realized name r b = ((r, None), b)" "\<not> is_connected r"
  by (cases r) auto

text \<open>What a consumer that serves holds: one connection under its name with one channel, and at the broker the
  exchange, its queue and exactly the bindings of its events.\<close>

definition consuming_from :: "string \<Rightarrow> string \<Rightarrow> queue \<Rightarrow> broker \<Rightarrow> broker \<Rightarrow> bool" where
  "consuming_from name queue_name Q b b' \<longleftrightarrow>
     (\<exists>k. bk_conns b' = [(k, name)] \<and> bk_chans b' = [k])
     \<and> (''url-shortener'', ''topic'') \<in> bk_exchanges b' \<and> queue_name \<in> bk_queues b'
     \<and> bk_bindings b' = bk_bindings b \<union> {(queue_name, key, ''url-shortener'') |key. routes_to key Q}"

definition queue_ready :: "queue_env \<Rightarrow> queue \<Rightarrow> bool" where
  "queue_ready q Q \<longleftrightarrow> qe_declare q \<and> (\<forall>key. routes_to key Q \<longrightarrow> qe_bind q key)"

lemma bind_all_outcome:
  "bind_all q keys b = (ok, b') \<Longrightarrow> (ok \<longleftrightarrow> (\<forall>k \<in> set keys. qe_bind q k)) \<and> (\<exists>B. b' = b\<lparr>bk_bindings := B\<rparr>
     \<and> (ok \<longrightarrow> B = bk_bindings b \<union> {(''notifications.events'', key, ''url-shortener'') |key. key \<in> set keys}))"
proof (induction keys arbitrary: b)
  case Nil
  have "b = b\<lparr>bk_bindings := bk_bindings b\<rparr>" by simp
  with Nil show ?case by auto
next
  case (Cons k ks)
  show ?case
  proof (cases "qe_bind q k")
    case True
    with Cons.prems have "bind_all q ks (b\<lparr>bk_bindings := insert (''notifications.events'', k, ''url-shortener'') (bk_bindings b)\<rparr>) = (ok, b')"
      by (simp add: QueueBind_def)
    from Cons.IH [OF this] True show ?thesis by auto
  next
    case False
    have "\<exists>B. b = b\<lparr>bk_bindings := B\<rparr>" by (rule exI [of _ "bk_bindings b"]) simp
    with False Cons.prems show ?thesis by (auto simp: QueueBind_def)
  qed
qed

lemma DeclareAnalyticsQueue_outcome:
  assumes "DeclareAnalyticsQueue q (holding name k b) = (ok, b')"
  shows "ok \<longleftrightarrow> queue_ready q AnalyticsClicks" and "bk_conns b' = [(k, name)]" "bk_chans b' = [k]"
    and "ok \<Longrightarrow> consuming_from name ''analytics.clicks'' AnalyticsClicks b b'"
  using assms
  by (auto simp: DeclareAnalyticsQueue_def QueueDeclare_def QueueBind_def holding_def queue_ready_def routes_to_def
      consuming_from_def split: if_splits)

lemma DeclareNotificationQueue_outcome:
  assumes "DeclareNotificationQueue q (holding name k b) = (ok, b')"
  shows "ok \<longleftrightarrow> queue_ready q NotificationsEvents" and "bk_conns b' = [(k, name)]" "bk_chans b' = [k]"
    and "ok \<Longrightarrow> consuming_from name ''notifications.events'' NotificationsEvents b b'"
proof -
  have r: "routes_to key NotificationsEvents \<longleftrightarrow> key \<in> set notificationRoutingKeys" for key by (simp add: routes_to_def)
  have "(ok \<longleftrightarrow> queue_ready q NotificationsEvents) \<and> bk_conns b' = [(k, name)] \<and> bk_chans b' = [k]
      \<and> (ok \<longrightarrow> consuming_from name ''notifications.events'' NotificationsEvents b b')"
  proof (cases "qe_declare q")
    case True
    let ?b = "(holding name k b)\<lparr>bk_queues := insert ''notifications.events'' (bk_queues (holding name k b))\<rparr>"
    have "bind_all q notificationRoutingKeys ?b = (ok, b')"
      using assms True by (simp add: DeclareNotificationQueue_def QueueDeclare_def)
    from bind_all_outcome [OF this] True show ?thesis
      by (auto simp: queue_ready_def r consuming_from_def holding_def)
  next
    case False
    with assms show ?thesis by (auto simp: DeclareNotificationQueue_def QueueDeclare_def queue_ready_def holding_def)
  qed
  then show "ok \<longleftrightarrow> queue_ready q NotificationsEvents" and "bk_conns b' = [(k, name)]" "bk_chans b' = [k]"
    and "ok \<Longrightarrow> consuming_from name ''notifications.events'' NotificationsEvents b b'" by blast+
qed

lemma conn_Close_only: "bk_conns b = [(k, name)] \<Longrightarrow> bk_chans b = [k] \<Longrightarrow> idle (conn_Close k b)"
  by (simp add: conn_Close_def idle_def)

lemma Close_only:
  assumes "bk_conns b = [(k, name)]" and "bk_chans b = [k]" and "mq = \<lparr>rc_Conn = Some k, rc_Channel = Some k\<rparr>"
  shows "idle (analytics_Close (Some mq) b)" and "idle (notification_Close (Some mq) b)" and "idle (url_Close mq b)"
  using assms by (simp_all add: analytics_Close_def notification_Close_def url_Close_def chan_Close_def conn_Close_def idle_def)

lemma analytics_connect_outcome:
  assumes "idle b"
  shows "case analytics_connect e q url now b of
      (None, b') \<Rightarrow> idle b' \<and> \<not> (url \<noteq> '''' \<and> broker_ready e \<and> queue_ready q AnalyticsClicks)
    | (Some mq, b') \<Rightarrow> consuming_from ''analytics-service'' ''analytics.clicks'' AnalyticsClicks b b' \<and> idle (analytics_Close (Some mq) b')
        \<and> url \<noteq> '''' \<and> broker_ready e \<and> queue_ready q AnalyticsClicks"
proof (cases "url = ''''")
  case False
  let ?r = "fst (dial_loop e (now + rabbitMQStartupTimeout) rabbitMQAttempts 1 rabbitMQInitialBackoff now)"
  have a: "analytics_acquire e url (now + rabbitMQStartupTimeout) rabbitMQAttempts now b = realized ''analytics-service'' ?r b"
    using False by (simp add: analytics_acquire_def analytics_mq.acquire_realizes [OF assms])
  show ?thesis
  proof (rule realized_cases [of "''analytics-service''" ?r b])
    fix k assume k: "realized ''analytics-service'' ?r b
        = ((Connected k, Some \<lparr>rc_Conn = Some k, rc_Channel = Some k\<rparr>), holding ''analytics-service'' k b)" "is_connected ?r"
    obtain ok b' where d: "DeclareAnalyticsQueue q (holding ''analytics-service'' k b) = (ok, b')" by (metis surj_pair)
    note o = DeclareAnalyticsQueue_outcome [OF d]
    from k(2) False a k(1) d o(1,4) Close_only(1) [OF o(2,3) refl] show ?thesis
      by (cases ok) (simp_all add: analytics_connect_def broker_ready_simps)
  qed (use False assms a in \<open>simp add: analytics_connect_def broker_ready_simps\<close>)
qed (use assms in \<open>simp add: analytics_connect_def analytics_acquire_def\<close>)

lemma notification_connect_outcome:
  assumes "idle b"
  shows "case notification_connect e q url now b of
      (None, b') \<Rightarrow> idle b' \<and> \<not> (url \<noteq> '''' \<and> broker_ready e \<and> queue_ready q NotificationsEvents)
    | (Some mq, b') \<Rightarrow> consuming_from ''notification-service'' ''notifications.events'' NotificationsEvents b b'
        \<and> idle (notification_Close (Some mq) b') \<and> url \<noteq> '''' \<and> broker_ready e \<and> queue_ready q NotificationsEvents"
proof (cases "url = ''''")
  case False
  let ?r = "fst (dial_loop e (now + rabbitMQStartupTimeout) rabbitMQAttempts 1 rabbitMQInitialBackoff now)"
  have a: "notification_acquire e url (now + rabbitMQStartupTimeout) rabbitMQAttempts now b = realized ''notification-service'' ?r b"
    using False by (simp add: notification_acquire_def notification_mq.acquire_realizes [OF assms])
  show ?thesis
  proof (rule realized_cases [of "''notification-service''" ?r b])
    fix k assume k: "realized ''notification-service'' ?r b
        = ((Connected k, Some \<lparr>rc_Conn = Some k, rc_Channel = Some k\<rparr>), holding ''notification-service'' k b)" "is_connected ?r"
    obtain ok b' where d: "DeclareNotificationQueue q (holding ''notification-service'' k b) = (ok, b')" by (metis surj_pair)
    note o = DeclareNotificationQueue_outcome [OF d]
    from k(2) False a k(1) d o(1,4) Close_only(2) [OF o(2,3) refl] show ?thesis
      by (cases ok) (simp_all add: notification_connect_def broker_ready_simps)
  qed (use False assms a in \<open>simp add: notification_connect_def broker_ready_simps\<close>)
qed (use assms in \<open>simp add: notification_connect_def notification_acquire_def\<close>)

lemma url_connect_outcome:
  assumes "idle b"
  shows "case url_connect e now b of
      (None, b') \<Rightarrow> idle b' \<and> \<not> broker_ready_url e
    | (Some mq, b') \<Rightarrow> (\<exists>k. b' = holding ''url-service'' k b) \<and> idle (url_Close mq b') \<and> broker_ready_url e"
proof -
  let ?r = "fst (dial_loop_url e (now + 60 * second) 10 1 second now)"
  have a: "url_acquire_loop e (now + 60 * second) 10 1 second now b = realized ''url-service'' ?r b"
    by (rule url_acquire_realizes [OF assms])
  show ?thesis
  proof (rule realized_cases [of "''url-service''" ?r b])
    fix k assume k: "realized ''url-service'' ?r b
        = ((Connected k, Some \<lparr>rc_Conn = Some k, rc_Channel = Some k\<rparr>), holding ''url-service'' k b)" "is_connected ?r"
    have "idle (url_Close \<lparr>rc_Conn = Some k, rc_Channel = Some k\<rparr> (holding ''url-service'' k b))"
      by (rule Close_only(3)) (simp_all add: holding_def)
    with a k show ?thesis by (auto simp: url_connect_def broker_ready_simps)
  qed (use assms a in \<open>simp add: url_connect_def broker_ready_simps\<close>)
qed

section \<open>The pool\<close>

lemma analytics_pool:
  "fst (analytics_connectDatabase D u) = connectDatabase D u"
  "snd (analytics_connectDatabase D u) \<longleftrightarrow> (\<exists>t p. connectDatabase D u = Ready t p)"
  by (auto simp: analytics_connectDatabase_def analytics_NewDBPool_def analytics_runMigrations_def connectDatabase_def
      NewDBPool_def runMigrations_def within_def fatal_def split: option.splits)

lemma notification_pool:
  "fst (notification_connectDatabase D u) = connectDatabase D u"
  "snd (notification_connectDatabase D u) \<longleftrightarrow> (\<exists>t p. connectDatabase D u = Ready t p)"
  by (auto simp: notification_connectDatabase_def notification_NewDBPool_def connectDatabase_def
      NewDBPool_def runMigrations_def within_def fatal_def split: option.splits)

section \<open>Properties\<close>

text \<open>C31: starting leaves nothing behind. From a broker on which a service holds nothing, connecting either fails, and then
  the service holds no connection and no channel, whichever attempt or declaration failed, or it
  succeeds: then it holds exactly one connection under its name with exactly one channel, the topic
  exchange exists, a consumer's queue is bound to exactly the keys of its events, and \<open>Close\<close> gives
  everything back. It succeeds exactly when the loop of \<open>Startup\<close> connects and the queue can be
  declared. A database pool of the two consumers is open afterwards exactly when \<open>connectDatabase\<close> returns.\<close>

theorem connecting_leaks_nothing:
  assumes "idle b"
  shows "(case analytics_connect e q url now b of
        (None, b') \<Rightarrow> idle b' \<and> \<not> (url \<noteq> '''' \<and> broker_ready e \<and> queue_ready q AnalyticsClicks)
      | (Some mq, b') \<Rightarrow> consuming_from ''analytics-service'' ''analytics.clicks'' AnalyticsClicks b b' \<and> idle (analytics_Close (Some mq) b')
          \<and> url \<noteq> '''' \<and> broker_ready e \<and> queue_ready q AnalyticsClicks)
    \<and> (case notification_connect e q url now b of
        (None, b') \<Rightarrow> idle b' \<and> \<not> (url \<noteq> '''' \<and> broker_ready e \<and> queue_ready q NotificationsEvents)
      | (Some mq, b') \<Rightarrow> consuming_from ''notification-service'' ''notifications.events'' NotificationsEvents b b'
          \<and> idle (notification_Close (Some mq) b') \<and> url \<noteq> '''' \<and> broker_ready e \<and> queue_ready q NotificationsEvents)
    \<and> (case url_connect e now b of
        (None, b') \<Rightarrow> idle b' \<and> \<not> broker_ready_url e
      | (Some mq, b') \<Rightarrow> (\<exists>k. b' = holding ''url-service'' k b) \<and> idle (url_Close mq b') \<and> broker_ready_url e)
    \<and> (snd (analytics_connectDatabase D u) \<longleftrightarrow> (\<exists>t p. fst (analytics_connectDatabase D u) = Ready t p))
    \<and> (snd (notification_connectDatabase D u) \<longleftrightarrow> (\<exists>t p. fst (notification_connectDatabase D u) = Ready t p))"
  using analytics_connect_outcome [OF assms] notification_connect_outcome [OF assms] url_connect_outcome [OF assms]
  by (simp only: analytics_pool notification_pool simp_thms)

definition bare_broker :: broker where
  "bare_broker = \<lparr>bk_conns = [], bk_chans = [], bk_exchanges = {}, bk_queues = {}, bk_bindings = {}\<rparr>"

text \<open>The third dial gets a connection but no channel, the fourth gets both; one binding fails at
  notification-service.\<close>

definition late_broker :: dial_env where
  "late_broker = live_broker\<lparr>de_channel := (\<lambda>k. 4 \<le> k)\<rparr>"

definition one_bad_binding :: queue_env where
  "one_bad_binding = \<lparr>qe_declare = True, qe_bind = (\<lambda>key. key \<noteq> ''url.deleted'')\<rparr>"

theorem connecting_leaks_nothing_witness:
  "(\<exists>mq b. analytics_connect late_broker one_bad_binding ''amqp://mq'' 0 bare_broker = (Some mq, b)
       \<and> consuming_from ''analytics-service'' ''analytics.clicks'' AnalyticsClicks bare_broker b \<and> idle (analytics_Close (Some mq) b))
   \<and> (\<exists>b. notification_connect late_broker one_bad_binding ''amqp://mq'' 0 bare_broker = (None, b) \<and> idle b)
   \<and> (\<exists>b. url_connect late_broker 0 bare_broker = (None, b) \<and> idle b)"
proof -
  have i: "idle bare_broker" by (simp add: idle_def bare_broker_def)
  have r: "broker_ready late_broker" "\<not> broker_ready_url late_broker" by code_simp+
  have q: "queue_ready one_bad_binding AnalyticsClicks" "\<not> queue_ready one_bad_binding NotificationsEvents"
    by (auto simp: queue_ready_def one_bad_binding_def routes_to_def notificationRoutingKeys_def)
  note h = connecting_leaks_nothing [OF i, where e = late_broker and q = one_bad_binding and url = "''amqp://mq''" and now = 0
      and D = healthy_db and u = "''postgres://db''"]
  show ?thesis
    using h r q by (auto split: prod.splits option.splits)
qed

end
