(* ===== verification/Spec2Isabelle.thy ===== *)
theory Spec2Isabelle
  imports BreakerProps GatewayLimit EndToEnd Replies PipelineProps Lifecycle ClickPath UrlDirectory UrlInterleaved Resources
begin

text \<open>
  A verification development for the URL shortener in this repository: five Go processes behind
  one another.

  \<^item> The gateway (\<open>src/gateway\<close>) authenticates, limits and routes requests and keeps a circuit
    breaker in front of url-service.
  \<^item> url-service (\<open>src/services/url-service\<close>) shortens, redirects, lists and deactivates. It keeps the
    URLs and an outbox of events in one database, and redirect targets in a Redis cache. A
    coordinator polls the outbox and publishes its rows on a topic exchange.
  \<^item> analytics-service (\<open>src/services/analytics-service\<close>) consumes click events, counts them, detects
    milestones, which it publishes on the same exchange, and answers statistics queries.
  \<^item> notification-service (\<open>src/services/notification-service\<close>) consumes creation, deletion and
    milestone events, stores a notification per message, sends a mock mail, and lists them.
  \<^item> user-service (\<open>src/services/user-service\<close>) registers accounts and issues the tokens that the
    others verify (\<open>src/shared/auth\<close>).

  \<^bold>\<open>How the theories correspond to the code.\<close>

  \<^item> \<open>Prelude\<close>, \<open>GoStd\<close>, \<open>Http\<close>: time, 64-bit wrap-around, responses, the functions of Go's \<open>strings\<close>,
    \<open>strconv\<close> and \<open>net\<close> that the code calls, rows and updates; the locales \<open>invariant_of\<close> and
    \<open>refines\<close> for transition systems.
  \<^item> \<open>TimeText\<close>: instants as RFC 3339 text, the Gregorian calendar included, written as \<open>time.Time\<close>
    marshals and read by the package's parser. \<open>Events\<close>: \<open>shared/events/events.go\<close>, with JSON as a
    datatype and decoding as Go's case-insensitive field matching; \<open>reread\<close> is a document from its text.
  \<^item> \<open>Logger\<close>: \<open>shared/logger/logger.go\<close>.
  \<^item> \<open>Auth\<close>: \<open>shared/auth\<close> and \<open>token.go\<close> of user-service; the JWT library is a parameter with the laws
    \<open>jwt_laws\<close>.
  \<^item> \<open>Base62\<close>: \<open>base62.go\<close>, \<open>codegen.go\<close>; the contract \<open>short_code_generator\<close>.
  \<^item> \<open>CircuitBreaker\<close>, \<open>BreakerProps\<close>: \<open>gateway/circuitbreaker.go\<close>; \<open>Do\<close> as a function, and concurrent
    calls as the step relation \<open>cb_step\<close> whose steps are the critical sections under the mutex.
  \<^item> \<open>RateLimit\<close>: \<open>gateway/ratelimit.go\<close>; \<open>Router\<close>: \<open>gateway/router.go\<close>; \<open>Gateway\<close>, \<open>GatewayProps\<close>:
    \<open>handler.go\<close>, \<open>proxy.go\<close>, \<open>errors.go\<close>, \<open>metrics.go\<close>, the middlewares, and the composition in
    \<open>main.go\<close>; \<open>GatewayLimit\<close>: the limiter inside the gateway, over
    sequences of requests.
  \<^item> \<open>UrlStore\<close>: the tables of \<open>migration.sql\<close> with their constraints and the statements of \<open>store.go\<close>
    and \<open>outbox_store.go\<close>; \<open>UrlCache\<close>: \<open>cache.go\<close>; \<open>UrlService\<close>: \<open>service.go\<close>, \<open>utils.go\<close>,
    \<open>validate.go\<close>; \<open>UrlHandlers\<close>: \<open>handler.go\<close>, the mux; \<open>UrlSystem\<close>: the service as a transition
    system \<open>us_run\<close> of requests, the goroutines they spawn, and the coordinator's statements;
    \<open>UrlListing\<close>, \<open>UrlProps\<close>: what it guarantees. \<open>Keyset\<close> is the contract of a paginated list.
    \<open>UrlActive\<close>: the locale \<open>table_relation\<close> of what every step does to the URLs; \<open>UrlDirectory\<close>: the
    directory that the service refines. \<open>UrlInterleaved\<close>: the requests in pieces that overtake one
    another, as \<open>ui_run\<close>; undisturbed pieces are the operations of \<open>UrlService\<close>.
  \<^item> \<open>Outbox\<close>, \<open>OutboxProps\<close>: \<open>outbox.go\<close>, \<open>publisher.go\<close>; \<open>ob_step\<close> interleaves any number of
    coordinators with their workers, with crashes.
  \<^item> \<open>Delivery\<close>: outcomes, replies and redelivery, with the contract \<open>at_least_once\<close>; \<open>Analytics\<close>,
    \<open>AnalyticsProps\<close>: \<open>consumer.go\<close>, \<open>milestone.go\<close>, \<open>store.go\<close>, \<open>handler.go\<close> of analytics-service;
    \<open>Notification\<close>, \<open>NotificationProps\<close>: the same of notification-service.
  \<^item> \<open>UserService\<close>, \<open>UserProps\<close>: \<open>handler.go\<close>, \<open>store.go\<close>, \<open>password.go\<close>, \<open>validate.go\<close> of user-service;
    bcrypt is a parameter with the law \<open>bcrypt_laws\<close>; the email expression is matched by derivatives.
  \<^item> \<open>Config\<close>: the five \<open>config.go\<close>; \<open>Startup\<close>: the connection loops of \<open>rabbitmq.go\<close> and the queues;
    \<open>Processes\<close>: the first half of the five \<open>main.go\<close>, with \<open>db.go\<close>, \<open>redis.go\<close>, \<open>migrations.go\<close> and
    \<open>health.go\<close>; \<open>Resources\<close>: what the clients hold open at the broker and the database, of which the
    loops of \<open>Startup\<close> are the results; \<open>Lifecycle\<close>: \<open>Run\<close> of the two consumers and the shutdown of
    the processes.
  \<^item> \<open>Pipeline\<close>, \<open>PipelineProps\<close>: the asynchronous half composed, coordinators, exchange and consumers,
    as \<open>pl_step\<close>; \<open>ClickPath\<close>: a click from the redirect to the statistics; \<open>SyncPath\<close>: the gateway in
    front of url-service; \<open>EndToEnd\<close>: from a token of user-service through the gateway to a short
    URL and its redirects; \<open>Replies\<close>: the reply protocol of the four services.

  \<^bold>\<open>State and operations.\<close> A process's state is a record of its tables, its cache and its counters;
  a handler is a function from the request, an environment and the state to the response and the
  new state. The environment of a call holds what the code does not decide: the clock, generated
  identifiers, and the outcome of every call into a database, Redis or the broker, so every error
  path of the source is a branch. A Go panic is the value \<open>Panic\<close> (or the ending \<open>Panicked\<close>). SQL
  transactions are functions on the tables whose result is used only when the commit works.

  \<^bold>\<open>What the lemmas show.\<close> Invariants of the reachable states are interpretations of \<open>invariant_of\<close>:
  \<open>breaker\<close>, \<open>breaker_probe\<close> and \<open>breaker_exclusive\<close> for the breaker, \<open>url_service\<close> for the tables, the
  outbox and the cache of url-service, \<open>overlapping\<close> for the same with requests that overtake one
  another, \<open>outbox_coord\<close> for the coordinators, \<open>consumer\<close> and \<open>notifier\<close>
  for the two consumers, \<open>accounts\<close> for the users. \<open>pipe\<close> interprets \<open>refines\<close>: the pipeline from
  the outbox to the click table implements a counter that counts each issued event at most once;
  \<open>directory\<close> interprets it too: url-service implements a directory of codes that are added once and
  switched off for good. \<open>kept\<close> and \<open>dir\<close> interpret \<open>table_relation\<close>. \<open>ClickPath\<close> has the
  counterpart of \<open>pipe\<close>: without lasting faults each redirect is counted exactly once.
  \<open>url_listing\<close> and \<open>nt_listing\<close> interpret \<open>keyset_listing\<close>, so both lists are complete and without
  repetition. \<open>click_redelivery\<close> and \<open>nt_redelivery\<close> interpret \<open>at_least_once\<close>: a click counts once
  however often it is delivered, a notification once and once more per lost commit. \<open>analytics_mq\<close> and
  \<open>notification_mq\<close> interpret \<open>broker_dialer\<close>: the connection loops leave no connection behind. The remaining
  properties are about single operations on every branch, about optimised or encoded forms
  (base 62, the email expression, the events' JSON), about the ends of loops and widths of
  integers, and about the places where components work together less well than they should.

  \<^bold>\<open>Bounds and fuel.\<close> Loops are structural or counted by their number of attempts; nothing runs on
  fuel except \<open>walk\<close>, which follows a list's cursors for a number of pages, and \<open>fly\<close>, which completes a
  request piece by piece: one page more than the rows there are, and four pieces, are proved to be enough. Durations and counters that can overflow go through
  \<open>i64\<close>.

  \<^bold>\<open>What is not modelled.\<close> Postgres, Redis, RabbitMQ, \<open>net/http\<close>'s connection handling,
  \<open>httputil.ReverseProxy\<close>, the JWT and bcrypt libraries and SHA-256 are parameters or environments:
  only what their documentation promises is used, as named laws with a witness that they can hold.
  The processes run in UTC, as their containers do, so a time formatted without a zone of its own ends in Z.
  Log output, the Prometheus registry, the metrics endpoints and the insides of connection pools
  carry no logic of this program. Where several services contain the same text that holds no
  resource (health handler, shutdown, error and JSON writers) it is modelled once. Constructors that only fill a struct,
  and interface declarations, have no definition of their own. Of the time parser's general fallback only its
  strict form is modelled. Isolation of concurrent SQL transactions is
  modelled where a property depends on it: the snapshot that a click transaction reads, and the
  row locks that the outbox poll skips. The front end and the Python test scripts are not Go and
  are left aside.
\<close>

end
